theory Spec2Isabelle
  imports Complex_Main
begin

section \<open>SHG-FROG phase retrieval: the numerical core of \<open>phase_retrieval.py\<close>\<close>

text \<open>
  The development embeds the functions of \<open>src/shg_frog/model/phase_retrieval.py\<close>.
  A finite \<open>float64\<close> is a \<^typ>\<open>real\<close> and a finite \<open>complex128\<close> a \<^typ>\<open>complex\<close>:
  rounding and overflow are not represented, every finite operation is exact. What is
  represented is the outcome of the divisions and square roots that NumPy evaluates
  without raising: a quotient by zero or the root of a negative number is a value
  (\<open>nan\<close>, \<open>inf\<close>, \<open>-inf\<close>) that travels on through the arithmetic. Zero has no sign
  here, a quotient \<open>x / 0\<close> with \<open>x \<noteq> 0\<close> takes the sign of \<open>x\<close>.

  A two-dimensional array is the list of its rows. Display, file access and the
  progress signals are left out; a raised exception is a value \<open>Inl e\<close>.
\<close>

subsection \<open>Exceptions and non-finite floats\<close>

datatype py_error =
    TypeError | ValueError | IndexError | ZeroDivisionError | NameError
  | OverflowError | LinAlgError

datatype npfloat = Fin real | PInf | NInf | NaN

type_synonym 'a matrix = "'a list list"

fun np_neg :: "npfloat \<Rightarrow> npfloat" where
  "np_neg (Fin a) = Fin (- a)"
| "np_neg PInf = NInf"
| "np_neg NInf = PInf"
| "np_neg NaN = NaN"

fun np_add :: "npfloat \<Rightarrow> npfloat \<Rightarrow> npfloat" where
  "np_add (Fin a) (Fin b) = Fin (a + b)"
| "np_add NaN _ = NaN"
| "np_add _ NaN = NaN"
| "np_add PInf NInf = NaN"
| "np_add NInf PInf = NaN"
| "np_add PInf _ = PInf"
| "np_add _ PInf = PInf"
| "np_add NInf _ = NInf"
| "np_add _ NInf = NInf"

definition np_sub :: "npfloat \<Rightarrow> npfloat \<Rightarrow> npfloat" where
  "np_sub x y = np_add x (np_neg y)"

definition inf_of_sign :: "real \<Rightarrow> npfloat" where
  "inf_of_sign a = (if a = 0 then NaN else if 0 < a then PInf else NInf)"

fun np_mul :: "npfloat \<Rightarrow> npfloat \<Rightarrow> npfloat" where
  "np_mul (Fin a) (Fin b) = Fin (a * b)"
| "np_mul NaN _ = NaN"
| "np_mul _ NaN = NaN"
| "np_mul (Fin a) PInf = inf_of_sign a"
| "np_mul (Fin a) NInf = inf_of_sign (- a)"
| "np_mul PInf (Fin b) = inf_of_sign b"
| "np_mul NInf (Fin b) = inf_of_sign (- b)"
| "np_mul PInf PInf = PInf"
| "np_mul NInf NInf = PInf"
| "np_mul PInf NInf = NInf"
| "np_mul NInf PInf = NInf"

fun np_div :: "npfloat \<Rightarrow> npfloat \<Rightarrow> npfloat" where
  "np_div (Fin a) (Fin b) = (if b = 0 then inf_of_sign a else Fin (a / b))"
| "np_div NaN _ = NaN"
| "np_div _ NaN = NaN"
| "np_div (Fin a) PInf = Fin 0"
| "np_div (Fin a) NInf = Fin 0"
| "np_div PInf (Fin b) = (if 0 \<le> b then PInf else NInf)"
| "np_div NInf (Fin b) = (if 0 \<le> b then NInf else PInf)"
| "np_div PInf PInf = NaN"
| "np_div NInf NInf = NaN"
| "np_div PInf NInf = NaN"
| "np_div NInf PInf = NaN"

fun np_sqrt :: "npfloat \<Rightarrow> npfloat" where
  "np_sqrt (Fin a) = (if 0 \<le> a then Fin (sqrt a) else NaN)"
| "np_sqrt PInf = PInf"
| "np_sqrt NInf = NaN"
| "np_sqrt NaN = NaN"

fun np_abs :: "npfloat \<Rightarrow> npfloat" where
  "np_abs (Fin a) = Fin \<bar>a\<bar>"
| "np_abs PInf = PInf"
| "np_abs NInf = PInf"
| "np_abs NaN = NaN"

text \<open>\<open>x > y\<close> on floats: every comparison with \<open>nan\<close> is false.\<close>

fun np_gt :: "npfloat \<Rightarrow> npfloat \<Rightarrow> bool" where
  "np_gt (Fin a) (Fin b) = (b < a)"
| "np_gt NaN _ = False"
| "np_gt _ NaN = False"
| "np_gt PInf PInf = False"
| "np_gt PInf _ = True"
| "np_gt _ PInf = False"
| "np_gt NInf _ = False"
| "np_gt _ NInf = True"

definition np_square :: "npfloat \<Rightarrow> npfloat" where
  "np_square x = np_mul x x"

text \<open>\<open>np.sum\<close> over all entries; in this arithmetic the order of summation is immaterial.\<close>

definition np_sum :: "npfloat list \<Rightarrow> npfloat" where
  "np_sum xs = foldr np_add xs (Fin 0)"

text \<open>\<open>np.mean\<close>: the sum over the number of entries, \<open>nan\<close> for an array without entries.\<close>

definition np_mean :: "npfloat list \<Rightarrow> npfloat" where
  "np_mean xs = np_div (np_sum xs) (Fin (real (length xs)))"

subsection \<open>Two-dimensional arrays\<close>

definition nrows :: "'a matrix \<Rightarrow> nat" where
  "nrows A = length A"

definition ncols :: "'a matrix \<Rightarrow> nat" where
  "ncols A = (case A of [] \<Rightarrow> 0 | r # _ \<Rightarrow> length r)"

definition shape :: "'a matrix \<Rightarrow> nat \<times> nat" where
  "shape A = (nrows A, ncols A)"

text \<open>A list of rows is an array when all rows have the same length.\<close>

definition is_array :: "'a matrix \<Rightarrow> bool" where
  "is_array A = list_all (\<lambda>r. length r = ncols A) A"

definition mk_mat :: "nat \<Rightarrow> nat \<Rightarrow> (nat \<Rightarrow> nat \<Rightarrow> 'a) \<Rightarrow> 'a matrix" where
  "mk_mat r c f = map (\<lambda>i. map (\<lambda>j. f i j) [0..<c]) [0..<r]"

definition fin_mat :: "real matrix \<Rightarrow> npfloat matrix" where
  "fin_mat A = map (map Fin) A"

text \<open>
  NumPy's broadcasting of a binary elementwise operation, for two-dimensional operands:
  along each axis the extents agree or one of them is 1; otherwise \<open>ValueError\<close>.
\<close>

definition bdim :: "nat \<Rightarrow> nat \<Rightarrow> nat" where
  "bdim a b = (if a = 1 then b else a)"

definition bidx :: "nat \<Rightarrow> nat \<Rightarrow> nat" where
  "bidx extent i = (if extent = 1 then 0 else i)"

definition broadcastable :: "'a matrix \<Rightarrow> 'b matrix \<Rightarrow> bool" where
  "broadcastable A B =
     ((nrows A = nrows B \<or> nrows A = 1 \<or> nrows B = 1) \<and>
      (ncols A = ncols B \<or> ncols A = 1 \<or> ncols B = 1))"

definition broadcast2 ::
  "('a \<Rightarrow> 'b \<Rightarrow> 'c) \<Rightarrow> 'a matrix \<Rightarrow> 'b matrix \<Rightarrow> py_error + 'c matrix" where
  "broadcast2 f A B =
     (if broadcastable A B then
        Inr (mk_mat (bdim (nrows A) (nrows B)) (bdim (ncols A) (ncols B))
               (\<lambda>i j. f (A ! bidx (nrows A) i ! bidx (ncols A) j)
                        (B ! bidx (nrows B) i ! bidx (ncols B) j)))
      else Inl ValueError)"

subsection \<open>The module-level helpers\<close>

text \<open>\<open>rms_diff(F1, F2) = np.sqrt(np.mean(np.square(F1 - F2)))\<close>\<close>

definition rms_diff :: "npfloat matrix \<Rightarrow> npfloat matrix \<Rightarrow> py_error + npfloat" where
  "rms_diff F1 F2 =
     (case broadcast2 np_sub F1 F2 of
        Inl e \<Rightarrow> Inl e
      | Inr D \<Rightarrow> Inr (np_sqrt (np_mean (map np_square (concat D)))))"

text \<open>\<open>np.amax(arr)\<close>: the largest entry; \<open>ValueError\<close> on an array without entries.\<close>

definition amax :: "real matrix \<Rightarrow> py_error + real" where
  "amax arr = (case concat arr of [] \<Rightarrow> Inl ValueError | y # ys \<Rightarrow> Inr (fold max ys y))"

text \<open>\<open>normalize_max_one(arr) = arr / np.amax(arr)\<close>\<close>

definition normalize_max_one :: "real matrix \<Rightarrow> py_error + npfloat matrix" where
  "normalize_max_one arr =
     (case amax arr of
        Inl e \<Rightarrow> Inl e
      | Inr m \<Rightarrow> Inr (map (map (\<lambda>x. np_div (Fin x) (Fin m))) arr))"

text \<open>\<open>calc_alpha(Fm, Fr) = np.sum(Fm*Fr) / np.sum(np.square(Fr))\<close>\<close>

definition calc_alpha :: "npfloat matrix \<Rightarrow> npfloat matrix \<Rightarrow> py_error + npfloat" where
  "calc_alpha Fm Fr =
     (case broadcast2 np_mul Fm Fr of
        Inl e \<Rightarrow> Inl e
      | Inr P \<Rightarrow> Inr (np_div (np_sum (concat P))
                               (np_sum (map np_square (concat Fr)))))"

text \<open>The quantity that \<open>calc_alpha\<close> is meant to minimise, \<open>\<Sum>(Fm - a\<cdot>Fr)\<^sup>2\<close> over all entries.\<close>

definition sq_residual :: "real matrix \<Rightarrow> real matrix \<Rightarrow> real \<Rightarrow> real" where
  "sq_residual Fm Fr a =
     (\<Sum>i<length Fm. \<Sum>j<length (Fm ! i). (Fm ! i ! j - a * Fr ! i ! j)\<^sup>2)"

subsection \<open>Python numbers as loop bounds\<close>

text \<open>
  \<open>range\<close> and slice bounds accept what has an \<open>__index__\<close>: a Python \<open>int\<close>, but not a
  \<open>float\<close> or \<open>numpy.float64\<close>, whatever its value. \<open>np.floor\<close> and \<open>np.ceil\<close> return
  floats; \<open>int(...)\<close> converts.
\<close>

datatype pynum = PyInt int | PyFloat real

fun py_index :: "pynum \<Rightarrow> py_error + int" where
  "py_index (PyInt i) = Inr i"
| "py_index (PyFloat x) = Inl TypeError"

fun py_add :: "pynum \<Rightarrow> pynum \<Rightarrow> pynum" where
  "py_add (PyInt a) (PyInt b) = PyInt (a + b)"
| "py_add (PyInt a) (PyFloat b) = PyFloat (of_int a + b)"
| "py_add (PyFloat a) (PyInt b) = PyFloat (a + of_int b)"
| "py_add (PyFloat a) (PyFloat b) = PyFloat (a + b)"

fun py_sub :: "pynum \<Rightarrow> pynum \<Rightarrow> pynum" where
  "py_sub (PyInt a) (PyInt b) = PyInt (a - b)"
| "py_sub (PyInt a) (PyFloat b) = PyFloat (of_int a - b)"
| "py_sub (PyFloat a) (PyInt b) = PyFloat (a - of_int b)"
| "py_sub (PyFloat a) (PyFloat b) = PyFloat (a - b)"

text \<open>\<open>range(a, b)\<close>\<close>

definition py_range :: "pynum \<Rightarrow> pynum \<Rightarrow> py_error + int list" where
  "py_range a b =
     (case py_index a of Inl e \<Rightarrow> Inl e | Inr i \<Rightarrow>
      case py_index b of Inl e \<Rightarrow> Inl e | Inr j \<Rightarrow> Inr [i..j - 1])"

text \<open>A \<open>for\<close> loop over a list of indices whose body may raise.\<close>

fun for_loop :: "'i list \<Rightarrow> ('i \<Rightarrow> 's \<Rightarrow> py_error + 's) \<Rightarrow> 's \<Rightarrow> py_error + 's" where
  "for_loop [] body s = Inr s"
| "for_loop (i # is) body s =
     (case body i s of Inl e \<Rightarrow> Inl e | Inr s' \<Rightarrow> for_loop is body s')"

subsection \<open>NumPy array operations\<close>

text \<open>\<open>np.roll(x, k)\<close> on one axis: entry \<open>i\<close> of the result is entry \<open>(i - k) mod n\<close> of \<open>x\<close>.\<close>

definition roll1 :: "int \<Rightarrow> 'a list \<Rightarrow> 'a list" where
  "roll1 k xs = map (\<lambda>i. xs ! nat ((int i - k) mod int (length xs))) [0..<length xs]"

definition roll_axis0 :: "int \<Rightarrow> 'a matrix \<Rightarrow> 'a matrix" where
  "roll_axis0 k A = roll1 k A"

definition roll_axis1 :: "int \<Rightarrow> 'a matrix \<Rightarrow> 'a matrix" where
  "roll_axis1 k A = map (roll1 k) A"

text \<open>\<open>np.fft.fftshift(A, 1)\<close> rolls axis 1 by \<open>n // 2\<close>, \<open>ifftshift\<close> by \<open>-(n // 2)\<close>.\<close>

definition fftshift_axis1 :: "'a matrix \<Rightarrow> 'a matrix" where
  "fftshift_axis1 A = roll_axis1 (int (ncols A div 2)) A"

definition ifftshift_axis1 :: "'a matrix \<Rightarrow> 'a matrix" where
  "ifftshift_axis1 A = roll_axis1 (- int (ncols A div 2)) A"

definition fliplr :: "'a matrix \<Rightarrow> 'a matrix" where
  "fliplr A = map rev A"

definition flipud :: "'a matrix \<Rightarrow> 'a matrix" where
  "flipud A = rev A"

definition column :: "'a matrix \<Rightarrow> nat \<Rightarrow> 'a list" where
  "column A j = map (\<lambda>row. row ! j) A"

definition transpose_mat :: "'a matrix \<Rightarrow> 'a matrix" where
  "transpose_mat A = map (column A) [0..<ncols A]"

text \<open>The array whose columns are the given lists, each of length \<open>r\<close>.\<close>

definition of_columns :: "nat \<Rightarrow> 'a list list \<Rightarrow> 'a matrix" where
  "of_columns r cs = map (\<lambda>i. map (\<lambda>c. c ! i) cs) [0..<r]"

definition outer :: "complex list \<Rightarrow> complex list \<Rightarrow> complex matrix" where
  "outer a b = map (\<lambda>x. map (\<lambda>y. x * y) b) a"

text \<open>
  \<open>np.tril(A, k)\<close> keeps the entries on and below the \<open>k\<close>-th diagonal (\<open>j - i \<le> k\<close>),
  \<open>np.triu(A, k)\<close> those on and above it (\<open>j - i \<ge> k\<close>); the others are zero.
\<close>

definition tril :: "complex matrix \<Rightarrow> int \<Rightarrow> complex matrix" where
  "tril A k = mk_mat (nrows A) (ncols A)
                (\<lambda>i j. if int j - int i \<le> k then A ! i ! j else 0)"

definition triu :: "complex matrix \<Rightarrow> int \<Rightarrow> complex matrix" where
  "triu A k = mk_mat (nrows A) (ncols A)
                (\<lambda>i j. if k \<le> int j - int i then A ! i ! j else 0)"

definition mat_sub :: "complex matrix \<Rightarrow> complex matrix \<Rightarrow> complex matrix" where
  "mat_sub A B = map2 (map2 (-)) A B"

text \<open>
  The discrete Fourier transform as \<open>np.fft.fft\<close> and \<open>np.fft.ifft\<close> define it,
  \<open>X\<^sub>k = \<Sum>\<^sub>n x\<^sub>n e\<^sup>-\<^sup>2\<^sup>\<pi>\<^sup>i\<^sup>k\<^sup>n\<^sup>/\<^sup>N\<close> and \<open>x\<^sub>n = (1/N) \<Sum>\<^sub>k X\<^sub>k e\<^sup>2\<^sup>\<pi>\<^sup>i\<^sup>k\<^sup>n\<^sup>/\<^sup>N\<close>.
  Both raise \<open>ValueError\<close> on an axis of length 0.
\<close>

definition twiddle :: "nat \<Rightarrow> int \<Rightarrow> complex" where
  "twiddle N m = cis (2 * pi * real_of_int m / real N)"

definition dft :: "complex list \<Rightarrow> complex list" where
  "dft x = map (\<lambda>k. \<Sum>n<length x. x ! n * twiddle (length x) (- int (k * n)))
             [0..<length x]"

definition idft :: "complex list \<Rightarrow> complex list" where
  "idft x = map (\<lambda>k. (\<Sum>n<length x. x ! n * twiddle (length x) (int (k * n)))
                       / of_nat (length x))
              [0..<length x]"

definition fft :: "complex list \<Rightarrow> py_error + complex list" where
  "fft x = (if length x = 0 then Inl ValueError else Inr (dft x))"

definition ifft :: "complex list \<Rightarrow> py_error + complex list" where
  "ifft x = (if length x = 0 then Inl ValueError else Inr (idft x))"

text \<open>\<open>np.fft.fft(A, None, axis=0)\<close>: every column is transformed.\<close>

definition fft_axis0 :: "complex matrix \<Rightarrow> py_error + complex matrix" where
  "fft_axis0 A =
     (if nrows A = 0 then Inl ValueError
      else Inr (of_columns (nrows A) (map (\<lambda>j. dft (column A j)) [0..<ncols A])))"

definition ifft_axis0 :: "complex matrix \<Rightarrow> py_error + complex matrix" where
  "ifft_axis0 A =
     (if nrows A = 0 then Inl ValueError
      else Inr (of_columns (nrows A) (map (\<lambda>j. idft (column A j)) [0..<ncols A])))"

text \<open>
  \<open>EF[n,:] = np.roll(EF[n,:], k)\<close>, the body of the row-rotation loops; \<open>IndexError\<close>
  when there is no row \<open>n\<close>.
\<close>

definition roll_row :: "int \<Rightarrow> nat \<Rightarrow> 'a matrix \<Rightarrow> py_error + 'a matrix" where
  "roll_row k n EF =
     (if n < nrows EF then Inr (EF[n := roll1 k (EF ! n)]) else Inl IndexError)"

text \<open>
  A slice bound of a sequence of length \<open>len\<close>: a negative bound counts from the end,
  and the result is clipped to \<open>0 \<dots> len\<close>.
\<close>

definition slice_bound :: "nat \<Rightarrow> int \<Rightarrow> nat" where
  "slice_bound len a =
     (if a < 0 then nat (max 0 (a + int len)) else min (nat a) len)"

text \<open>\<open>EF[n, a:b] = 0\<close> for a row index \<open>n \<ge> 0\<close>.\<close>

definition zero_slice ::
  "int \<Rightarrow> pynum \<Rightarrow> pynum \<Rightarrow> complex matrix \<Rightarrow> py_error + complex matrix" where
  "zero_slice n a b EF =
     (case py_index a of Inl e \<Rightarrow> Inl e | Inr a' \<Rightarrow>
      case py_index b of Inl e \<Rightarrow> Inl e | Inr b' \<Rightarrow>
      if n < 0 \<or> int (nrows EF) \<le> n then Inl IndexError
      else let row = EF ! nat n;
               lo = slice_bound (length row) a';
               hi = slice_bound (length row) b'
           in Inr (EF[nat n := map (\<lambda>j. if lo \<le> j \<and> j < hi then 0 else row ! j)
                                    [0..<length row]]))"

text \<open>
  The anti-alias mask in the time domain,
  \<open>EF - np.tril(EF, -np.ceil(N/2.)) - np.triu(EF, np.ceil(N/2.))\<close>.
\<close>

definition antialias_time :: "nat \<Rightarrow> complex matrix \<Rightarrow> complex matrix" where
  "antialias_time N EF =
     mat_sub (mat_sub EF (tril EF (- \<lceil>real N / 2\<rceil>))) (triu EF \<lceil>real N / 2\<rceil>)"

text \<open>
  The anti-alias loops in the frequency domain. \<open>makeFROG\<close> runs them from \<open>n = 1\<close> with
  \<open>vmax = int(np.floor(N/2.))\<close>, \<open>guessPulse\<close> from \<open>n = 2\<close> with \<open>vmax = np.floor(N/2.)\<close>:
  \<^verbatim>\<open>
  vmin = vmax+1
  for n in range(first, vmax+1):
      EF[n, vmax-(n-1):vmax+1] = 0
  for n in range(vmin, N):
      EF[n, vmin:vmin+(N-n)] = 0
  \<close>
\<close>

definition antialias_freq ::
  "int \<Rightarrow> pynum \<Rightarrow> nat \<Rightarrow> complex matrix \<Rightarrow> py_error + complex matrix" where
  "antialias_freq first vmax N EF =
     (let vmin = py_add vmax (PyInt 1) in
      case py_range (PyInt first) (py_add vmax (PyInt 1)) of Inl e \<Rightarrow> Inl e | Inr ns1 \<Rightarrow>
      case for_loop ns1
             (\<lambda>n. zero_slice n (py_sub vmax (PyInt (n - 1))) (py_add vmax (PyInt 1))) EF
      of Inl e \<Rightarrow> Inl e | Inr EF1 \<Rightarrow>
      case py_range vmin (PyInt (int N)) of Inl e \<Rightarrow> Inl e | Inr ns2 \<Rightarrow>
      for_loop ns2
        (\<lambda>n. zero_slice n vmin (py_add vmin (PyInt (int N - n)))) EF1)"

definition abs_square :: "complex matrix \<Rightarrow> real matrix" where
  "abs_square EF = map (map (\<lambda>z. (cmod z)\<^sup>2)) EF"

subsection \<open>\<open>makeFROG\<close>\<close>

text \<open>
  \<open>makeFROG(Pt, domain, antialias)\<close> returns the pair \<open>(F, EF)\<close> for \<open>domain\<close> 0 and 1.
  For any other \<open>domain\<close> the function body ends without a \<open>return\<close>: the value is
  \<open>None\<close>. The field \<open>Pt\<close> is the list of its \<open>N\<close> entries.
\<close>

definition makeFROG ::
  "complex list \<Rightarrow> int \<Rightarrow> int \<Rightarrow> py_error + (real matrix \<times> complex matrix) option" where
  "makeFROG Pt domain antialias =
     (let N = length Pt in
      if domain = 0 then
        (let EF = outer Pt Pt;
             EF = (if antialias \<noteq> 0 then antialias_time N EF else EF)
         in case for_loop [0..<N] (\<lambda>n. roll_row (- int n) n) EF of Inl e \<Rightarrow> Inl e | Inr EF \<Rightarrow>
            (let EF = fliplr (fftshift_axis1 EF)
             in case fft_axis0 EF of Inl e \<Rightarrow> Inl e | Inr EF \<Rightarrow>
                (let EF = roll_axis0 (\<lceil>real N / 2\<rceil> - 1) EF
                 in Inr (Some (abs_square EF, EF)))))
      else if domain = 1 then
        (case fft Pt of Inl e \<Rightarrow> Inl e | Inr PtFFT \<Rightarrow>
         case (if antialias \<noteq> 0
               then antialias_freq 1 (PyInt \<lfloor>real N / 2\<rfloor>) N (outer PtFFT PtFFT)
               else Inr (outer PtFFT PtFFT)) of Inl e \<Rightarrow> Inl e | Inr EF \<Rightarrow>
         case for_loop [0..<N] (\<lambda>n. roll_row (- int n) n) (fliplr EF) of
           Inl e \<Rightarrow> Inl e | Inr EF \<Rightarrow>
         case ifft_axis0 EF of Inl e \<Rightarrow> Inl e | Inr EF \<Rightarrow>
           (let EF = flipud (fliplr EF);
                EF = roll_axis0 \<lceil>real N / 2\<rceil> EF;
                EF = roll_axis1 (\<lceil>real N / 2\<rceil> - 1) EF;
                EF = transpose_mat EF
            in Inr (Some (abs_square EF, EF))))
      else Inr None)"

subsection \<open>\<open>guessPulse\<close>\<close>

text \<open>
  A field returned by \<open>guessPulse\<close>: the list of its entries, or, after the division
  \<open>0 / 0\<close> of every entry, the array of that length whose entries are all \<open>nan+nanj\<close>.
\<close>

datatype npfield = Field "complex list" | NaNField nat

text \<open>\<open>np.linalg.norm\<close> of a vector\<close>

definition np_norm :: "complex list \<Rightarrow> real" where
  "np_norm v = sqrt (\<Sum>z\<leftarrow>v. (cmod z)\<^sup>2)"

text \<open>
  \<open>Pt / np.linalg.norm(Pt)\<close>. The norm is zero only if every entry is zero, and then
  every quotient is \<open>0 / 0\<close>.
\<close>

definition normalize_field :: "complex list \<Rightarrow> npfield" where
  "normalize_field Pt =
     (if np_norm Pt = 0 then NaNField (length Pt)
      else Field (map (\<lambda>z. z / of_real (np_norm Pt)) Pt))"

text \<open>\<open>np.dot(A, v)\<close> for a matrix and a vector; \<open>ValueError\<close> when the extents differ.\<close>

definition matvec :: "complex matrix \<Rightarrow> complex list \<Rightarrow> py_error + complex list" where
  "matvec A v =
     (if ncols A = length v then Inr (map (\<lambda>row. \<Sum>j<length v. row ! j * v ! j) A)
      else Inl ValueError)"

text \<open>\<open>np.conjugate(np.transpose(EF))\<close>\<close>

definition conj_transpose :: "complex matrix \<Rightarrow> complex matrix" where
  "conj_transpose A = map (map cnj) (transpose_mat A)"

text \<open>
  The power-method step \<open>np.dot(EF, np.dot(np.conjugate(np.transpose(EF)), v))\<close>.
\<close>

definition power_step :: "complex matrix \<Rightarrow> complex list \<Rightarrow> py_error + complex list" where
  "power_step EF v =
     (case matvec (conj_transpose EF) v of Inl e \<Rightarrow> Inl e | Inr w \<Rightarrow> matvec EF w)"

text \<open>\<open>Pt.reshape(N, 1)\<close>: \<open>ValueError\<close> unless \<open>Pt\<close> has \<open>N\<close> entries.\<close>

definition reshape_column :: "nat \<Rightarrow> complex list \<Rightarrow> py_error + complex list" where
  "reshape_column N v = (if length v = N then Inr v else Inl ValueError)"

text \<open>
  \<open>guessPulse(EF, lastPt, domain, antialias, PowerOrSVD)\<close>. The library routine
  \<open>np.linalg.svd\<close> is a parameter: \<open>svd_u0 EF\<close> is the first column \<open>U[:,0]\<close> of the factor
  \<open>U\<close> it returns, or the exception it raises. As in \<open>makeFROG\<close>, a \<open>domain\<close> other than
  0 and 1 returns \<open>None\<close>.
\<close>

definition guessPulse ::
  "(complex matrix \<Rightarrow> py_error + complex list) \<Rightarrow> complex matrix \<Rightarrow> complex list \<Rightarrow>
     int \<Rightarrow> int \<Rightarrow> int \<Rightarrow> py_error + npfield option" where
  "guessPulse svd_u0 EF lastPt domain antialias PowerOrSVD =
     (if EF = [] then Inl IndexError else
      let N = length (EF ! 0) in
      if domain = 0 then
        (case ifft_axis0 (roll_axis0 (- (\<lceil>real N / 2\<rceil> - 1)) EF) of
           Inl e \<Rightarrow> Inl e | Inr EF \<Rightarrow>
         case for_loop [0..<N] (\<lambda>n. roll_row (int n) n) (ifftshift_axis1 (fliplr EF)) of
           Inl e \<Rightarrow> Inl e | Inr EF \<Rightarrow>
         (let EF = (if antialias \<noteq> 0 then antialias_time N EF else EF)
          in case (if PowerOrSVD = 0 then power_step EF lastPt
                   else case svd_u0 EF of Inl e \<Rightarrow> Inl e | Inr u \<Rightarrow> reshape_column N u) of
               Inl e \<Rightarrow> Inl e
             | Inr Pt \<Rightarrow> Inr (Some (normalize_field Pt))))
      else if domain = 1 then
        (let EF = transpose_mat EF;
             EF = roll_axis1 (- (\<lceil>real N / 2\<rceil> - 1)) EF;
             EF = roll_axis0 (- \<lceil>real N / 2\<rceil>) EF;
             EF = flipud (fliplr EF)
         in case fft_axis0 EF of Inl e \<Rightarrow> Inl e | Inr EF \<Rightarrow>
            case for_loop [0..<N] (\<lambda>n. roll_row (int n) n) EF of
              Inl e \<Rightarrow> Inl e | Inr EF \<Rightarrow>
            case (if antialias \<noteq> 0
                  then antialias_freq 2 (PyFloat (of_int \<lfloor>real N / 2\<rfloor>)) N (fliplr EF)
                  else Inr (fliplr EF)) of Inl e \<Rightarrow> Inl e | Inr EF \<Rightarrow>
            case (if PowerOrSVD = 0
                  then case fft lastPt of Inl e \<Rightarrow> Inl e | Inr lastPtFFT \<Rightarrow>
                       case power_step EF lastPtFFT of Inl e \<Rightarrow> Inl e | Inr v \<Rightarrow> ifft v
                  else case svd_u0 EF of Inl e \<Rightarrow> Inl e | Inr u \<Rightarrow>
                       case ifft u of Inl e \<Rightarrow> Inl e | Inr v \<Rightarrow> reshape_column N v) of
              Inl e \<Rightarrow> Inl e
            | Inr Pt \<Rightarrow> Inr (Some (normalize_field Pt)))
      else Inr None)"

text \<open>\<open>np.linalg.norm\<close> of a field returned by \<open>guessPulse\<close>\<close>

definition field_norm :: "npfield \<Rightarrow> npfloat" where
  "field_norm r = (case r of Field v \<Rightarrow> Fin (np_norm v)
                   | NaNField n \<Rightarrow> (if n = 0 then Fin 0 else NaN))"

subsection \<open>\<open>retrievePhase\<close>\<close>

text \<open>
  The solver works on \<open>float64\<close> arrays that may hold \<open>nan\<close>. The prepared trace \<open>Fm\<close>, the
  scaled trace \<open>Fr\<close> and the error \<open>G\<close> are followed with their non-finite values; the fields
  and field-product matrices are followed as long as their entries are finite. A run
  ends in one of three ways: the function returns, an exception is raised, or a
  non-finite entry reaches \<open>guessPulse\<close>, where this development, whose FFT and matrix
  products are over finite numbers, stops following the program (\<open>NonFinite\<close>; this is not
  an exception of the program).
\<close>

datatype 'a outcome = Returns 'a | Raises py_error | NonFinite

text \<open>
  The attributes of the \<open>PhaseRetrieval\<close> object that \<open>retrievePhase\<close> reads;
  \<open>self.method\<close> is \<open>[makeFROGdomain, makeFROGantialias, guesspulsedomain,
  guesspulseantialias]\<close>.
\<close>

record config =
  max_iter :: int
  GTol :: real
  seed :: "complex list option"
  makeFROGdomain :: int
  makeFROGantialias :: int
  guesspulsedomain :: int
  guesspulseantialias :: int
  self_dtperpx :: real
  self_Fm :: "real matrix"

text \<open>The local variables of the iteration.\<close>

record gp_state =
  cur_Pt :: "complex list"
  cur_Fr :: "npfloat matrix"
  cur_EFr :: "complex matrix"
  cur_G :: npfloat
  iteration :: int

text \<open>\<open>int(x)\<close> of a float truncates towards zero and raises on \<open>nan\<close> and \<open>inf\<close>.\<close>

definition trunc :: "real \<Rightarrow> int" where
  "trunc x = (if 0 \<le> x then \<lfloor>x\<rfloor> else \<lceil>x\<rceil>)"

fun py_int :: "npfloat \<Rightarrow> py_error + int" where
  "py_int (Fin x) = Inr (trunc x)"
| "py_int NaN = Inl ValueError"
| "py_int PInf = Inl OverflowError"
| "py_int NInf = Inl OverflowError"

text \<open>\<open>np.round\<close> and Python's \<open>round\<close> take a tie to the even neighbour.\<close>

definition round_half_even :: "real \<Rightarrow> int" where
  "round_half_even x =
     (let f = \<lfloor>x\<rfloor>; d = x - of_int f
      in if d < 1 / 2 then f else if 1 / 2 < d then f + 1
         else if even f then f else f + 1)"

fun np_round :: "npfloat \<Rightarrow> npfloat" where
  "np_round (Fin x) = Fin (of_int (round_half_even x))"
| "np_round PInf = PInf"
| "np_round NInf = NInf"
| "np_round NaN = NaN"

text \<open>
  The initial guess when no seed is loaded, from the \<open>N\<close> numbers \<open>rand\<close> drawn by
  \<open>np.random.rand(1, N)\<close>:
  \<open>exp(-2 ln 2 ((k - N/2) / (N/10))\<^sup>2) \<cdot> exp(0.1 \<cdot> 2\<pi>i \<cdot> rand\<^sub>k)\<close>.
\<close>

definition random_guess :: "nat \<Rightarrow> real list \<Rightarrow> complex list" where
  "random_guess N rand =
     map (\<lambda>k. of_real (exp (- 2 * ln 2 * ((real k - real N / 2) / (real N / 10))\<^sup>2))
              * cis (0.1 * 2 * pi * rand ! k)) [0..<N]"

definition initial_guess :: "config \<Rightarrow> nat \<Rightarrow> real list \<Rightarrow> complex list" where
  "initial_guess self N rand = (case seed self of None \<Rightarrow> random_guess N rand | Some s \<Rightarrow> s)"

text \<open>
  The two lines that follow each call of \<open>makeFROG\<close>:
  \<^verbatim>\<open>
  Fr = Fr * calc_alpha(Fm, Fr)
  G = rms_diff(Fm, Fr)
  \<close>
\<close>

definition scale_and_error ::
  "npfloat matrix \<Rightarrow> real matrix \<Rightarrow> py_error + (npfloat matrix \<times> npfloat)" where
  "scale_and_error Fm F =
     (case calc_alpha Fm (fin_mat F) of Inl e \<Rightarrow> Inl e | Inr alpha \<Rightarrow>
      let Fr = map (map (\<lambda>x. np_mul (Fin x) alpha)) F
      in case rms_diff Fm Fr of Inl e \<Rightarrow> Inl e | Inr G \<Rightarrow> Inr (Fr, G))"

text \<open>
  \<open>Fr, EFr = self.makeFROG(Pt, makeFROGdomain, makeFROGantialias)\<close> and the two lines
  above. Unpacking the \<open>None\<close> that \<open>makeFROG\<close> returns for an unknown domain is a
  \<open>TypeError\<close>.
\<close>

definition make_trace ::
  "config \<Rightarrow> npfloat matrix \<Rightarrow> complex list \<Rightarrow>
     py_error + (npfloat matrix \<times> complex matrix \<times> npfloat)" where
  "make_trace self Fm Pt =
     (case makeFROG Pt (makeFROGdomain self) (makeFROGantialias self) of
        Inl e \<Rightarrow> Inl e
      | Inr None \<Rightarrow> Inl TypeError
      | Inr (Some (F, EFr)) \<Rightarrow>
          (case scale_and_error Fm F of Inl e \<Rightarrow> Inl e
           | Inr (Fr, G) \<Rightarrow> Inr (Fr, EFr, G)))"

text \<open>
  The data-consistency update
  \<^verbatim>\<open>
  EFr = EFr * np.sqrt(np.divide(Fm, Fr, out=np.zeros_like(Fm), where=Fr!=0))
  \<close>
  The quotient is taken where \<open>Fr != 0\<close> (true for \<open>nan\<close>) and is 0 elsewhere; the output
  array has the shape of \<open>Fm\<close>, and \<open>np.divide\<close> raises \<open>ValueError\<close> if the operands
  broadcast to another shape. An entry of the result is \<open>None\<close> when it is not finite.
\<close>

definition guarded_quotient :: "npfloat \<Rightarrow> npfloat \<Rightarrow> npfloat" where
  "guarded_quotient m r = (if r \<noteq> Fin 0 then np_div m r else Fin 0)"

definition scale_entry :: "complex \<Rightarrow> npfloat \<Rightarrow> complex option" where
  "scale_entry e q = (case np_sqrt q of Fin s \<Rightarrow> Some (e * of_real s) | _ \<Rightarrow> None)"

definition gp_project ::
  "complex matrix \<Rightarrow> npfloat matrix \<Rightarrow> npfloat matrix \<Rightarrow> py_error + complex option matrix" where
  "gp_project EFr Fm Fr =
     (case broadcast2 guarded_quotient Fm Fr of Inl e \<Rightarrow> Inl e | Inr Q \<Rightarrow>
      if shape Q \<noteq> shape Fm then Inl ValueError
      else broadcast2 scale_entry EFr Q)"

text \<open>
  Recentring:
  \<^verbatim>\<open>
  centerindex = (np.sum(np.arange(1, N+1).reshape(N, 1) * np.absolute(np.power(Pt, 4)))
                 / np.sum(np.absolute(np.power(Pt, 4))))
  Pt = np.roll(Pt, -int(np.round(centerindex-N/2.)))
  \<close>
  \<open>Pt\<close> is a column of shape \<open>(len, 1)\<close>; on a field of \<open>nan\<close> entries \<open>centerindex\<close> is
  \<open>nan\<close> and \<open>int\<close> raises \<open>ValueError\<close>.
\<close>

definition recentre :: "nat \<Rightarrow> npfield \<Rightarrow> py_error + complex list" where
  "recentre N fld =
     (case fld of
        NaNField n \<Rightarrow> Inl ValueError
      | Field Pt \<Rightarrow>
          (let w = map (\<lambda>z. [cmod (z ^ 4)]) Pt
           in case broadcast2 (*) (map (\<lambda>i. [real (i + 1)]) [0..<N]) w of
                Inl e \<Rightarrow> Inl e
              | Inr P \<Rightarrow>
                  (let centerindex = np_div (Fin (sum_list (concat P))) (Fin (sum_list (concat w)))
                   in case py_int (np_round (np_sub centerindex (Fin (real N / 2)))) of
                        Inl e \<Rightarrow> Inl e
                      | Inr k \<Rightarrow> Inr (roll1 (- k) Pt))))"

text \<open>
  One pass through the loop body, after \<open>iteration += 1\<close>. \<open>guessPulse\<close> is called with
  its default \<open>PowerOrSVD = 0\<close>; if it returns \<open>None\<close>, \<open>np.power(Pt, 4)\<close> raises
  \<open>TypeError\<close>.
\<close>

definition gp_step ::
  "(complex matrix \<Rightarrow> py_error + complex list) \<Rightarrow> config \<Rightarrow> npfloat matrix \<Rightarrow> nat \<Rightarrow>
     complex list \<Rightarrow> npfloat matrix \<Rightarrow> complex matrix \<Rightarrow>
     (complex list \<times> npfloat matrix \<times> complex matrix \<times> npfloat) outcome" where
  "gp_step svd_u0 self Fm N Pt Fr EFr =
     (case gp_project EFr Fm Fr of Inl e \<Rightarrow> Raises e | Inr Q \<Rightarrow>
      if \<not> list_all (list_all (\<lambda>x. x \<noteq> None)) Q then NonFinite
      else case guessPulse svd_u0 (map (map the) Q) Pt
                  (guesspulsedomain self) (guesspulseantialias self) 0 of
             Inl e \<Rightarrow> Raises e
           | Inr None \<Rightarrow> Raises TypeError
           | Inr (Some fld) \<Rightarrow>
               (case recentre N fld of Inl e \<Rightarrow> Raises e | Inr Pt' \<Rightarrow>
                case make_trace self Fm Pt' of Inl e \<Rightarrow> Raises e
                | Inr (Fr', EFr', G') \<Rightarrow> Returns (Pt', Fr', EFr', G')))"

text \<open>\<open>while G > self.GTol and iteration < self.max_iter: ...\<close>\<close>

function gp_loop ::
  "(complex matrix \<Rightarrow> py_error + complex list) \<Rightarrow> config \<Rightarrow> npfloat matrix \<Rightarrow> nat \<Rightarrow>
     gp_state \<Rightarrow> gp_state outcome" where
  "gp_loop svd_u0 self Fm N s =
     (if np_gt (cur_G s) (Fin (GTol self)) \<and> iteration s < max_iter self then
        (case gp_step svd_u0 self Fm N (cur_Pt s) (cur_Fr s) (cur_EFr s) of
           Returns (Pt', Fr', EFr', G') \<Rightarrow>
             gp_loop svd_u0 self Fm N
               \<lparr>cur_Pt = Pt', cur_Fr = Fr', cur_EFr = EFr', cur_G = G',
                iteration = iteration s + 1\<rparr>
         | Raises e \<Rightarrow> Raises e
         | NonFinite \<Rightarrow> NonFinite)
      else Returns s)"
  by pat_completeness auto
termination
  by (relation "measure (\<lambda>(svd_u0, self, Fm, N, s). nat (max_iter self - iteration s))") auto

declare gp_loop.simps [simp del]

text \<open>
  Everything before the loop. The arguments are \<open>Fm\<close>, \<open>dtperpx\<close> and \<open>units\<close> of the call
  (\<open>None\<close> when omitted), the array \<open>file_Fm\<close> stored under \<open>self.fp_name\<close>, and the random
  numbers. Without an \<open>Fm\<close> argument the trace is \<open>self.Fm\<close> if \<open>int(np.sum(self.Fm)) != 0\<close>
  and the file otherwise. \<open>dtperpx\<close> is a Python float, so \<open>1 / (N*dtperpx)\<close> raises
  \<open>ZeroDivisionError\<close> on zero; with a \<open>units\<close> argument the names \<open>dtunit\<close> and \<open>dvunit\<close>
  are unbound at the \<open>print\<close>. The result is the normalised trace, \<open>N\<close> and the state
  at the loop head.
\<close>

definition gp_init ::
  "config \<Rightarrow> real matrix \<Rightarrow> real list \<Rightarrow> real matrix option \<Rightarrow> real option \<Rightarrow>
     string list option \<Rightarrow> py_error + (npfloat matrix \<times> nat \<times> gp_state)" where
  "gp_init self file_Fm rand Fm_arg dtperpx_arg units_arg =
     (let Fm = (case Fm_arg of
                  Some A \<Rightarrow> A
                | None \<Rightarrow> if trunc (sum_list (concat (self_Fm self))) \<noteq> 0
                          then self_Fm self else file_Fm)
      in if Fm = [] then Inl IndexError else
         let N = length (Fm ! 0);
             dtperpx = (case dtperpx_arg of None \<Rightarrow> self_dtperpx self | Some d \<Rightarrow> d)
         in if real N * dtperpx = 0 then Inl ZeroDivisionError
            else if units_arg \<noteq> None then Inl NameError
            else let Pt = initial_guess self N rand
                 in case normalize_max_one Fm of Inl e \<Rightarrow> Inl e | Inr Fm' \<Rightarrow>
                    case make_trace self Fm' Pt of Inl e \<Rightarrow> Inl e
                    | Inr (Fr, EFr, G) \<Rightarrow>
                        Inr (Fm', N, \<lparr>cur_Pt = Pt, cur_Fr = Fr, cur_EFr = EFr, cur_G = G,
                                      iteration = 0\<rparr>))"

text \<open>
  \<open>retrievePhase\<close>. The function itself returns \<open>None\<close> and stores \<open>self.Fr = Fr\<close>; the
  value here is the state of its local variables when it ends.
\<close>

definition retrievePhase ::
  "(complex matrix \<Rightarrow> py_error + complex list) \<Rightarrow> config \<Rightarrow> real matrix \<Rightarrow> real list \<Rightarrow>
     real matrix option \<Rightarrow> real option \<Rightarrow> string list option \<Rightarrow> gp_state outcome" where
  "retrievePhase svd_u0 self file_Fm rand Fm_arg dtperpx_arg units_arg =
     (case gp_init self file_Fm rand Fm_arg dtperpx_arg units_arg of
        Inl e \<Rightarrow> Raises e
      | Inr (Fm, N, s) \<Rightarrow> gp_loop svd_u0 self Fm N s)"

text \<open>
  Modelled from the spec: the terminal status of a run, which the code does not
  record. The spec's solver ends \<open>CONVERGED\<close> if \<open>G \<le> tolerance\<close> and
  \<open>MAX_ITER_REACHED\<close> if the iteration count has hit the configured cap.
\<close>

datatype gp_status = CONVERGED | MAX_ITER_REACHED

definition terminal_status :: "config \<Rightarrow> gp_state \<Rightarrow> gp_status option" where
  "terminal_status self s =
     (if np_gt (cur_G s) (Fin (GTol self)) then
        (if max_iter self \<le> iteration s then Some MAX_ITER_REACHED else None)
      else (case cur_G s of Fin g \<Rightarrow> Some CONVERGED | NInf \<Rightarrow> Some CONVERGED | _ \<Rightarrow> None))"

subsection \<open>\<open>prepFROG\<close>\<close>

text \<open>
  \<open>prepFROG(ccddt, ccddv, ccdimg, showprogress=0, showautocor=0, flip)\<close> with the image and
  the two calibration steps given (when \<open>ccdimg\<close> is \<open>None\<close> the method reads them from a
  file first), and without the plots. The image is a two-dimensional array of finite
  floats, the steps are Python floats, \<open>self.prep_size\<close> is a Python \<open>int\<close>. The method
  stores \<open>self.dtperpx\<close> and \<open>self.Fm\<close>; the model returns the pair.

  The orientation: \<open>np.transpose\<close> for \<open>flip\<close> 1 and 3, then \<open>np.flipud\<close> for \<open>flip\<close> 2 and 3.
\<close>

definition orient :: "int \<Rightarrow> 'a matrix \<Rightarrow> 'a matrix" where
  "orient flip A =
     (let A = (if flip = 1 \<or> flip = 3 then transpose_mat A else A)
      in if flip = 2 \<or> flip = 3 then flipud A else A)"

text \<open>\<open>np.sum(ccdimg, 0)\<close>, \<open>np.sum(ccdimg, 1)\<close> and \<open>np.arange(1, n+1)\<close>\<close>

definition col_sums :: "real matrix \<Rightarrow> real list" where
  "col_sums A = map (\<lambda>j. sum_list (column A j)) [0..<ncols A]"

definition row_sums :: "real matrix \<Rightarrow> real list" where
  "row_sums A = map sum_list A"

definition arange1 :: "nat \<Rightarrow> real list" where
  "arange1 n = map (\<lambda>k. real (k + 1)) [0..<n]"

text \<open>
  The centre \<open>np.inner(np.arange(1, n+1), sums) / np.sum(sums)\<close> and the extent
  \<open>2*np.inner(np.abs(np.arange(1, n+1) - centre), sums) / np.sum(sums)\<close> of the spot along
  one axis. The divisions are NumPy's: a zero sum gives \<open>nan\<close> or \<open>inf\<close>, not an exception.
\<close>

definition centroid :: "real list \<Rightarrow> npfloat" where
  "centroid tot =
     np_div (Fin (sum_list (map2 (*) (arange1 (length tot)) tot))) (Fin (sum_list tot))"

definition spot_extent :: "npfloat \<Rightarrow> real list \<Rightarrow> npfloat" where
  "spot_extent centre tot =
     np_div (np_mul (Fin 2)
               (np_sum (map2 (\<lambda>k s. np_mul (np_abs (np_sub (Fin k) centre)) (Fin s))
                          (arange1 (length tot)) tot)))
            (Fin (sum_list tot))"

text \<open>
  \<open>1/(self.prep_size*ccddtdv)\<close>, a division of Python floats: \<open>ZeroDivisionError\<close> when
  the product is zero.
\<close>

definition sample_area :: "int \<Rightarrow> real \<Rightarrow> py_error + real" where
  "sample_area prep_size ccddtdv =
     (if of_int prep_size * ccddtdv = 0 then Inl ZeroDivisionError
      else Inr (1 / (of_int prep_size * ccddtdv)))"

text \<open>
  \<open>np.fft.fft2\<close> and \<open>np.fft.ifft2\<close> transform the last axis, then the first; they raise
  \<open>ValueError\<close> on an array with an axis of length 0. \<open>np.fft.fftshift\<close> and
  \<open>np.fft.ifftshift\<close> without an axis roll every axis by \<open>n // 2\<close> and by \<open>-(n // 2)\<close>.
\<close>

definition fft2 :: "complex matrix \<Rightarrow> py_error + complex matrix" where
  "fft2 A = (if nrows A = 0 \<or> ncols A = 0 then Inl ValueError else fft_axis0 (map dft A))"

definition ifft2 :: "complex matrix \<Rightarrow> py_error + complex matrix" where
  "ifft2 A = (if nrows A = 0 \<or> ncols A = 0 then Inl ValueError else ifft_axis0 (map idft A))"

definition fftshift2 :: "'a matrix \<Rightarrow> 'a matrix" where
  "fftshift2 A = roll_axis1 (int (ncols A div 2)) (roll_axis0 (int (nrows A div 2)) A)"

definition ifftshift2 :: "'a matrix \<Rightarrow> 'a matrix" where
  "ifftshift2 A = roll_axis1 (- int (ncols A div 2)) (roll_axis0 (- int (nrows A div 2)) A)"

text \<open>
  The low-pass filter, with \<open>rho = 0.3\<close>:
  \<^verbatim>\<open>
  maxtimesrho = max([ccdsizev, ccdsizet])*rho
  ccdimgfft=np.fft.fftshift(np.fft.fft2(ccdimg))
  tophatfilter=np.zeros((ccdsizev, ccdsizet))
  for ii in range(ccdsizev):
      for jj in range(ccdsizet):
          if(np.sqrt(np.square((ii+1)-ccdsizev/2.)+np.square((jj+1)-ccdsizet/2.))
             <maxtimesrho):
              tophatfilter[ii,jj]=1
  ccdimgfft = tophatfilter * ccdimgfft
  ccdimg = abs(np.fft.ifft2(np.fft.ifftshift(ccdimgfft)))
  \<close>
\<close>

definition tophatfilter :: "nat \<Rightarrow> nat \<Rightarrow> real matrix" where
  "tophatfilter ccdsizev ccdsizet =
     mk_mat ccdsizev ccdsizet
       (\<lambda>ii jj. if sqrt ((real (ii + 1) - real ccdsizev / 2)\<^sup>2
                        + (real (jj + 1) - real ccdsizet / 2)\<^sup>2)
                    < real (max ccdsizev ccdsizet) * (3 / 10)
                 then 1 else 0)"

definition low_pass :: "real matrix \<Rightarrow> py_error + real matrix" where
  "low_pass ccdimg =
     (case fft2 (map (map complex_of_real) ccdimg) of Inl e \<Rightarrow> Inl e | Inr X \<Rightarrow>
      let ccdimgfft = map2 (map2 (\<lambda>t z. complex_of_real t * z))
                        (tophatfilter (nrows ccdimg) (ncols ccdimg)) (fftshift2 X)
      in case ifft2 (ifftshift2 ccdimgfft) of Inl e \<Rightarrow> Inl e
         | Inr Y \<Rightarrow> Inr (map (map cmod) Y))"

text \<open>
  The background subtraction:
  \<^verbatim>\<open>
  imgblocks = np.zeros((ccdsizev, ccdsizet))
  for ii in range(8):
      ccdimg_rollv = np.roll(ccdimg, ii+1, axis=0)
      for jj in range(8):
          ccdimg_rollvt = np.roll(ccdimg_rollv, jj+1, axis=1)
          imgblocks = imgblocks + ccdimg_rollvt
  background = np.amin(imgblocks)/(8.*8.)
  ccdimg = ccdimg - background
  ccdimg[ccdimg<0] = 0
  \<close>
\<close>

definition imgblocks :: "real matrix \<Rightarrow> real matrix" where
  "imgblocks ccdimg =
     foldl (\<lambda>blocks (ii, jj).
              map2 (map2 (+)) blocks
                (roll_axis1 (int jj + 1) (roll_axis0 (int ii + 1) ccdimg)))
       (mk_mat (nrows ccdimg) (ncols ccdimg) (\<lambda>i j. 0))
       (List.product [0..<8] [0..<8])"

definition amin :: "real matrix \<Rightarrow> py_error + real" where
  "amin arr = (case concat arr of [] \<Rightarrow> Inl ValueError | y # ys \<Rightarrow> Inr (fold min ys y))"

definition subtract_background :: "real matrix \<Rightarrow> py_error + real matrix" where
  "subtract_background ccdimg =
     (case amin (imgblocks ccdimg) of Inl e \<Rightarrow> Inl e
      | Inr m \<Rightarrow> Inr (map (map (\<lambda>x. if x - m / 64 < 0 then 0 else x - m / 64)) ccdimg))"

text \<open>
  The test \<open>np.shape(ccdimg)==(self.prep_size, self.prep_size) and
  ccddt * ccddv == 1./float(self.prep_size)\<close>; the right operand is evaluated only when the
  left one is true.
\<close>

definition already_sampled :: "int \<Rightarrow> real \<Rightarrow> real \<Rightarrow> real matrix \<Rightarrow> py_error + bool" where
  "already_sampled prep_size ccddt ccddv ccdimg =
     (if int (nrows ccdimg) = prep_size \<and> int (ncols ccdimg) = prep_size then
        if prep_size = 0 then Inl ZeroDivisionError
        else Inr (ccddt * ccddv = 1 / of_int prep_size)
      else Inr False)"

text \<open>
  The downsampling. \<open>int(round(self.prep_size/2.+((k+1)-centre)/pitch))-1\<close> is the target
  index of the source index \<open>k\<close>; \<open>round\<close> raises \<open>ValueError\<close> on \<open>nan\<close> and
  \<open>OverflowError\<close> on \<open>inf\<close>.
  \<^verbatim>\<open>
  fnlimg = np.zeros((self.prep_size, self.prep_size))
  fnlimgcount = np.zeros((self.prep_size, self.prep_size))
  for ii in range(ccdsizev):
      rowinfinal = ...
      if(rowinfinal<0 or rowinfinal>=self.prep_size):
          continue
      for jj in range(ccdsizet):
          colinfinal = ...
          if(colinfinal<0 or colinfinal>self.prep_size-1):
              continue
          fnlimgcount[rowinfinal, colinfinal] += 1
          fnlimg[rowinfinal, colinfinal] += ccdimg[ii,jj]
  fnlimgcount[fnlimgcount==0] = 1
  fnlimg = fnlimg / fnlimgcount
  \<close>
  \<open>np.zeros\<close> raises \<open>ValueError\<close> on a negative size.
\<close>

definition target_index :: "int \<Rightarrow> nat \<Rightarrow> npfloat \<Rightarrow> npfloat \<Rightarrow> py_error + int" where
  "target_index prep_size k centre pitch =
     (case py_int (np_round (np_add (Fin (of_int prep_size / 2))
                               (np_div (np_sub (Fin (real (k + 1))) centre) pitch))) of
        Inl e \<Rightarrow> Inl e
      | Inr i \<Rightarrow> Inr (i - 1))"

definition add_at :: "nat \<Rightarrow> nat \<Rightarrow> real \<Rightarrow> real matrix \<Rightarrow> real matrix" where
  "add_at i j v M = M[i := (M ! i)[j := M ! i ! j + v]]"

definition downsample ::
  "int \<Rightarrow> real matrix \<Rightarrow> npfloat \<Rightarrow> npfloat \<Rightarrow> npfloat \<Rightarrow> npfloat \<Rightarrow> py_error + real matrix" where
  "downsample prep_size ccdimg centerrow centercol vpxpersample tpxpersample =
     (if prep_size < 0 then Inl ValueError
      else
        let zeros = mk_mat (nat prep_size) (nat prep_size) (\<lambda>i j. 0)
        in case for_loop [0..<nrows ccdimg]
                  (\<lambda>ii (fnlimg, fnlimgcount).
                     case target_index prep_size ii centerrow vpxpersample of
                       Inl e \<Rightarrow> Inl e
                     | Inr rowinfinal \<Rightarrow>
                         if rowinfinal < 0 \<or> prep_size \<le> rowinfinal then Inr (fnlimg, fnlimgcount)
                         else for_loop [0..<ncols ccdimg]
                                (\<lambda>jj (fnlimg, fnlimgcount).
                                   case target_index prep_size jj centercol tpxpersample of
                                     Inl e \<Rightarrow> Inl e
                                   | Inr colinfinal \<Rightarrow>
                                       if colinfinal < 0 \<or> prep_size - 1 < colinfinal
                                       then Inr (fnlimg, fnlimgcount)
                                       else Inr (add_at (nat rowinfinal) (nat colinfinal)
                                                   (ccdimg ! ii ! jj) fnlimg,
                                                 add_at (nat rowinfinal) (nat colinfinal)
                                                   1 fnlimgcount))
                                (fnlimg, fnlimgcount))
                  (zeros, zeros) of
             Inl e \<Rightarrow> Inl e
           | Inr (fnlimg, fnlimgcount) \<Rightarrow>
               Inr (map2 (map2 (\<lambda>x n. x / (if n = 0 then 1 else n))) fnlimg fnlimgcount))"

text \<open>
  The method. The two pitches are \<open>np.sqrt((1/(N*ccddtdv))*aspectratio)\<close> and
  \<open>np.sqrt((1/(N*ccddtdv))/aspectratio)\<close>. When the filtered image is already sampled as
  required, \<open>fnlimg = ccdimg\<close> and \<open>fnldt = ccddt\<close>; otherwise the image is downsampled and
  \<open>fnldt = ccddt * tpxpersample\<close>.
\<close>

definition prepFROG ::
  "int \<Rightarrow> real \<Rightarrow> real \<Rightarrow> real matrix \<Rightarrow> int \<Rightarrow> py_error + (npfloat \<times> real matrix)" where
  "prepFROG prep_size ccddt ccddv ccdimg flip =
     (let ccddtdv = ccddt * ccddv;
          ccdimg = orient flip ccdimg;
          colsums = col_sums ccdimg;
          centercol = centroid colsums;
          rowsums = row_sums ccdimg;
          centerrow = centroid rowsums;
          spotwidth = spot_extent centercol colsums;
          spotheight = spot_extent centerrow rowsums;
          aspectratio = np_div spotheight spotwidth
      in case sample_area prep_size ccddtdv of Inl e \<Rightarrow> Inl e | Inr a \<Rightarrow>
         let vpxpersample = np_sqrt (np_mul (Fin a) aspectratio);
             tpxpersample = np_sqrt (np_div (Fin a) aspectratio)
         in case low_pass ccdimg of Inl e \<Rightarrow> Inl e | Inr filtered \<Rightarrow>
            case subtract_background filtered of Inl e \<Rightarrow> Inl e | Inr ccdimg \<Rightarrow>
            case already_sampled prep_size ccddt ccddv ccdimg of Inl e \<Rightarrow> Inl e
            | Inr True \<Rightarrow> Inr (Fin ccddt, ccdimg)
            | Inr False \<Rightarrow>
                (case downsample prep_size ccdimg centerrow centercol vpxpersample tpxpersample of
                   Inl e \<Rightarrow> Inl e
                 | Inr fnlimg \<Rightarrow> Inr (np_mul (Fin ccddt) tpxpersample, fnlimg)))"

section \<open>Properties\<close>

subsection \<open>Arrays\<close>

lemma mk_mat_nth [simp]: "i < r \<Longrightarrow> j < c \<Longrightarrow> mk_mat r c f ! i ! j = f i j"
  by (simp add: mk_mat_def)

lemma length_mk_mat [simp]: "length (mk_mat r c f) = r"
  by (simp add: mk_mat_def)

lemma length_mk_mat_row [simp]: "i < r \<Longrightarrow> length (mk_mat r c f ! i) = c"
  by (simp add: mk_mat_def)

subsection \<open>Finite arrays\<close>

lemma np_sum_Fin: "np_sum (map Fin xs) = Fin (sum_list xs)"
  by (induction xs) (simp_all add: np_sum_def)

lemma sum_list_concat_map:
  "sum_list (concat (map f xs)) = sum_list (map (\<lambda>x. sum_list (f x)) xs)"
  by (induction xs) simp_all

lemma sum_list_concat_mk_mat:
  "sum_list (concat (mk_mat r c g)) = (\<Sum>i<r. \<Sum>j<c. (g i j :: real))"
  by (simp add: mk_mat_def sum_list_concat_map interv_sum_list_conv_sum_set_nat atLeast0LessThan)

lemma concat_mk_mat_map:
  "map h (concat (mk_mat r c g)) = concat (mk_mat r c (\<lambda>i j. h (g i j)))"
  by (simp add: mk_mat_def map_concat comp_def)

lemma is_array_nth: "is_array A \<Longrightarrow> i < length A \<Longrightarrow> length (A ! i) = ncols A"
  by (simp add: is_array_def list_all_length)

lemma mk_mat_self: "is_array A \<Longrightarrow> mk_mat (nrows A) (ncols A) (\<lambda>i j. A ! i ! j) = A"
  unfolding mk_mat_def nrows_def
  by (rule nth_equalityI) (simp, simp, metis is_array_nth map_nth)

lemma mk_mat_cong: "(\<And>i j. i < r \<Longrightarrow> j < c \<Longrightarrow> f i j = g i j) \<Longrightarrow> mk_mat r c f = mk_mat r c g"
  by (simp add: mk_mat_def)

lemma mk_mat_eq_iff:
  "mk_mat r c f = mk_mat r c g \<longleftrightarrow> (\<forall>i<r. \<forall>j<c. f i j = g i j)"
  by (auto simp: mk_mat_def list_eq_iff_nth_eq)

lemma bdim_same [simp]: "bdim a a = a"
  by (simp add: bdim_def)

lemma broadcast2_same_shape:
  assumes "shape A = shape B"
  shows "broadcast2 f A B = Inr (mk_mat (nrows A) (ncols A) (\<lambda>i j. f (A ! i ! j) (B ! i ! j)))"
proof -
  from assms have r: "nrows B = nrows A" and c: "ncols B = ncols A"
    by (simp_all add: shape_def)
  have "mk_mat (nrows A) (ncols A)
          (\<lambda>i j. f (A ! bidx (nrows A) i ! bidx (ncols A) j)
                   (B ! bidx (nrows A) i ! bidx (ncols A) j))
        = mk_mat (nrows A) (ncols A) (\<lambda>i j. f (A ! i ! j) (B ! i ! j))"
    by (rule mk_mat_cong) (auto simp: bidx_def)
  then show ?thesis
    by (simp add: broadcast2_def broadcastable_def r c)
qed

lemma fin_mat_mk_mat: "fin_mat (mk_mat r c g) = mk_mat r c (\<lambda>i j. Fin (g i j))"
  by (simp add: fin_mat_def mk_mat_def)

lemma shape_fin_mat [simp]: "shape (fin_mat A) = shape A"
  by (cases A) (simp_all add: shape_def nrows_def ncols_def fin_mat_def)

lemma sq_residual_array:
  assumes "is_array Fm"
  shows "sq_residual Fm Fr a = (\<Sum>i<nrows Fm. \<Sum>j<ncols Fm. (Fm ! i ! j - a * Fr ! i ! j)\<^sup>2)"
  unfolding sq_residual_def nrows_def
  by (rule sum.cong) (simp_all add: is_array_nth [OF assms])


lemma nrows_fin_mat [simp]: "nrows (fin_mat A) = nrows A"
  by (simp add: nrows_def fin_mat_def)

lemma ncols_fin_mat [simp]: "ncols (fin_mat A) = ncols A"
  by (cases A) (simp_all add: ncols_def fin_mat_def)

lemma fin_mat_nth:
  "is_array A \<Longrightarrow> i < nrows A \<Longrightarrow> j < ncols A \<Longrightarrow> fin_mat A ! i ! j = Fin (A ! i ! j)"
  by (simp add: fin_mat_def nrows_def is_array_nth)

lemma np_sum_concat_mk_mat_Fin:
  "np_sum (concat (mk_mat r c (\<lambda>i j. Fin (g i j)))) = Fin (\<Sum>i<r. \<Sum>j<c. g i j)"
  by (simp add: concat_mk_mat_map [symmetric] np_sum_Fin sum_list_concat_mk_mat)

lemma broadcast2_fin:
  assumes A: "is_array A" "is_array B" and s: "shape A = shape B"
  shows "broadcast2 f (fin_mat A) (fin_mat B) =
     Inr (mk_mat (nrows A) (ncols A) (\<lambda>i j. f (Fin (A ! i ! j)) (Fin (B ! i ! j))))"
proof -
  from s have r: "nrows B = nrows A" and c: "ncols B = ncols A"
    by (simp_all add: shape_def)
  have "mk_mat (nrows A) (ncols A) (\<lambda>i j. f (fin_mat A ! i ! j) (fin_mat B ! i ! j))
      = mk_mat (nrows A) (ncols A) (\<lambda>i j. f (Fin (A ! i ! j)) (Fin (B ! i ! j)))"
    by (rule mk_mat_cong) (simp add: fin_mat_nth A r c)
  then show ?thesis
    using broadcast2_same_shape [of "fin_mat A" "fin_mat B" f] s by simp
qed

lemma np_squares_fin:
  assumes "is_array A"
  shows "np_sum (map np_square (concat (fin_mat A))) = Fin (\<Sum>i<nrows A. \<Sum>j<ncols A. (A ! i ! j)\<^sup>2)"
proof -
  have "fin_mat A = mk_mat (nrows A) (ncols A) (\<lambda>i j. Fin (A ! i ! j))"
    using mk_mat_self [OF assms] fin_mat_mk_mat [of "nrows A" "ncols A" "\<lambda>i j. A ! i ! j"]
    by simp
  then have "map np_square (concat (fin_mat A))
      = concat (mk_mat (nrows A) (ncols A) (\<lambda>i j. Fin ((A ! i ! j)\<^sup>2)))"
    by (simp add: concat_mk_mat_map np_square_def power2_eq_square)
  then show ?thesis
    by (simp add: np_sum_concat_mk_mat_Fin)
qed

lemma calc_alpha_fin:
  assumes A: "is_array Fm" "is_array Fr" and s: "shape Fm = shape Fr"
  shows "calc_alpha (fin_mat Fm) (fin_mat Fr) =
     Inr (np_div (Fin (\<Sum>i<nrows Fm. \<Sum>j<ncols Fm. Fm ! i ! j * Fr ! i ! j))
                 (Fin (\<Sum>i<nrows Fm. \<Sum>j<ncols Fm. (Fr ! i ! j)\<^sup>2)))"
proof -
  from s have r: "nrows Fr = nrows Fm" and c: "ncols Fr = ncols Fm"
    by (simp_all add: shape_def)
  show ?thesis
    unfolding calc_alpha_def
    by (simp add: broadcast2_fin [OF A s] np_sum_concat_mk_mat_Fin np_squares_fin [OF A(2)] r c)
qed

lemma rms_diff_fin:
  assumes A: "is_array F1" "is_array F2" and s: "shape F1 = shape F2"
  shows "rms_diff (fin_mat F1) (fin_mat F2) =
     Inr (np_sqrt (np_div (Fin (\<Sum>i<nrows F1. \<Sum>j<ncols F1. (F1 ! i ! j - F2 ! i ! j)\<^sup>2))
                          (Fin (real (nrows F1 * ncols F1)))))"
proof -
  have len: "length (concat (mk_mat r c g)) = r * c" for r c and g :: "nat \<Rightarrow> nat \<Rightarrow> npfloat"
    by (simp add: mk_mat_def length_concat comp_def sum_list_triv)
  have "map np_square (concat (mk_mat (nrows F1) (ncols F1)
            (\<lambda>i j. np_sub (Fin (F1 ! i ! j)) (Fin (F2 ! i ! j)))))
      = concat (mk_mat (nrows F1) (ncols F1) (\<lambda>i j. Fin ((F1 ! i ! j - F2 ! i ! j)\<^sup>2)))"
    by (simp add: concat_mk_mat_map np_square_def np_sub_def power2_eq_square)
  then show ?thesis
    unfolding rms_diff_def np_mean_def
    by (simp add: broadcast2_fin [OF A s] np_sum_concat_mk_mat_Fin len)
qed

lemma least_squares_scalar:
  fixes m r :: "nat \<Rightarrow> nat \<Rightarrow> real"
  assumes nz: "(\<Sum>i<R. \<Sum>j<C. (r i j)\<^sup>2) \<noteq> 0"
  defines "a \<equiv> (\<Sum>i<R. \<Sum>j<C. m i j * r i j) / (\<Sum>i<R. \<Sum>j<C. (r i j)\<^sup>2)"
  shows "(\<Sum>i<R. \<Sum>j<C. (m i j - a * r i j)\<^sup>2) \<le> (\<Sum>i<R. \<Sum>j<C. (m i j - b * r i j)\<^sup>2)"
proof -
  define Smm where "Smm = (\<Sum>i<R. \<Sum>j<C. (m i j)\<^sup>2)"
  define Smr where "Smr = (\<Sum>i<R. \<Sum>j<C. m i j * r i j)"
  define Srr where "Srr = (\<Sum>i<R. \<Sum>j<C. (r i j)\<^sup>2)"
  have expand: "(\<Sum>i<R. \<Sum>j<C. (m i j - x * r i j)\<^sup>2) = Smm - 2 * x * Smr + x\<^sup>2 * Srr" for x
    unfolding Smm_def Smr_def Srr_def
    by (simp add: power2_diff power_mult_distrib sum.distrib sum_subtractf sum_distrib_left algebra_simps)
  have pos: "0 < Srr"
  proof -
    have "0 \<le> Srr" unfolding Srr_def by (intro sum_nonneg) simp
    with nz show ?thesis unfolding Srr_def by simp
  qed
  have a: "a * Srr = Smr"
    using pos by (simp add: a_def Smr_def Srr_def)
  have "(Smm - 2 * b * Smr + b\<^sup>2 * Srr) - (Smm - 2 * a * Smr + a\<^sup>2 * Srr) = Srr * (b - a)\<^sup>2"
    unfolding a [symmetric] by (simp add: power2_eq_square algebra_simps)
  moreover have "0 \<le> Srr * (b - a)\<^sup>2"
    using pos by simp
  ultimately show ?thesis
    unfolding expand by linarith
qed


lemma index_sum_squares:
  assumes "is_array A"
  shows "sum_list (map power2 (concat A)) = (\<Sum>i<nrows A. \<Sum>j<ncols A. (A ! i ! j :: real)\<^sup>2)"
proof -
  have "map power2 (concat (mk_mat (nrows A) (ncols A) (\<lambda>i j. A ! i ! j)))
      = concat (mk_mat (nrows A) (ncols A) (\<lambda>i j. (A ! i ! j)\<^sup>2))"
    by (simp add: concat_mk_mat_map)
  then show ?thesis
    by (simp add: mk_mat_self [OF assms] sum_list_concat_mk_mat)
qed

lemma length_concat_array:
  assumes "is_array A"
  shows "length (concat A) = nrows A * ncols A"
proof -
  have "length (concat (mk_mat (nrows A) (ncols A) (\<lambda>i j. A ! i ! j))) = nrows A * ncols A"
    by (simp add: mk_mat_def length_concat comp_def sum_list_triv)
  then show ?thesis by (simp add: mk_mat_self [OF assms])
qed

lemma array_eq_iff:
  assumes "is_array A" "is_array B" "shape A = shape B"
  shows "A = B \<longleftrightarrow> (\<forall>i<nrows A. \<forall>j<ncols A. A ! i ! j = B ! i ! j)"
proof -
  from assms(3) have r: "nrows B = nrows A" and c: "ncols B = ncols A"
    by (simp_all add: shape_def)
  have "A = B \<longleftrightarrow> mk_mat (nrows A) (ncols A) (\<lambda>i j. A ! i ! j)
                   = mk_mat (nrows A) (ncols A) (\<lambda>i j. B ! i ! j)"
    using mk_mat_self [OF assms(1)] mk_mat_self [OF assms(2)] by (simp add: r c)
  then show ?thesis by (simp add: mk_mat_eq_iff)
qed

lemma rms_diff_zero_iff:
  assumes A: "is_array F1" "is_array F2" and s: "shape F1 = shape F2" and ne: "concat F1 \<noteq> []"
  shows "rms_diff (fin_mat F1) (fin_mat F2) = Inr (Fin 0) \<longleftrightarrow> F1 = F2"
proof -
  let ?S = "\<Sum>i<nrows F1. \<Sum>j<ncols F1. (F1 ! i ! j - F2 ! i ! j)\<^sup>2"
  let ?n = "real (nrows F1 * ncols F1)"
  have "length (concat F1) \<noteq> 0"
    using ne by (simp only: length_0_conv not_False_eq_True)
  then have nn: "nrows F1 * ncols F1 \<noteq> 0"
    by (simp only: length_concat_array [OF A(1)] not_False_eq_True)
  then have n: "0 < ?n" by simp
  have S: "0 \<le> ?S" by (intro sum_nonneg) simp
  have q: "0 \<le> ?S / ?n"
    using S n by (intro divide_nonneg_nonneg) simp_all
  have "np_div (Fin ?S) (Fin ?n) = Fin (?S / ?n)"
    using nn by simp
  then have "rms_diff (fin_mat F1) (fin_mat F2) = Inr (Fin (sqrt (?S / ?n)))"
    using q by (simp only: rms_diff_fin [OF A s] np_sqrt.simps if_True)
  also have "\<dots> = Inr (Fin 0) \<longleftrightarrow> ?S = 0"
    using nn by simp
  also have "?S = 0 \<longleftrightarrow> (\<forall>i<nrows F1. \<forall>j<ncols F1. F1 ! i ! j = F2 ! i ! j)"
    by (auto simp: sum_nonneg_eq_0_iff sum_nonneg)
  also have "\<dots> \<longleftrightarrow> F1 = F2"
    by (simp add: array_eq_iff [OF A s])
  finally show ?thesis .
qed

subsection \<open>The scale factor and the error metric\<close>

text \<open>
  Claim C5, as amended. For real arrays \<open>Fm\<close>, \<open>Fr\<close> of one shape with \<open>\<Sum>Fr\<^sup>2 \<noteq> 0\<close>,
  \<open>calc_alpha\<close> returns a finite scalar at which \<open>a \<mapsto> \<Sum>(Fm - a\<cdot>Fr)\<^sup>2\<close> is minimal over
  all reals. For real arrays \<open>F1\<close>, \<open>F2\<close> of one shape that have at least one entry,
  \<open>rms_diff\<close> is zero exactly when \<open>F1 = F2\<close>. (Without an entry the mean is \<open>0/0\<close>
  and \<open>rms_diff\<close> is \<open>nan\<close>, see the counterexample below.)
\<close>

theorem calc_alpha_least_squares_rms_diff_zero:
  "(is_array Fm \<and> is_array Fr \<and> shape Fm = shape Fr \<and> sum_list (map power2 (concat Fr)) \<noteq> 0
      \<longrightarrow> (\<exists>a. calc_alpha (fin_mat Fm) (fin_mat Fr) = Inr (Fin a) \<and>
               (\<forall>b. sq_residual Fm Fr a \<le> sq_residual Fm Fr b)))
   \<and> (is_array F1 \<and> is_array F2 \<and> shape F1 = shape F2 \<and> concat F1 \<noteq> []
      \<longrightarrow> (rms_diff (fin_mat F1) (fin_mat F2) = Inr (Fin 0) \<longleftrightarrow> F1 = F2))"
proof (intro conjI impI)
  assume h: "is_array Fm \<and> is_array Fr \<and> shape Fm = shape Fr \<and> sum_list (map power2 (concat Fr)) \<noteq> 0"
  then have A: "is_array Fm" "is_array Fr" and s: "shape Fm = shape Fr" by simp_all
  from s have r: "nrows Fr = nrows Fm" and c: "ncols Fr = ncols Fm"
    by (simp_all add: shape_def)
  let ?a = "(\<Sum>i<nrows Fm. \<Sum>j<ncols Fm. Fm ! i ! j * Fr ! i ! j)
            / (\<Sum>i<nrows Fm. \<Sum>j<ncols Fm. (Fr ! i ! j)\<^sup>2)"
  have nz: "(\<Sum>i<nrows Fm. \<Sum>j<ncols Fm. (Fr ! i ! j)\<^sup>2) \<noteq> 0"
    using h index_sum_squares [OF A(2)] by (simp add: r c)
  have "calc_alpha (fin_mat Fm) (fin_mat Fr) = Inr (Fin ?a)"
    using nz by (simp add: calc_alpha_fin [OF A s])
  moreover have "sq_residual Fm Fr ?a \<le> sq_residual Fm Fr b" for b
    unfolding sq_residual_array [OF A(1)] by (rule least_squares_scalar [OF nz])
  ultimately show "\<exists>a. calc_alpha (fin_mat Fm) (fin_mat Fr) = Inr (Fin a) \<and>
               (\<forall>b. sq_residual Fm Fr a \<le> sq_residual Fm Fr b)"
    by blast
next
  assume "is_array F1 \<and> is_array F2 \<and> shape F1 = shape F2 \<and> concat F1 \<noteq> []"
  then show "rms_diff (fin_mat F1) (fin_mat F2) = Inr (Fin 0) \<longleftrightarrow> F1 = F2"
    by (simp add: rms_diff_zero_iff)
qed

text \<open>The theorem at \<open>Fm = [[1, 2]]\<close>, \<open>Fr = [[1, 1]]\<close> and at two pairs for \<open>rms_diff\<close>.\<close>

theorem calc_alpha_least_squares_rms_diff_zero_witness:
  "(\<exists>a. calc_alpha (fin_mat [[1, 2]]) (fin_mat [[1, 1]]) = Inr (Fin a) \<and>
        (\<forall>b. sq_residual [[1, 2]] [[1, 1]] a \<le> sq_residual [[1, 2]] [[1, 1]] b))
   \<and> (rms_diff (fin_mat [[1, 2]]) (fin_mat [[1, 2]]) = Inr (Fin 0))
   \<and> (rms_diff (fin_mat [[1, 2]]) (fin_mat [[1, 3]]) \<noteq> Inr (Fin 0))"
  using calc_alpha_least_squares_rms_diff_zero [of "[[1, 2]]" "[[1, 1]]" "[[1, 2]]" "[[1, 2]]"]
    calc_alpha_least_squares_rms_diff_zero [of "[[1, 2]]" "[[1, 1]]" "[[1, 2]]" "[[1, 3]]"]
  by (simp add: is_array_def shape_def nrows_def ncols_def)

text \<open>
  Claim C5 as stated, for every pair of arrays of equal shape: two arrays without
  entries are equal, and their \<open>rms_diff\<close> is \<open>nan\<close>, not zero.
\<close>

theorem rms_diff_empty_counterexample:
  "\<not> (rms_diff (fin_mat []) (fin_mat []) = Inr (Fin 0) \<longleftrightarrow> ([] :: real matrix) = [])"
  by (simp add: rms_diff_def fin_mat_def broadcast2_def broadcastable_def nrows_def ncols_def
      mk_mat_def bdim_def np_mean_def np_sum_def inf_of_sign_def)

subsection \<open>The discrete Fourier transform\<close>

lemma twiddle_add: "twiddle N (a + b) = twiddle N a * twiddle N b"
  by (simp add: twiddle_def cis_mult [symmetric] add_divide_distrib distrib_left)

lemma twiddle_0 [simp]: "twiddle N 0 = 1"
  by (simp add: twiddle_def)

lemma twiddle_power: "twiddle N (int k * d) = twiddle N d ^ k"
  by (induction k) (simp_all add: twiddle_add algebra_simps)

lemma twiddle_period: "N > 0 \<Longrightarrow> twiddle N (int N * d) = 1"
proof -
  assume "N > 0"
  then have "2 * pi * real_of_int (int N * d) / real N = 2 * pi * real_of_int d"
    by simp
  then show ?thesis
    unfolding twiddle_def by (simp only: cis_multiple_2pi [OF Ints_of_int])
qed

lemma twiddle_mod: 
  assumes "N > 0" shows "twiddle N (m mod int N) = twiddle N m"
proof -
  have "twiddle N m = twiddle N (m mod int N + int N * (m div int N))"
    by (simp add: algebra_simps)
  also have "\<dots> = twiddle N (m mod int N)"
    by (simp only: twiddle_add twiddle_period [OF assms] mult_1_right)
  finally show ?thesis by simp
qed

lemma twiddle_eq_1_iff:
  assumes "N > 0" shows "twiddle N d = 1 \<longleftrightarrow> int N dvd d"
proof
  assume "twiddle N d = 1"
  then have "cos (2 * pi * real_of_int d / real N) = 1"
    by (simp add: twiddle_def complex_eq_iff)
  then obtain m :: int where "2 * pi * real_of_int d / real N = real_of_int m * (2 * pi)"
    by (auto simp: cos_one_2pi_int)
  then have "real_of_int d = real_of_int m * real N"
    using assms by (simp add: field_simps)
  then have "d = m * int N"
    by (metis of_int_eq_iff of_int_mult of_int_of_nat_eq)
  then show "int N dvd d" by simp
next
  assume "int N dvd d"
  then obtain m where "d = int N * m" by (auto elim: dvdE)
  then show "twiddle N d = 1" by (simp add: twiddle_period [OF assms])
qed

lemma twiddle_sum:
  assumes "N > 0"
  shows "(\<Sum>k<N. twiddle N (int k * d)) = (if int N dvd d then of_nat N else 0)"
proof (cases "int N dvd d")
  case True
  then have "twiddle N d = 1" by (simp add: twiddle_eq_1_iff [OF assms])
  then show ?thesis using True by (simp add: twiddle_power)
next
  case False
  then have ne: "twiddle N d \<noteq> 1" by (simp add: twiddle_eq_1_iff [OF assms])
  have "twiddle N d ^ N = 1"
    using twiddle_period [OF assms, of d] by (simp add: twiddle_power)
  then show ?thesis
    using False ne by (simp add: twiddle_power geometric_sum)
qed

lemma cnj_twiddle: "cnj (twiddle N m) = twiddle N (- m)"
  by (simp add: twiddle_def cis_cnj)

lemma cmod_twiddle [simp]: "cmod (twiddle N m) = 1"
  by (simp add: twiddle_def)


lemma length_dft [simp]: "length (dft x) = length x"
  by (simp add: dft_def)

lemma length_idft [simp]: "length (idft x) = length x"
  by (simp add: idft_def)

lemma dft_nth: "k < length x \<Longrightarrow> dft x ! k = (\<Sum>n<length x. x ! n * twiddle (length x) (- int (k * n)))"
  by (simp add: dft_def)

lemma idft_nth: "k < length x \<Longrightarrow>
    idft x ! k = (\<Sum>n<length x. x ! n * twiddle (length x) (int (k * n))) / of_nat (length x)"
  by (simp add: idft_def)

lemma dvd_diff_small:
  assumes "m < N" "n < N"
  shows "int N dvd (int m - int n) \<longleftrightarrow> m = n"
proof
  assume d: "int N dvd (int m - int n)"
  have "\<bar>int m - int n\<bar> < int N" using assms by auto
  with d have "int m - int n = 0"
    using zdvd_not_zless [of "\<bar>int m - int n\<bar>" "int N"] by (cases "int m - int n = 0") auto
  then show "m = n" by simp
qed simp

lemma fourier_orthogonality:
  assumes "m < N" 
  shows "(\<Sum>n<N. x n * (\<Sum>k<N. twiddle N (int k * (int m - int n)))) = of_nat N * x m"
proof -
  have N: "N > 0" using assms by simp
  have "(\<Sum>n<N. x n * (\<Sum>k<N. twiddle N (int k * (int m - int n))))
      = (\<Sum>n<N. if n = m then of_nat N * x m else 0)"
    by (rule sum.cong) (auto simp: twiddle_sum [OF N] dvd_diff_small assms)
  also have "\<dots> = of_nat N * x m"
    using assms by simp
  finally show ?thesis .
qed

lemma twiddle_mult_eq: "a + b = c \<Longrightarrow> twiddle N a * twiddle N b = twiddle N c"
  using twiddle_add [of N a b] by simp

lemma dft_kernel:
  "(\<Sum>n<N. x n * twiddle N (- int (k * n))) * twiddle N (int (m * k))
     = (\<Sum>n<N. x n * twiddle N (int k * (int m - int n)))"
proof -
  have "x n * twiddle N (- int (k * n)) * twiddle N (int (m * k))
      = x n * twiddle N (int k * (int m - int n))" for n
  proof -
    have e: "- int (k * n) + int (m * k) = int k * (int m - int n)"
      by (simp add: algebra_simps)
    show ?thesis
      by (simp only: mult.assoc twiddle_mult_eq [OF e])
  qed
  then show ?thesis by (simp only: sum_distrib_right)
qed

lemma idft_kernel:
  "(\<Sum>n<N. x n * twiddle N (int (k * n))) * twiddle N (- int (m * k))
     = (\<Sum>n<N. x n * twiddle N (int k * (int n - int m)))"
proof -
  have "x n * twiddle N (int (k * n)) * twiddle N (- int (m * k))
      = x n * twiddle N (int k * (int n - int m))" for n
  proof -
    have e: "int (k * n) + - int (m * k) = int k * (int n - int m)"
      by (simp add: algebra_simps)
    show ?thesis
      by (simp only: mult.assoc twiddle_mult_eq [OF e])
  qed
  then show ?thesis by (simp only: sum_distrib_right)
qed

lemma twiddle_sum_neg:
  "N > 0 \<Longrightarrow> (\<Sum>k<N. twiddle N (int k * (int n - int m))) = (\<Sum>k<N. twiddle N (int k * (int m - int n)))"
  using twiddle_sum [of N "int n - int m"] twiddle_sum [of N "int m - int n"]
  by (simp add: dvd_diff_commute)

lemma idft_dft: "idft (dft x) = x"
proof (rule nth_equalityI)
  fix m assume "m < length (idft (dft x))"
  then have m: "m < length x" by simp
  let ?N = "length x"
  have "(\<Sum>k<?N. dft x ! k * twiddle ?N (int (m * k)))
      = (\<Sum>k<?N. \<Sum>n<?N. x ! n * twiddle ?N (int k * (int m - int n)))"
    by (rule sum.cong) (simp_all only: dft_nth dft_kernel lessThan_iff)
  also have "\<dots> = (\<Sum>n<?N. x ! n * (\<Sum>k<?N. twiddle ?N (int k * (int m - int n))))"
    by (subst sum.swap) (simp add: sum_distrib_left)
  also have "\<dots> = of_nat ?N * x ! m"
    by (rule fourier_orthogonality [OF m])
  finally have "(\<Sum>k<?N. dft x ! k * twiddle ?N (int (m * k))) / of_nat ?N = x ! m"
    using m by (simp only: nonzero_mult_div_cancel_left of_nat_eq_0_iff)
  then show "idft (dft x) ! m = x ! m"
    using m by (simp only: idft_nth length_dft)
qed simp

lemma dft_idft: "dft (idft x) = x"
proof (rule nth_equalityI)
  fix m assume "m < length (dft (idft x))"
  then have m: "m < length x" by simp
  let ?N = "length x"
  have N: "?N > 0" using m by (cases x) simp_all
  have "(\<Sum>k<?N. idft x ! k * twiddle ?N (- int (m * k)))
      = (\<Sum>k<?N. (\<Sum>n<?N. x ! n * twiddle ?N (int k * (int n - int m))) / of_nat ?N)"
    by (rule sum.cong)
       (simp_all only: idft_nth idft_kernel [symmetric] lessThan_iff divide_inverse mult.assoc mult.commute [of "inverse _"])
  also have "\<dots> = (\<Sum>k<?N. \<Sum>n<?N. x ! n * twiddle ?N (int k * (int n - int m))) / of_nat ?N"
    by (simp add: sum_divide_distrib)
  also have "(\<Sum>k<?N. \<Sum>n<?N. x ! n * twiddle ?N (int k * (int n - int m)))
      = (\<Sum>n<?N. x ! n * (\<Sum>k<?N. twiddle ?N (int k * (int m - int n))))"
    by (subst sum.swap) (simp add: sum_distrib_left twiddle_sum_neg [OF N])
  also have "\<dots> = of_nat ?N * x ! m"
    by (rule fourier_orthogonality [OF m])
  finally have "(\<Sum>k<?N. idft x ! k * twiddle ?N (- int (m * k))) = x ! m"
    using m by (simp only: nonzero_mult_div_cancel_left of_nat_eq_0_iff)
  then show "dft (idft x) ! m = x ! m"
    using m by (simp only: dft_nth length_idft)
qed simp

subsection \<open>The array operations on arrays given by their entries\<close>

lemma ncols_mk_mat [simp]: "0 < r \<Longrightarrow> ncols (mk_mat r c f) = c"
  by (cases r) (simp_all add: ncols_def mk_mat_def upt_conv_Cons del: upt_Suc)

lemma nrows_mk_mat [simp]: "nrows (mk_mat r c f) = r"
  by (simp add: nrows_def)

lemma mod_index_less: "0 < n \<Longrightarrow> nat (a mod int n) < n"
  by (simp add: nat_less_iff)

lemma roll1_map_upt:
  "roll1 k (map f [0..<n]) = map (\<lambda>i. f (nat ((int i - k) mod int n))) [0..<n]"
  by (cases "n = 0") (simp_all add: roll1_def mod_index_less)

lemma length_roll1 [simp]: "length (roll1 k xs) = length xs"
  by (simp add: roll1_def)

lemma roll1_nth: "i < length xs \<Longrightarrow> roll1 k xs ! i = xs ! nat ((int i - k) mod int (length xs))"
  by (simp add: roll1_def)

lemma roll_axis0_mk_mat:
  "roll_axis0 k (mk_mat r c f) = mk_mat r c (\<lambda>i j. f (nat ((int i - k) mod int r)) j)"
  unfolding roll_axis0_def mk_mat_def by (simp add: roll1_map_upt)

lemma roll_axis1_mk_mat:
  "roll_axis1 k (mk_mat r c f) = mk_mat r c (\<lambda>i j. f i (nat ((int j - k) mod int c)))"
  unfolding roll_axis1_def mk_mat_def by (simp add: roll1_map_upt)

lemma rev_map_upt: "rev (map f [0..<n]) = map (\<lambda>i. f (n - 1 - i)) [0..<n]"
  by (rule nth_equalityI) (simp_all add: rev_nth)

lemma fliplr_mk_mat: "fliplr (mk_mat r c f) = mk_mat r c (\<lambda>i j. f i (c - 1 - j))"
  unfolding fliplr_def mk_mat_def by (simp add: rev_map_upt)

lemma flipud_mk_mat: "flipud (mk_mat r c f) = mk_mat r c (\<lambda>i j. f (r - 1 - i) j)"
  unfolding flipud_def mk_mat_def by (simp add: rev_map_upt)

lemma column_mk_mat: "j < c \<Longrightarrow> column (mk_mat r c f) j = map (\<lambda>i. f i j) [0..<r]"
  by (simp add: column_def mk_mat_def)

lemma transpose_mk_mat: "0 < r \<Longrightarrow> transpose_mat (mk_mat r c f) = mk_mat c r (\<lambda>i j. f j i)"
proof -
  assume r: "0 < r"
  have eq: "map (column (mk_mat r c f)) [0..<c] = map (\<lambda>j. map (\<lambda>i. f i j) [0..<r]) [0..<c]"
    by (rule map_cong) (simp_all add: column_mk_mat)
  have nc: "ncols (mk_mat r c f) = c" using r by simp
  show ?thesis
    by (simp only: transpose_mat_def nc eq) (simp only: mk_mat_def)
qed

lemma fftshift_axis1_mk_mat:
  "0 < r \<Longrightarrow> fftshift_axis1 (mk_mat r c f)
     = mk_mat r c (\<lambda>i j. f i (nat ((int j - int (c div 2)) mod int c)))"
  by (simp add: fftshift_axis1_def roll_axis1_mk_mat)

lemma ifftshift_axis1_mk_mat:
  "0 < r \<Longrightarrow> ifftshift_axis1 (mk_mat r c f)
     = mk_mat r c (\<lambda>i j. f i (nat ((int j + int (c div 2)) mod int c)))"
  by (simp add: ifftshift_axis1_def roll_axis1_mk_mat)

lemma of_columns_map:
  "of_columns r (map (\<lambda>j. map (\<lambda>i. g i j) [0..<r]) [0..<c]) = mk_mat r c g"
  by (simp add: of_columns_def mk_mat_def)

lemma fft_axis0_mk_mat:
  "0 < r \<Longrightarrow> fft_axis0 (mk_mat r c f)
     = Inr (mk_mat r c (\<lambda>k j. \<Sum>n<r. f n j * twiddle r (- int (k * n))))"
proof -
  assume r: "0 < r"
  have eq: "map (\<lambda>j. dft (column (mk_mat r c f) j)) [0..<c]
      = map (\<lambda>j. map (\<lambda>k. \<Sum>n<r. f n j * twiddle r (- int (k * n))) [0..<r]) [0..<c]"
    by (rule map_cong) (simp_all add: column_mk_mat dft_def)
  have nc: "ncols (mk_mat r c f) = c" using r by simp
  show ?thesis
    using r by (simp only: fft_axis0_def of_columns_map nrows_mk_mat nc eq) simp
qed

lemma ifft_axis0_mk_mat:
  "0 < r \<Longrightarrow> ifft_axis0 (mk_mat r c f)
     = Inr (mk_mat r c (\<lambda>k j. (\<Sum>n<r. f n j * twiddle r (int (k * n))) / of_nat r))"
proof -
  assume r: "0 < r"
  have eq: "map (\<lambda>j. idft (column (mk_mat r c f) j)) [0..<c]
      = map (\<lambda>j. map (\<lambda>k. (\<Sum>n<r. f n j * twiddle r (int (k * n))) / of_nat r) [0..<r]) [0..<c]"
    by (rule map_cong) (simp_all add: column_mk_mat idft_def)
  have nc: "ncols (mk_mat r c f) = c" using r by simp
  show ?thesis
    using r by (simp only: ifft_axis0_def of_columns_map nrows_mk_mat nc eq) simp
qed

lemma map_conv_nth: "map f xs = map (\<lambda>i. f (xs ! i)) [0..<length xs]"
  by (rule nth_equalityI) simp_all

lemma outer_mk_mat: "outer a b = mk_mat (length a) (length b) (\<lambda>i j. a ! i * b ! j)"
proof -
  have "map (\<lambda>y. x * y) b = map (\<lambda>j. x * b ! j) [0..<length b]" for x
    by (rule map_conv_nth)
  then have "outer a b = map (\<lambda>x. map (\<lambda>j. x * b ! j) [0..<length b]) a"
    by (simp add: outer_def)
  also have "\<dots> = mk_mat (length a) (length b) (\<lambda>i j. a ! i * b ! j)"
    unfolding mk_mat_def by (rule map_conv_nth)
  finally show ?thesis .
qed

lemma abs_square_mk_mat: "abs_square (mk_mat r c f) = mk_mat r c (\<lambda>i j. (cmod (f i j))\<^sup>2)"
  by (simp add: abs_square_def mk_mat_def)

lemma for_loop_append:
  "for_loop (xs @ ys) body s =
     (case for_loop xs body s of Inl e \<Rightarrow> Inl e | Inr s' \<Rightarrow> for_loop ys body s')"
  by (induction xs arbitrary: s) (simp_all split: sum.splits)

lemma mk_mat_update_row:
  "n < r \<Longrightarrow> (mk_mat r c f)[n := map h [0..<c]]
     = mk_mat r c (\<lambda>i j. if i = n then h j else f i j)"
  unfolding mk_mat_def
  by (rule nth_equalityI) (simp_all add: nth_list_update)

lemma roll_rows_mk_mat:
  "N \<le> r \<Longrightarrow> for_loop [0..<N] (\<lambda>n. roll_row (g n) n) (mk_mat r c f)
     = Inr (mk_mat r c (\<lambda>i j. if i < N then f i (nat ((int j - g i) mod int c)) else f i j))"
proof (induction N)
  case 0
  show ?case by simp
next
  case (Suc N)
  then have N: "N < r" by simp
  have row: "mk_mat r c h ! N = map (h N) [0..<c]" for h :: "nat \<Rightarrow> nat \<Rightarrow> 'a"
    using N by (simp add: mk_mat_def)
  have "mk_mat r c (\<lambda>i j. if i = N then f N (nat ((int j - g N) mod int c))
                           else if i < N then f i (nat ((int j - g i) mod int c)) else f i j)
      = mk_mat r c (\<lambda>i j. if i < Suc N then f i (nat ((int j - g i) mod int c)) else f i j)"
    by (rule mk_mat_cong) (auto simp: less_Suc_eq)
  then show ?case
    using Suc N
    by (simp add: for_loop_append roll_row_def row roll1_map_upt mk_mat_update_row)
qed

subsection \<open>The anti-alias masks and the closed form of \<open>makeFROG\<close>\<close>

lemma mat_sub_mk_mat:
  "mat_sub (mk_mat r c f) (mk_mat r c g) = mk_mat r c (\<lambda>i j. f i j - g i j)"
  unfolding mat_sub_def mk_mat_def
  by (rule nth_equalityI) (simp_all add: list_eq_iff_nth_eq)

lemma tril_mk_mat:
  "0 < r \<Longrightarrow> tril (mk_mat r c f) k = mk_mat r c (\<lambda>i j. if int j - int i \<le> k then f i j else 0)"
  unfolding tril_def by (simp, rule mk_mat_cong) simp

lemma triu_mk_mat:
  "0 < r \<Longrightarrow> triu (mk_mat r c f) k = mk_mat r c (\<lambda>i j. if k \<le> int j - int i then f i j else 0)"
  unfolding triu_def by (simp, rule mk_mat_cong) simp

lemma antialias_time_mk_mat:
  assumes "0 < r" "0 < N"
  shows "antialias_time N (mk_mat r c f)
     = mk_mat r c (\<lambda>i j. if \<lceil>real N / 2\<rceil> \<le> \<bar>int j - int i\<bar> then 0 else f i j)"
proof -
  define k where "k = \<lceil>real N / 2\<rceil>"
  have k: "0 < k" using assms(2) by (simp add: k_def ceiling_less_iff)
  have "f i j - (if int j - int i \<le> - k then f i j else 0) - (if k \<le> int j - int i then f i j else 0)
      = (if k \<le> \<bar>int j - int i\<bar> then 0 else f i j)" for i j
    using k by auto
  then show ?thesis
    unfolding antialias_time_def k_def [symmetric]
    by (simp only: tril_mk_mat [OF assms(1)] triu_mk_mat [OF assms(1)] mat_sub_mk_mat)
qed

lemma zero_slice_mk_mat:
  assumes "0 \<le> n" "n < int r"
  shows "zero_slice n (PyInt a) (PyInt b) (mk_mat r c f)
     = Inr (mk_mat r c (\<lambda>i j. if i = nat n \<and> slice_bound c a \<le> j \<and> j < slice_bound c b
                               then 0 else f i j))"
proof -
  have n: "nat n < r" using assms by simp
  have row: "mk_mat r c f ! nat n = map (f (nat n)) [0..<c]"
    using n by (simp add: mk_mat_def)
  have eq: "map (\<lambda>j. if slice_bound c a \<le> j \<and> j < slice_bound c b then 0
                       else map (f (nat n)) [0..<c] ! j) [0..<c]
      = map (\<lambda>j. if slice_bound c a \<le> j \<and> j < slice_bound c b then 0 else f (nat n) j) [0..<c]"
    by (rule map_cong) simp_all
  have upd: "(mk_mat r c f)[nat n := map (\<lambda>j. if slice_bound c a \<le> j \<and> j < slice_bound c b then 0 else f (nat n) j) [0..<c]]
      = mk_mat r c (\<lambda>i j. if i = nat n \<and> slice_bound c a \<le> j \<and> j < slice_bound c b
                               then 0 else f i j)"
    by (subst mk_mat_update_row [OF n]) (auto intro!: mk_mat_cong)
  have "zero_slice n (PyInt a) (PyInt b) (mk_mat r c f)
      = Inr ((mk_mat r c f)[nat n := map (\<lambda>j. if slice_bound c a \<le> j \<and> j < slice_bound c b then 0
                       else map (f (nat n)) [0..<c] ! j) [0..<c]])"
    using assms by (simp add: zero_slice_def Let_def row)
  then show ?thesis
    by (simp only: eq upd)
qed

lemma zero_slices_mk_mat:
  assumes "\<forall>n\<in>set ns. 0 \<le> n \<and> n < int r"
  shows "for_loop ns (\<lambda>n. zero_slice n (PyInt (a n)) (PyInt (b n))) (mk_mat r c f)
     = Inr (mk_mat r c (\<lambda>i j. if (\<exists>n\<in>set ns. i = nat n \<and> slice_bound c (a n) \<le> j \<and> j < slice_bound c (b n))
                               then 0 else f i j))"
  using assms
proof (induction ns arbitrary: f)
  case Nil
  show ?case by simp
next
  case (Cons n ns)
  have "mk_mat r c (\<lambda>i j. if (\<exists>m\<in>set ns. i = nat m \<and> slice_bound c (a m) \<le> j \<and> j < slice_bound c (b m))
                               then 0 else (if i = nat n \<and> slice_bound c (a n) \<le> j \<and> j < slice_bound c (b n)
                               then 0 else f i j))
     = mk_mat r c (\<lambda>i j. if (\<exists>m\<in>set (n # ns). i = nat m \<and> slice_bound c (a m) \<le> j \<and> j < slice_bound c (b m))
                               then 0 else f i j)"
    by (rule mk_mat_cong) auto
  then show ?case
    using Cons by (simp add: zero_slice_mk_mat)
qed


lemma antialias_freq_mk_mat:
  assumes "0 \<le> first" "0 \<le> v" "v < int N"
  shows "antialias_freq first (PyInt v) N (mk_mat N N f)
     = Inr (mk_mat N N (\<lambda>i j.
         if (\<exists>n\<in>set [v + 1..int N - 1]. i = nat n \<and> slice_bound N (v + 1) \<le> j
                \<and> j < slice_bound N (v + 1 + (int N - n)))
            \<or> (\<exists>n\<in>set [first..v]. i = nat n \<and> slice_bound N (v - (n - 1)) \<le> j
                \<and> j < slice_bound N (v + 1))
         then 0 else f i j))"
proof -
  have 1: "\<forall>n\<in>set [first..v]. 0 \<le> n \<and> n < int N" using assms by auto
  have 2: "\<forall>n\<in>set [v + 1..int N - 1]. 0 \<le> n \<and> n < int N" using assms by auto
  show ?thesis
    unfolding antialias_freq_def
    apply (simp add: py_range_def Let_def zero_slices_mk_mat [OF 1] zero_slices_mk_mat [OF 2])
    apply (rule mk_mat_cong)
    apply auto
    done
qed

lemma makeFROG_time_closed:
  fixes Pt :: "complex list" and antialias :: int
  assumes "Pt \<noteq> []"
  defines "N \<equiv> length Pt"
  defines "m \<equiv> (\<lambda>i j. if antialias \<noteq> 0 \<and> \<lceil>real N / 2\<rceil> \<le> \<bar>int j - int i\<bar> then 0 else Pt ! i * Pt ! j)"
  defines "E \<equiv> mk_mat N N (\<lambda>k j. \<Sum>n<N.
       m n (nat ((int (nat ((int (N - 1 - j) - int (N div 2)) mod int N)) + int n) mod int N))
       * twiddle N (- int (nat ((int k - (\<lceil>real N / 2\<rceil> - 1)) mod int N) * n)))"
  shows "makeFROG Pt 0 antialias = Inr (Some (abs_square E, E))"
proof -
  have N: "0 < N" using assms by simp
  have M: "(if antialias \<noteq> 0 then antialias_time N (outer Pt Pt) else outer Pt Pt) = mk_mat N N m"
    unfolding outer_mk_mat N_def [symmetric] m_def
    by (auto simp: antialias_time_mk_mat [OF N N] intro!: mk_mat_cong)
  show ?thesis
    unfolding makeFROG_def Let_def N_def [symmetric]
    by (simp only: M if_True)
       (simp add: roll_rows_mk_mat N fftshift_axis1_mk_mat fliplr_mk_mat fft_axis0_mk_mat
          roll_axis0_mk_mat E_def)
qed


lemma dft_map_upt:
  "dft (map f [0..<N]) = map (\<lambda>k. \<Sum>n<N. f n * twiddle N (- int (k * n))) [0..<N]"
  by (simp add: dft_def)

lemma makeFROG_freq_closed:
  fixes Pt :: "complex list" and antialias :: int
  assumes "Pt \<noteq> []"
  defines "N \<equiv> length Pt"
  defines "v \<equiv> \<lfloor>real N / 2\<rfloor>"
  defines "K \<equiv> (\<lambda>i j. antialias \<noteq> 0 \<and>
            ((\<exists>n\<in>set [v + 1..int N - 1]. i = nat n \<and> slice_bound N (v + 1) \<le> j
                \<and> j < slice_bound N (v + 1 + (int N - n)))
            \<or> (\<exists>n\<in>set [1..v]. i = nat n \<and> slice_bound N (v - (n - 1)) \<le> j
                \<and> j < slice_bound N (v + 1))))"
  defines "m \<equiv> (\<lambda>i j. if K i j then 0 else dft Pt ! i * dft Pt ! j)"
  defines "E \<equiv> mk_mat N N (\<lambda>i j.
       (\<Sum>n<N. m n (N - 1 - nat ((int (N - 1 - nat ((int i - (\<lceil>real N / 2\<rceil> - 1)) mod int N)) + int n) mod int N))
           * twiddle N (int ((N - 1 - nat ((int j - \<lceil>real N / 2\<rceil>) mod int N)) * n))) / of_nat N)"
  shows "makeFROG Pt 1 antialias = Inr (Some (abs_square E, E))"
proof -
  have N: "0 < N" using assms by simp
  have v: "0 \<le> v" "v < int N" using N by (simp_all add: v_def floor_less_iff)
  have M: "(if antialias \<noteq> 0 then antialias_freq 1 (PyInt v) N (outer (dft Pt) (dft Pt))
            else Inr (outer (dft Pt) (dft Pt))) = Inr (mk_mat N N m)"
    unfolding outer_mk_mat length_dft N_def [symmetric] m_def K_def
    by (auto simp: antialias_freq_mk_mat [OF _ v] intro!: mk_mat_cong)
  have F: "fft Pt = Inr (dft Pt)" using assms by (simp add: fft_def)
  show ?thesis
    apply (simp only: makeFROG_def Let_def N_def [symmetric] v_def [symmetric] F sum.case
        one_neq_zero if_False if_True simp_thms M)
    apply (simp add: roll_rows_mk_mat N fliplr_mk_mat flipud_mk_mat ifft_axis0_mk_mat
          roll_axis0_mk_mat roll_axis1_mk_mat transpose_mk_mat E_def)
    done
qed

subsection \<open>The trace returned by \<open>makeFROG\<close>\<close>

lemma abs_square_nth:
  "i < length EF \<Longrightarrow> j < length (EF ! i) \<Longrightarrow> abs_square EF ! i ! j = (cmod (EF ! i ! j))\<^sup>2"
  by (simp add: abs_square_def)

lemma makeFROG_returns_abs_square:
  assumes "makeFROG Pt domain antialias = Inr (Some (F, EF))"
  shows "F = abs_square EF"
  using assms unfolding makeFROG_def Let_def
  by (auto split: if_splits sum.splits)

text \<open>
  Claim C2. Whatever the field, the domain and the anti-alias setting, a pair \<open>(F, EF)\<close>
  returned by \<open>makeFROG\<close> has \<open>F[i,j] = |EF[i,j]|\<^sup>2\<close> at every entry; and for a field with at
  least one sample and \<open>domain\<close> 0 or 1 such a pair is returned, \<open>EF\<close> being an \<open>N\<times>N\<close> array.
  (On a field without samples the FFT raises \<open>ValueError\<close>.)
\<close>

theorem makeFROG_trace_is_abs_square:
  "(makeFROG Pt domain antialias = Inr (Some (F, EF)) \<longrightarrow>
      length F = length EF \<and>
      (\<forall>i<length EF. length (F ! i) = length (EF ! i) \<and>
         (\<forall>j<length (EF ! i). F ! i ! j = (cmod (EF ! i ! j))\<^sup>2)))
   \<and> (Pt \<noteq> [] \<and> (domain = 0 \<or> domain = 1) \<longrightarrow>
        (\<exists>F EF. makeFROG Pt domain antialias = Inr (Some (F, EF))
           \<and> shape EF = (length Pt, length Pt) \<and> is_array EF))"
proof (rule conjI; rule impI)
  assume "makeFROG Pt domain antialias = Inr (Some (F, EF))"
  then have "F = abs_square EF" by (rule makeFROG_returns_abs_square)
  then show "length F = length EF \<and>
      (\<forall>i<length EF. length (F ! i) = length (EF ! i) \<and>
         (\<forall>j<length (EF ! i). F ! i ! j = (cmod (EF ! i ! j))\<^sup>2))"
    by (simp add: abs_square_def)
next
  assume h: "Pt \<noteq> [] \<and> (domain = 0 \<or> domain = 1)"
  then have ne: "Pt \<noteq> []" by simp
  have N: "0 < length Pt" using ne by simp
  have dims: "shape (mk_mat (length Pt) (length Pt) g) = (length Pt, length Pt)
      \<and> is_array (mk_mat (length Pt) (length Pt) g)" for g :: "nat \<Rightarrow> nat \<Rightarrow> complex"
    using N by (simp add: shape_def is_array_def list_all_length)
  from h have "domain = 0 \<or> domain = 1" by simp
  then show "\<exists>F EF. makeFROG Pt domain antialias = Inr (Some (F, EF))
           \<and> shape EF = (length Pt, length Pt) \<and> is_array EF"
  proof
    assume "domain = 0"
    then show ?thesis
      using makeFROG_time_closed [OF ne, of antialias] dims by blast
  next
    assume "domain = 1"
    then show ?thesis
      using makeFROG_freq_closed [OF ne, of antialias] dims by blast
  qed
qed

text \<open>The theorem at the field \<open>[1, \<i>]\<close>, \<open>domain = 0\<close>, anti-aliasing on.\<close>

theorem makeFROG_trace_is_abs_square_witness:
  "\<exists>F EF. makeFROG [1, \<i>] 0 1 = Inr (Some (F, EF)) \<and> shape EF = (2, 2) \<and>
     F ! 1 ! 0 = (cmod (EF ! 1 ! 0))\<^sup>2"
proof -
  obtain F EF where r: "makeFROG [1, \<i>] 0 1 = Inr (Some (F, EF))"
      and s: "shape EF = (length [1, \<i>], length [1, \<i>])" "is_array EF"
    using makeFROG_trace_is_abs_square [of "[1, \<i>]" 0 1 "[]" "[]", THEN conjunct2] by auto
  from s have "1 < length EF" "0 < length (EF ! 1)"
    by (auto simp: shape_def nrows_def ncols_def is_array_def list_all_length split: list.splits)
  then have "F ! 1 ! 0 = (cmod (EF ! 1 ! 0))\<^sup>2"
    using makeFROG_trace_is_abs_square [of "[1, \<i>]" 0 1 F EF, THEN conjunct1] r by simp
  with r s show ?thesis by auto
qed

subsection \<open>\<open>guessPulse\<close> in the frequency domain with anti-aliasing\<close>

lemma antialias_freq_float: "antialias_freq first (PyFloat x) N EF = Inl TypeError"
  by (simp add: antialias_freq_def py_range_def)

lemma guessPulse_freq_antialias_Inl:
  assumes "antialias \<noteq> 0"
  shows "\<exists>e. guessPulse svd_u0 EF lastPt 1 antialias PowerOrSVD = Inl e"
  using assms unfolding guessPulse_def Let_def
  by (simp add: antialias_freq_float split: sum.splits)

lemma guessPulse_freq_antialias_TypeError:
  assumes aa: "antialias \<noteq> 0" and A: "is_array EF" and s: "shape EF = (N, N)" and N: "0 < N"
  shows "guessPulse svd_u0 EF lastPt 1 antialias PowerOrSVD = Inl TypeError"
proof -
  from s have r: "nrows EF = N" and c: "ncols EF = N" by (simp_all add: shape_def)
  have EF: "EF = mk_mat N N (\<lambda>i j. EF ! i ! j)"
    using mk_mat_self [OF A] by (simp add: r c)
  have ne: "EF \<noteq> []" using r N by (auto simp: nrows_def)
  have l0: "length (EF ! 0) = N"
    using is_array_nth [OF A, of 0] r c N ne by (simp add: nrows_def)
  show ?thesis
    unfolding guessPulse_def Let_def l0
    apply (simp only: ne if_False one_neq_zero simp_thms aa if_True antialias_freq_float)
    apply (subst EF)
    apply (simp add: transpose_mk_mat N roll_axis1_mk_mat roll_axis0_mk_mat fliplr_mk_mat
        flipud_mk_mat fft_axis0_mk_mat roll_rows_mk_mat)
    done
qed

text \<open>
  Claim C10. With \<open>domain = 1\<close> and anti-aliasing on, \<open>guessPulse\<close> returns no value, whatever
  the matrix, the previous field and the method: the call ends in an exception. On an
  \<open>N\<times>N\<close> matrix the steps before the anti-alias branch succeed and the exception is the
  \<open>TypeError\<close> of \<open>range(2, vmax+1)\<close>, whose bound \<open>vmax = np.floor(N/2.)\<close> is a float.
\<close>

theorem guessPulse_freq_antialias_raises:
  "antialias \<noteq> 0 \<longrightarrow>
     (\<exists>e. guessPulse svd_u0 EF lastPt 1 antialias PowerOrSVD = Inl e) \<and>
     (is_array EF \<and> shape EF = (N, N) \<and> 0 < N \<longrightarrow>
        guessPulse svd_u0 EF lastPt 1 antialias PowerOrSVD = Inl TypeError)"
  using guessPulse_freq_antialias_Inl guessPulse_freq_antialias_TypeError by blast

text \<open>The theorem at a \<open>2\<times>2\<close> matrix with \<open>antialias = 1\<close>.\<close>

theorem guessPulse_freq_antialias_raises_witness:
  "(1::int) \<noteq> 0 \<and> is_array [[1, 2], [3, 4 :: complex]] \<and> shape [[1, 2], [3, 4 :: complex]] = (2, 2)
     \<and> guessPulse (\<lambda>A. Inl LinAlgError) [[1, 2], [3, 4]] [1, 1] 1 1 0 = Inl TypeError"
  using guessPulse_freq_antialias_raises
          [of 1 "\<lambda>A. Inl LinAlgError" "[[1, 2], [3, 4]]" "[1, 1]" 0 2]
  by (simp add: is_array_def shape_def nrows_def ncols_def)

subsection \<open>Each step of \<open>guessPulse\<close> undoes a step of \<open>makeFROG\<close>\<close>

lemma roll_index_inverse:
  assumes "i < n"
  shows "nat ((int (nat ((int i - k) mod int n)) + k) mod int n) = i"
proof -
  have n: "0 < int n" using assms by simp
  have "(int (nat ((int i - k) mod int n)) + k) mod int n = ((int i - k) mod int n + k) mod int n"
    using n by simp
  also have "\<dots> = (int i - k + k) mod int n"
    by (simp only: mod_add_left_eq)
  also have "\<dots> = int i" using assms by simp
  finally show ?thesis by simp
qed

lemma roll_index_inverse':
  assumes "i < n"
  shows "nat ((int (nat ((int i + k) mod int n)) - k) mod int n) = i"
  using roll_index_inverse [OF assms, of "- k"] by simp

lemma roll1_inverse: "roll1 (- k) (roll1 k xs) = xs"
proof (rule nth_equalityI)
  fix i assume "i < length (roll1 (- k) (roll1 k xs))"
  then have i: "i < length xs" by simp
  have j: "nat ((int i + k) mod int (length xs)) < length xs"
    by (rule mod_index_less) (use i in auto)
  have "roll1 (- k) (roll1 k xs) ! i = roll1 k xs ! nat ((int i + k) mod int (length xs))"
    using i by (simp only: roll1_nth length_roll1 diff_minus_eq_add)
  also have "\<dots> = xs ! nat ((int (nat ((int i + k) mod int (length xs))) - k) mod int (length xs))"
    using j by (simp only: roll1_nth)
  also have "\<dots> = xs ! i"
    by (simp only: roll_index_inverse' [OF i])
  finally show "roll1 (- k) (roll1 k xs) ! i = xs ! i" .
qed simp

lemma roll1_inverse': "roll1 k (roll1 (- k) xs) = xs"
  using roll1_inverse [of "- k" xs] by simp

lemma roll_axis0_inverse: "roll_axis0 (- k) (roll_axis0 k A) = A"
  by (simp add: roll_axis0_def roll1_inverse)

lemma roll_axis1_inverse: "roll_axis1 (- k) (roll_axis1 k A) = A"
  by (simp add: roll_axis1_def roll1_inverse comp_def)

lemma ncols_roll_axis1 [simp]: "ncols (roll_axis1 k A) = ncols A"
  by (cases A) (simp_all add: ncols_def roll_axis1_def)

lemma ifftshift_fftshift_axis1: "ifftshift_axis1 (fftshift_axis1 A) = A"
  by (simp add: ifftshift_axis1_def fftshift_axis1_def roll_axis1_inverse)

lemma fliplr_fliplr: "fliplr (fliplr A) = A"
  by (simp add: fliplr_def comp_def)

lemma flipud_fliplr_inverse: "flipud (fliplr (flipud (fliplr A))) = A"
  by (simp add: flipud_def fliplr_def rev_map comp_def)

lemma fourier_inversion_fun:
  assumes "i < N"
  shows "(\<Sum>k<N. (\<Sum>n<N. g n * twiddle N (- int (k * n))) * twiddle N (int (i * k))) / of_nat N = g i"
proof -
  have "(\<Sum>k<N. (\<Sum>n<N. g n * twiddle N (- int (k * n))) * twiddle N (int (i * k)))
      = (\<Sum>k<N. \<Sum>n<N. g n * twiddle N (int k * (int i - int n)))"
    by (simp only: dft_kernel)
  also have "\<dots> = (\<Sum>n<N. g n * (\<Sum>k<N. twiddle N (int k * (int i - int n))))"
    by (subst sum.swap) (simp add: sum_distrib_left)
  also have "\<dots> = of_nat N * g i"
    by (rule fourier_orthogonality [OF assms])
  finally show ?thesis using assms by simp
qed

lemma sum_scaled_left:
  fixes A T :: "nat \<Rightarrow> complex"
  shows "(\<Sum>k<N. A k / c * T k) = (\<Sum>k<N. A k * T k) / c"
  by (simp add: sum_divide_distrib)

lemma fourier_inversion_fun':
  assumes "i < N"
  shows "(\<Sum>k<N. (\<Sum>n<N. g n * twiddle N (int (k * n))) / of_nat N * twiddle N (- int (i * k))) = g i"
proof -
  have N: "0 < N" using assms by simp
  have "(\<Sum>k<N. (\<Sum>n<N. g n * twiddle N (int (k * n))) / of_nat N * twiddle N (- int (i * k)))
      = (\<Sum>k<N. (\<Sum>n<N. g n * twiddle N (int (k * n))) * twiddle N (- int (i * k))) / of_nat N"
    by (rule sum_scaled_left)
  also have "(\<Sum>k<N. (\<Sum>n<N. g n * twiddle N (int (k * n))) * twiddle N (- int (i * k)))
      = (\<Sum>k<N. \<Sum>n<N. g n * twiddle N (int k * (int n - int i)))"
    by (simp only: idft_kernel)
  also have "\<dots> = (\<Sum>n<N. g n * (\<Sum>k<N. twiddle N (int k * (int i - int n))))"
    by (subst sum.swap) (simp add: sum_distrib_left twiddle_sum_neg [OF N])
  also have "\<dots> = of_nat N * g i"
    by (rule fourier_orthogonality [OF assms])
  finally show ?thesis using assms by simp
qed

lemma ifft_fft_mk_mat:
  assumes "0 < r"
  shows "ifft_axis0 (mk_mat r c (\<lambda>k j. \<Sum>n<r. f n j * twiddle r (- int (k * n))))
     = Inr (mk_mat r c f)"
proof -
  have "mk_mat r c (\<lambda>i j. (\<Sum>k<r. (\<Sum>n<r. f n j * twiddle r (- int (k * n))) * twiddle r (int (i * k))) / of_nat r)
      = mk_mat r c f"
    by (rule mk_mat_cong) (rule fourier_inversion_fun)
  then show ?thesis
    by (simp only: ifft_axis0_mk_mat [OF assms])
qed

lemma fft_ifft_mk_mat:
  assumes "0 < r"
  shows "fft_axis0 (mk_mat r c (\<lambda>k j. (\<Sum>n<r. f n j * twiddle r (int (k * n))) / of_nat r))
     = Inr (mk_mat r c f)"
proof -
  have "mk_mat r c (\<lambda>i j. (\<Sum>k<r. (\<Sum>n<r. f n j * twiddle r (int (k * n))) / of_nat r * twiddle r (- int (i * k))))
      = mk_mat r c f"
    by (rule mk_mat_cong) (rule fourier_inversion_fun')
  then show ?thesis
    by (simp only: fft_axis0_mk_mat [OF assms])
qed

lemma roll_rows_inverse_mk_mat:
  assumes "N \<le> r"
  shows "for_loop [0..<N] (\<lambda>n. roll_row (- g n) n)
           (mk_mat r c (\<lambda>i j. if i < N then f i (nat ((int j - g i) mod int c)) else f i j))
     = Inr (mk_mat r c f)"
proof -
  have "mk_mat r c (\<lambda>i j. if i < N
           then (if i < N then f i (nat ((int (nat ((int j - - g i) mod int c)) - g i) mod int c))
                 else f i (nat ((int j - - g i) mod int c)))
           else (if i < N then f i (nat ((int j - g i) mod int c)) else f i j))
      = mk_mat r c f"
    by (rule mk_mat_cong) (simp add: mod_diff_left_eq)
  then show ?thesis
    by (simp only: roll_rows_mk_mat [OF assms])
qed

lemma guessPulse_after_makeFROG_time:
  fixes Pt :: "complex list" and antialias aa' :: int
  assumes ne: "Pt \<noteq> []" and mk: "makeFROG Pt 0 antialias = Inr (Some (F, EF))"
  defines "N \<equiv> length Pt"
  defines "M \<equiv> (if antialias \<noteq> 0 then antialias_time N (outer Pt Pt) else outer Pt Pt)"
  shows "guessPulse svd_u0 EF lastPt 0 aa' meth =
     (let M' = (if aa' \<noteq> 0 then antialias_time N M else M)
      in case (if meth = 0 then power_step M' lastPt
               else case svd_u0 M' of Inl e \<Rightarrow> Inl e | Inr u \<Rightarrow> reshape_column N u) of
           Inl e \<Rightarrow> Inl e
         | Inr Pt' \<Rightarrow> Inr (Some (normalize_field Pt')))"
proof -
  have N: "0 < N" using ne by (simp add: N_def)
  define m where "m = (\<lambda>i j. if antialias \<noteq> 0 \<and> \<lceil>real N / 2\<rceil> \<le> \<bar>int j - int i\<bar> then 0 else Pt ! i * Pt ! j)"
  have M: "M = mk_mat N N m"
    unfolding M_def outer_mk_mat N_def [symmetric] m_def
    by (auto simp: antialias_time_mk_mat [OF N N] intro!: mk_mat_cong)
  define R where "R = mk_mat N N (\<lambda>i j. if i < N then m i (nat ((int j - (- int i)) mod int N)) else m i j)"
  have loop: "for_loop [0..<N] (\<lambda>n. roll_row (- int n) n) M = Inr R"
    unfolding M R_def by (rule roll_rows_mk_mat) simp
  define t where "t = (\<lambda>i j. (if i < N then m i (nat ((int (nat ((int (N - 1 - j) - int (N div 2)) mod int N)) - (- int i)) mod int N))
           else m i (nat ((int (N - 1 - j) - int (N div 2)) mod int N))))"
  have T: "fliplr (fftshift_axis1 R) = mk_mat N N t"
    unfolding R_def t_def by (simp only: fftshift_axis1_mk_mat [OF N] fliplr_mk_mat)
  define U where "U = mk_mat N N (\<lambda>k j. \<Sum>n<N. t n j * twiddle N (- int (k * n)))"
  have fftT: "fft_axis0 (fliplr (fftshift_axis1 R)) = Inr U"
    unfolding T U_def by (rule fft_axis0_mk_mat [OF N])
  have "makeFROG Pt 0 antialias
      = Inr (Some (abs_square (roll_axis0 (\<lceil>real N / 2\<rceil> - 1) U), roll_axis0 (\<lceil>real N / 2\<rceil> - 1) U))"
    unfolding makeFROG_def Let_def N_def [symmetric] M_def [symmetric]
    by (simp only: simp_thms if_True loop sum.case fftT)
  with mk have EF: "EF = roll_axis0 (\<lceil>real N / 2\<rceil> - 1) U" by simp
  have EF': "EF = mk_mat N N (\<lambda>i j. \<Sum>n<N. t n j * twiddle N (- int (nat ((int i - (\<lceil>real N / 2\<rceil> - 1)) mod int N) * n)))"
    unfolding EF U_def by (simp only: roll_axis0_mk_mat)
  have ne': "EF \<noteq> []" using N unfolding EF' by (simp add: mk_mat_def)
  have l0: "length (EF ! 0) = N" unfolding EF' using N by simp
  have back1: "roll_axis0 (- (\<lceil>real N / 2\<rceil> - 1)) EF = U"
    unfolding EF by (rule roll_axis0_inverse)
  have back2: "ifft_axis0 U = Inr (fliplr (fftshift_axis1 R))"
    unfolding T U_def by (rule ifft_fft_mk_mat [OF N])
  have back3: "ifftshift_axis1 (fliplr (fliplr (fftshift_axis1 R))) = R"
    by (simp only: fliplr_fliplr ifftshift_fftshift_axis1)
  have back4: "for_loop [0..<N] (\<lambda>n. roll_row (int n) n) R = Inr M"
    using roll_rows_inverse_mk_mat [of N N "\<lambda>n. - int n" N m]
    unfolding M R_def by simp
  show ?thesis
    unfolding guessPulse_def Let_def l0
    by (simp only: ne' if_False simp_thms if_True back1 back2 back3 back4 sum.case)
qed

lemma guessPulse_after_makeFROG_freq:
  fixes Pt :: "complex list" and antialias aa' :: int
  assumes ne: "Pt \<noteq> []" and mk: "makeFROG Pt 1 antialias = Inr (Some (F, EF))"
  defines "N \<equiv> length Pt"
  shows "\<exists>M. (if antialias \<noteq> 0
              then antialias_freq 1 (PyInt \<lfloor>real N / 2\<rfloor>) N (outer (dft Pt) (dft Pt))
              else Inr (outer (dft Pt) (dft Pt))) = Inr M \<and>
     guessPulse svd_u0 EF lastPt 1 0 meth =
      (case (if meth = 0
             then case fft lastPt of Inl e \<Rightarrow> Inl e | Inr lastPtFFT \<Rightarrow>
                  case power_step M lastPtFFT of Inl e \<Rightarrow> Inl e | Inr v \<Rightarrow> ifft v
             else case svd_u0 M of Inl e \<Rightarrow> Inl e | Inr u \<Rightarrow>
                  case ifft u of Inl e \<Rightarrow> Inl e | Inr v \<Rightarrow> reshape_column N v) of
         Inl e \<Rightarrow> Inl e
       | Inr Pt' \<Rightarrow> Inr (Some (normalize_field Pt')))"
proof -
  have N: "0 < N" using ne by (simp add: N_def)
  define v where "v = \<lfloor>real N / 2\<rfloor>"
  have v: "0 \<le> v" "v < int N" using N by (simp_all add: v_def floor_less_iff)
  define c where "c = \<lceil>real N / 2\<rceil>"
  define K where "K = (\<lambda>i j. antialias \<noteq> 0 \<and>
            ((\<exists>n\<in>set [v + 1..int N - 1]. i = nat n \<and> slice_bound N (v + 1) \<le> j
                \<and> j < slice_bound N (v + 1 + (int N - n)))
            \<or> (\<exists>n\<in>set [1..v]. i = nat n \<and> slice_bound N (v - (n - 1)) \<le> j
                \<and> j < slice_bound N (v + 1))))"
  define m where "m = (\<lambda>i j. if K i j then 0 else dft Pt ! i * dft Pt ! j)"
  define M where "M = mk_mat N N m"
  have M: "(if antialias \<noteq> 0 then antialias_freq 1 (PyInt v) N (outer (dft Pt) (dft Pt))
            else Inr (outer (dft Pt) (dft Pt))) = Inr M"
    unfolding outer_mk_mat length_dft N_def [symmetric] m_def K_def M_def
    by (auto simp: antialias_freq_mk_mat [OF _ v] intro!: mk_mat_cong)
  have Fq: "fft Pt = Inr (dft Pt)" using ne by (simp add: fft_def)
  define f where "f = (\<lambda>i j. m i (N - 1 - j))"
  have L: "fliplr M = mk_mat N N f"
    unfolding M_def f_def by (rule fliplr_mk_mat)
  define R where "R = mk_mat N N (\<lambda>i j. if i < N then f i (nat ((int j - (- int i)) mod int N)) else f i j)"
  have loop: "for_loop [0..<N] (\<lambda>n. roll_row (- int n) n) (fliplr M) = Inr R"
    unfolding L R_def by (rule roll_rows_mk_mat) simp
  define r where "r = (\<lambda>i j. if i < N then f i (nat ((int j - (- int i)) mod int N)) else f i j)"
  have Rr: "R = mk_mat N N r" unfolding R_def r_def ..
  define U where "U = mk_mat N N (\<lambda>k j. (\<Sum>n<N. r n j * twiddle N (int (k * n))) / of_nat N)"
  have ifftR: "ifft_axis0 R = Inr U"
    unfolding Rr U_def by (rule ifft_axis0_mk_mat [OF N])
  define W where "W = roll_axis1 (c - 1) (roll_axis0 c (flipud (fliplr U)))"
  have "makeFROG Pt 1 antialias = Inr (Some (abs_square (transpose_mat W), transpose_mat W))"
    unfolding makeFROG_def Let_def N_def [symmetric] v_def [symmetric] c_def [symmetric] W_def
    by (simp only: one_neq_zero if_False simp_thms if_True Fq M loop ifftR sum.case)
  with mk have EF: "EF = transpose_mat W" by simp
  obtain w where W: "W = mk_mat N N w"
    unfolding W_def U_def
    by (simp only: fliplr_mk_mat flipud_mk_mat roll_axis0_mk_mat roll_axis1_mk_mat)
  have EF': "EF = mk_mat N N (\<lambda>i j. w j i)"
    unfolding EF W by (rule transpose_mk_mat [OF N])
  have ne': "EF \<noteq> []" using N unfolding EF' by (simp add: mk_mat_def)
  have l0: "length (EF ! 0) = N" unfolding EF' using N by simp
  have back0: "transpose_mat EF = W"
    unfolding EF' W by (simp only: transpose_mk_mat [OF N])
  have back1: "roll_axis0 (- c) (roll_axis1 (- (c - 1)) W) = flipud (fliplr U)"
    unfolding W_def by (simp only: roll_axis1_inverse roll_axis0_inverse)
  have back2: "flipud (fliplr (flipud (fliplr U))) = U"
    by (rule flipud_fliplr_inverse)
  have back3: "fft_axis0 U = Inr R"
    unfolding Rr U_def by (rule fft_ifft_mk_mat [OF N])
  have back4: "for_loop [0..<N] (\<lambda>n. roll_row (int n) n) R = Inr (fliplr M)"
    using roll_rows_inverse_mk_mat [of N N "\<lambda>n. - int n" N f]
    unfolding L R_def by simp
  have "guessPulse svd_u0 EF lastPt 1 0 meth =
      (case (if meth = 0
             then case fft lastPt of Inl e \<Rightarrow> Inl e | Inr lastPtFFT \<Rightarrow>
                  case power_step M lastPtFFT of Inl e \<Rightarrow> Inl e | Inr v \<Rightarrow> ifft v
             else case svd_u0 M of Inl e \<Rightarrow> Inl e | Inr u \<Rightarrow>
                  case ifft u of Inl e \<Rightarrow> Inl e | Inr v \<Rightarrow> reshape_column N v) of
         Inl e \<Rightarrow> Inl e
       | Inr Pt' \<Rightarrow> Inr (Some (normalize_field Pt')))"
    unfolding guessPulse_def Let_def l0 c_def [symmetric]
    by (simp only: ne' if_False one_neq_zero simp_thms if_True back0 back1 back2 back3 back4
        sum.case fliplr_fliplr)
  with M show ?thesis unfolding v_def by blast
qed

subsection \<open>The power method on an outer product\<close>

lemma np_norm_sum: "np_norm v = sqrt (\<Sum>i<length v. (cmod (v ! i))\<^sup>2)"
  by (simp add: np_norm_def sum_list_sum_nth atLeast0LessThan)

lemma sum_list_cmod2_nonneg: "0 \<le> (\<Sum>z\<leftarrow>v. (cmod z)\<^sup>2)"
  by (induction v) simp_all

lemma np_norm_nonneg [simp]: "0 \<le> np_norm v"
  by (simp add: np_norm_def sum_list_cmod2_nonneg)

lemma np_norm_eq_0_iff: "np_norm v = 0 \<longleftrightarrow> (\<forall>z\<in>set v. z = 0)"
proof -
  have "(\<Sum>z\<leftarrow>v. (cmod z)\<^sup>2) = 0 \<longleftrightarrow> (\<forall>z\<in>set v. z = 0)"
    by (induction v) (simp_all add: add_nonneg_eq_0_iff sum_list_cmod2_nonneg)
  then show ?thesis by (simp add: np_norm_def)
qed

lemma np_norm_scale: "np_norm (map (\<lambda>q. q * g) v) = cmod g * np_norm v"
proof -
  have "(\<Sum>z\<leftarrow>map (\<lambda>q. q * g) v. (cmod z)\<^sup>2) = (cmod g)\<^sup>2 * (\<Sum>z\<leftarrow>v. (cmod z)\<^sup>2)"
    by (induction v) (simp_all add: norm_mult power_mult_distrib algebra_simps)
  then show ?thesis
    by (simp add: np_norm_def real_sqrt_mult)
qed

lemma np_norm_normalized:
  assumes "np_norm v \<noteq> 0"
  shows "np_norm (map (\<lambda>z. z / of_real (np_norm v)) v) = 1"
proof -
  have "(\<lambda>z. z / of_real (np_norm v)) = (\<lambda>q. q * inverse (complex_of_real (np_norm v)))"
    by (simp add: divide_inverse fun_eq_iff)
  then have "np_norm (map (\<lambda>z. z / of_real (np_norm v)) v)
      = cmod (inverse (complex_of_real (np_norm v))) * np_norm v"
    by (simp only: np_norm_scale)
  then show ?thesis
    using assms by (simp add: norm_inverse)
qed

lemma matvec_mk_mat:
  assumes "0 < r" "length v = c"
  shows "matvec (mk_mat r c a) v = Inr (map (\<lambda>i. \<Sum>j<c. a i j * v ! j) [0..<r])"
  using assms by (simp add: matvec_def) (simp add: mk_mat_def)

lemma conj_transpose_mk_mat:
  "0 < r \<Longrightarrow> conj_transpose (mk_mat r c a) = mk_mat c r (\<lambda>i j. cnj (a j i))"
  by (simp add: conj_transpose_def transpose_mk_mat) (simp add: mk_mat_def)

lemma power_step_outer:
  assumes Q: "Q \<noteq> []" and L: "length L = length Q"
  shows "power_step (outer Q Q) L
     = Inr (map (\<lambda>q. q * (of_real ((np_norm Q)\<^sup>2) * (\<Sum>j<length Q. cnj (Q ! j) * L ! j))) Q)"
proof -
  let ?N = "length Q"
  let ?b = "\<Sum>j<?N. cnj (Q ! j) * L ! j"
  have N: "0 < ?N" using Q by simp
  have w: "matvec (conj_transpose (outer Q Q)) L = Inr (map (\<lambda>i. cnj (Q ! i) * ?b) [0..<?N])"
  proof -
    have "(\<Sum>j<?N. cnj (Q ! j * Q ! i) * L ! j) = cnj (Q ! i) * ?b" for i
      by (simp add: sum_distrib_left algebra_simps)
    then show ?thesis
      by (simp add: outer_mk_mat conj_transpose_mk_mat [OF N] matvec_mk_mat [OF N L])
  qed
  have n2: "(\<Sum>j<?N. Q ! j * cnj (Q ! j)) = of_real ((np_norm Q)\<^sup>2)"
  proof -
    have "(\<Sum>j<?N. Q ! j * cnj (Q ! j)) = of_real (\<Sum>j<?N. (cmod (Q ! j))\<^sup>2)"
      by (simp add: complex_norm_square [symmetric])
    also have "(\<Sum>j<?N. (cmod (Q ! j))\<^sup>2) = (np_norm Q)\<^sup>2"
      by (simp add: np_norm_sum sum_nonneg)
    finally show ?thesis .
  qed
  have "(\<Sum>j<?N. Q ! i * Q ! j * (map (\<lambda>i. cnj (Q ! i) * ?b) [0..<?N] ! j))
      = Q ! i * (of_real ((np_norm Q)\<^sup>2) * ?b)" for i
  proof -
    have "(\<Sum>j<?N. Q ! i * Q ! j * (map (\<lambda>i. cnj (Q ! i) * ?b) [0..<?N] ! j))
        = (\<Sum>j<?N. Q ! i * ?b * (Q ! j * cnj (Q ! j)))"
      by (rule sum.cong) (simp_all add: algebra_simps)
    also have "\<dots> = Q ! i * ?b * (\<Sum>j<?N. Q ! j * cnj (Q ! j))"
      by (simp only: sum_distrib_left)
    finally show ?thesis by (simp add: n2 algebra_simps)
  qed
  then have "matvec (outer Q Q) (map (\<lambda>i. cnj (Q ! i) * ?b) [0..<?N])
      = Inr (map (\<lambda>i. Q ! i * (of_real ((np_norm Q)\<^sup>2) * ?b)) [0..<?N])"
    by (simp add: outer_mk_mat matvec_mk_mat [OF N])
  also have "map (\<lambda>i. Q ! i * (of_real ((np_norm Q)\<^sup>2) * ?b)) [0..<?N]
      = map (\<lambda>q. q * (of_real ((np_norm Q)\<^sup>2) * ?b)) Q"
    by (rule map_conv_nth [symmetric])
  finally show ?thesis
    by (simp add: power_step_def w)
qed

lemma normalize_scaled:
  assumes nz: "np_norm Q \<noteq> 0" and g: "g \<noteq> 0"
  shows "normalize_field (map (\<lambda>q. q * g) Q)
     = Field (map (\<lambda>z. sgn g * z / of_real (np_norm Q)) Q)"
proof -
  have n: "np_norm (map (\<lambda>q. q * g) Q) = cmod g * np_norm Q" by (rule np_norm_scale)
  have "q * g / of_real (cmod g * np_norm Q) = sgn g * q / of_real (np_norm Q)" for q
    using nz g by (simp add: sgn_eq field_simps)
  then show ?thesis
    using nz g by (simp add: normalize_field_def n)
qed

subsection \<open>Cyclic shifts and Plancherel's identity\<close>

lemma roll_index_bij:
  assumes "0 < n"
  shows "bij_betw (\<lambda>i. nat ((int i - k) mod int n)) {..<n} {..<n}"
proof (rule bij_betw_byWitness [where f' = "\<lambda>i. nat ((int i + k) mod int n)"])
  show "\<forall>a\<in>{..<n}. nat ((int (nat ((int a - k) mod int n)) + k) mod int n) = a"
    by (intro ballI roll_index_inverse) simp
  show "\<forall>a'\<in>{..<n}. nat ((int (nat ((int a' + k) mod int n)) - k) mod int n) = a'"
    by (intro ballI roll_index_inverse') simp
  show "(\<lambda>i. nat ((int i - k) mod int n)) ` {..<n} \<subseteq> {..<n}"
    using assms by (auto simp: mod_index_less)
  show "(\<lambda>i. nat ((int i + k) mod int n)) ` {..<n} \<subseteq> {..<n}"
    using assms by (auto simp: mod_index_less)
qed

lemma sum_roll_index:
  fixes h :: "nat \<Rightarrow> 'a::comm_monoid_add"
  shows "(\<Sum>i<n. h (nat ((int i - k) mod int n))) = (\<Sum>i<n. h i)"
proof (cases "n = 0")
  case False
  then show ?thesis
    using sum.reindex_bij_betw [OF roll_index_bij [of n k], of h] by simp
qed simp

lemma np_norm_roll1: "np_norm (roll1 k v) = np_norm v"
proof -
  have "(\<Sum>i<length v. (cmod (roll1 k v ! i))\<^sup>2)
      = (\<Sum>i<length v. (cmod (v ! nat ((int i - k) mod int (length v))))\<^sup>2)"
    by (rule sum.cong) (simp_all add: roll1_nth)
  also have "\<dots> = (\<Sum>i<length v. (cmod (v ! i))\<^sup>2)"
    by (rule sum_roll_index)
  finally show ?thesis by (simp add: np_norm_sum)
qed

lemma idft_scale: "idft (map (\<lambda>q. q * g) X) = map (\<lambda>p. p * g) (idft X)"
proof (rule nth_equalityI)
  fix i assume "i < length (idft (map (\<lambda>q. q * g) X))"
  then have i: "i < length X" by simp
  let ?N = "length X"
  have "(\<Sum>n<?N. map (\<lambda>q. q * g) X ! n * twiddle ?N (int (i * n)))
      = (\<Sum>n<?N. X ! n * twiddle ?N (int (i * n)) * g)"
    by (rule sum.cong) (simp_all add: mult_ac)
  also have "\<dots> = (\<Sum>n<?N. X ! n * twiddle ?N (int (i * n))) * g"
    by (simp only: sum_distrib_right)
  finally show "idft (map (\<lambda>q. q * g) X) ! i = map (\<lambda>p. p * g) (idft X) ! i"
    using i by (simp add: idft_nth)
qed simp

lemma cnj_dft_nth:
  "k < length x \<Longrightarrow> cnj (dft x ! k) = (\<Sum>n<length x. cnj (x ! n) * twiddle (length x) (int (k * n)))"
  by (simp add: dft_nth cnj_twiddle)

lemma plancherel:
  assumes "length y = length x"
  shows "(\<Sum>k<length x. cnj (dft x ! k) * dft y ! k)
     = of_nat (length x) * (\<Sum>n<length x. cnj (x ! n) * y ! n)"
proof -
  let ?N = "length x"
  have "(\<Sum>k<?N. cnj (dft x ! k) * dft y ! k)
      = (\<Sum>k<?N. \<Sum>n<?N. cnj (x ! n) * (\<Sum>m<?N. y ! m * twiddle ?N (int k * (int n - int m))))"
  proof (rule sum.cong)
    fix k assume "k \<in> {..<?N}"
    then have k: "k < ?N" by simp
    have c: "cnj (dft x ! k) = (\<Sum>n<?N. cnj (x ! n) * twiddle ?N (int (k * n)))"
      using k by (rule cnj_dft_nth)
    have d: "dft y ! k = (\<Sum>m<?N. y ! m * twiddle ?N (- int (k * m)))"
      using k assms dft_nth [of k y] by simp
    have "cnj (dft x ! k) * dft y ! k
        = (\<Sum>n<?N. cnj (x ! n) * (twiddle ?N (int (k * n)) * (\<Sum>m<?N. y ! m * twiddle ?N (- int (k * m)))))"
      unfolding c d by (simp only: sum_distrib_right mult.assoc)
    also have "\<dots> = (\<Sum>n<?N. cnj (x ! n) * (\<Sum>m<?N. y ! m * twiddle ?N (int k * (int n - int m))))"
    proof -
      have "twiddle ?N (int (k * n)) * (\<Sum>m<?N. y ! m * twiddle ?N (- int (k * m)))
          = (\<Sum>m<?N. y ! m * twiddle ?N (int k * (int n - int m)))" for n
        using dft_kernel [of "\<lambda>m. y ! m" ?N k n] by (simp add: mult.commute)
      then show ?thesis by simp
    qed
    finally show "cnj (dft x ! k) * dft y ! k
        = (\<Sum>n<?N. cnj (x ! n) * (\<Sum>m<?N. y ! m * twiddle ?N (int k * (int n - int m))))" .
  qed simp
  also have "\<dots> = (\<Sum>n<?N. cnj (x ! n) * (\<Sum>m<?N. y ! m * (\<Sum>k<?N. twiddle ?N (int k * (int n - int m)))))"
  proof -
    have "(\<Sum>k<?N. \<Sum>m<?N. y ! m * twiddle ?N (int k * (int n - int m)))
        = (\<Sum>m<?N. y ! m * (\<Sum>k<?N. twiddle ?N (int k * (int n - int m))))" for n
      by (subst sum.swap) (simp add: sum_distrib_left)
    then show ?thesis
      by (subst sum.swap) (simp add: sum_distrib_left [symmetric])
  qed
  also have "\<dots> = (\<Sum>n<?N. cnj (x ! n) * (of_nat ?N * y ! n))"
    by (rule sum.cong) (simp_all add: fourier_orthogonality)
  also have "\<dots> = of_nat ?N * (\<Sum>n<?N. cnj (x ! n) * y ! n)"
    by (simp add: sum_distrib_left algebra_simps)
  finally show ?thesis .
qed

lemma norm_square_sum: "complex_of_real ((np_norm v)\<^sup>2) = (\<Sum>j<length v. cnj (v ! j) * v ! j)"
proof -
  have "(\<Sum>j<length v. cnj (v ! j) * v ! j) = of_real (\<Sum>j<length v. (cmod (v ! j))\<^sup>2)"
    by (simp add: complex_norm_square [symmetric] mult.commute)
  also have "(\<Sum>j<length v. (cmod (v ! j))\<^sup>2) = (np_norm v)\<^sup>2"
    by (simp add: np_norm_sum sum_nonneg)
  finally show ?thesis by simp
qed

lemma np_norm_dft: "(np_norm (dft x))\<^sup>2 = real (length x) * (np_norm x)\<^sup>2"
proof -
  have "complex_of_real ((np_norm (dft x))\<^sup>2) = (\<Sum>k<length x. cnj (dft x ! k) * dft x ! k)"
    using norm_square_sum [of "dft x"] by (simp only: length_dft)
  also have "\<dots> = of_nat (length x) * (\<Sum>n<length x. cnj (x ! n) * x ! n)"
    by (rule plancherel) simp
  also have "(\<Sum>n<length x. cnj (x ! n) * x ! n) = complex_of_real ((np_norm x)\<^sup>2)"
    by (rule norm_square_sum [symmetric])
  finally have "complex_of_real ((np_norm (dft x))\<^sup>2) = of_nat (length x) * complex_of_real ((np_norm x)\<^sup>2)" .
  then have "complex_of_real ((np_norm (dft x))\<^sup>2) = complex_of_real (real (length x) * (np_norm x)\<^sup>2)"
    by simp
  then show ?thesis by (simp only: of_real_eq_iff)
qed

subsection \<open>\<open>guessPulse\<close> after \<open>makeFROG\<close>\<close>

lemma sgn_scale_pos: "0 < r \<Longrightarrow> sgn (complex_of_real r * c) = sgn c"
  by (simp add: sgn_eq norm_mult)

lemma guessPulse_makeFROG_time:
  assumes nz: "np_norm Pt \<noteq> 0" and len: "length lastPt = length Pt"
    and c: "(\<Sum>j<length Pt. cnj (Pt ! j) * lastPt ! j) \<noteq> 0"
    and mk: "makeFROG Pt 0 0 = Inr (Some (F, EF))"
  shows "guessPulse svd_u0 EF lastPt 0 0 0
     = Inr (Some (Field (map (\<lambda>z. sgn (\<Sum>j<length Pt. cnj (Pt ! j) * lastPt ! j) * z
                                      / of_real (np_norm Pt)) Pt)))"
proof -
  let ?c = "\<Sum>j<length Pt. cnj (Pt ! j) * lastPt ! j"
  have ne: "Pt \<noteq> []" using nz by (auto simp: np_norm_def)
  have pos: "0 < (np_norm Pt)\<^sup>2" using nz by simp
  let ?g = "complex_of_real ((np_norm Pt)\<^sup>2) * ?c"
  have g: "?g \<noteq> 0" using nz c by simp
  have "guessPulse svd_u0 EF lastPt 0 0 0
      = (case power_step (outer Pt Pt) lastPt of Inl e \<Rightarrow> Inl e
         | Inr Pt' \<Rightarrow> Inr (Some (normalize_field Pt')))"
    using guessPulse_after_makeFROG_time [OF ne mk, of svd_u0 lastPt 0 0] by simp
  also have "\<dots> = Inr (Some (normalize_field (map (\<lambda>q. q * ?g) Pt)))"
    by (simp add: power_step_outer [OF ne len])
  also have "normalize_field (map (\<lambda>q. q * ?g) Pt)
      = Field (map (\<lambda>z. sgn ?g * z / of_real (np_norm Pt)) Pt)"
    by (rule normalize_scaled [OF nz g])
  also have "sgn ?g = sgn ?c" by (rule sgn_scale_pos [OF pos])
  finally show ?thesis .
qed

lemma guessPulse_makeFROG_freq:
  assumes nz: "np_norm Pt \<noteq> 0" and len: "length lastPt = length Pt"
    and c: "(\<Sum>j<length Pt. cnj (Pt ! j) * lastPt ! j) \<noteq> 0"
    and mk: "makeFROG Pt 1 0 = Inr (Some (F, EF))"
  shows "guessPulse svd_u0 EF lastPt 1 0 0
     = Inr (Some (Field (map (\<lambda>z. sgn (\<Sum>j<length Pt. cnj (Pt ! j) * lastPt ! j) * z
                                      / of_real (np_norm Pt)) Pt)))"
proof -
  let ?c = "\<Sum>j<length Pt. cnj (Pt ! j) * lastPt ! j"
  let ?N = "length Pt"
  have ne: "Pt \<noteq> []" using nz by (auto simp: np_norm_def)
  have N: "0 < ?N" using ne by simp
  have ne': "lastPt \<noteq> []" using ne len by auto
  have neQ: "dft Pt \<noteq> []" using ne by (simp add: dft_def)
  have lenQ: "length (dft lastPt) = length (dft Pt)" using len by simp
  have pos: "0 < (np_norm (dft Pt))\<^sup>2" using nz N by (simp add: np_norm_dft)
  have pos': "0 < (np_norm (dft Pt))\<^sup>2 * real ?N" using pos N by simp
  let ?b = "\<Sum>j<?N. cnj (dft Pt ! j) * dft lastPt ! j"
  have b: "?b = of_nat ?N * ?c" by (rule plancherel [OF len])
  let ?g = "complex_of_real ((np_norm (dft Pt))\<^sup>2) * ?b"
  have g': "?g = complex_of_real ((np_norm (dft Pt))\<^sup>2 * real ?N) * ?c"
    by (simp add: b)
  have g: "?g \<noteq> 0" using pos N c by (simp add: b)
  obtain M where M: "Inr (outer (dft Pt) (dft Pt)) = (Inr M :: py_error + complex matrix)"
     and gp: "guessPulse svd_u0 EF lastPt 1 0 0 =
      (case (case fft lastPt of Inl e \<Rightarrow> Inl e | Inr lastPtFFT \<Rightarrow>
                  case power_step M lastPtFFT of Inl e \<Rightarrow> Inl e | Inr v \<Rightarrow> ifft v) of
         Inl e \<Rightarrow> Inl e
       | Inr Pt' \<Rightarrow> Inr (Some (normalize_field Pt')))"
    using guessPulse_after_makeFROG_freq [OF ne mk, of svd_u0 lastPt 0] by auto
  from M have M': "M = outer (dft Pt) (dft Pt)" by simp
  have ps: "power_step M (dft lastPt) = Inr (map (\<lambda>q. q * ?g) (dft Pt))"
    unfolding M' using power_step_outer [OF neQ lenQ] by simp
  have "ifft (map (\<lambda>q. q * ?g) (dft Pt)) = Inr (map (\<lambda>p. p * ?g) Pt)"
    using ne by (simp add: ifft_def idft_scale idft_dft)
  then have "guessPulse svd_u0 EF lastPt 1 0 0 = Inr (Some (normalize_field (map (\<lambda>q. q * ?g) Pt)))"
    using ne' by (simp add: gp fft_def ps)
  also have "normalize_field (map (\<lambda>q. q * ?g) Pt)
      = Field (map (\<lambda>z. sgn ?g * z / of_real (np_norm Pt)) Pt)"
    by (rule normalize_scaled [OF nz g])
  also have "sgn ?g = sgn ?c" unfolding g' by (rule sgn_scale_pos [OF pos'])
  finally show ?thesis .
qed

subsection \<open>Evaluation on a field of two samples\<close>

lemma twiddle_2: "twiddle 2 0 = 1" "twiddle 2 (- 1) = - 1" "twiddle 2 1 = - 1"
  by (simp_all add: twiddle_def cis_cnj [symmetric] del: cis_cnj)

lemma twiddle_Suc_Suc_0:
  "twiddle (Suc (Suc 0)) 0 = 1" "twiddle (Suc (Suc 0)) (- 1) = - 1" "twiddle (Suc (Suc 0)) 1 = - 1"
  using twiddle_2 by (simp_all add: numeral_2_eq_2)

lemma upt_2: "[0..<2] = [0, 1]"
  by (simp add: upt_rec)

lemma makeFROG_ex: "makeFROG [1, 2] 0 1 = Inr (Some ([[25, 0], [9, 0]], [[5, 0], [- 3, 0]]))"
  by (simp add: makeFROG_def Let_def outer_def antialias_time_def tril_def triu_def mat_sub_def
      nrows_def ncols_def mk_mat_def upt_2 roll_row_def roll1_def fliplr_def fftshift_axis1_def
      roll_axis1_def roll_axis0_def fft_axis0_def of_columns_def column_def dft_def
      abs_square_def twiddle_Suc_Suc_0 lessThan_Suc power2_eq_square)


subsection \<open>The round trip\<close>

text \<open>
  Claim C1, as amended. Let \<open>Pt\<close> be a field that is not identically zero, \<open>lastPt\<close> a
  previous field of the same length whose inner product \<open>c = \<Sum> cnj(Pt\<^sub>j) lastPt\<^sub>j\<close> with \<open>Pt\<close>
  is not zero, and let anti-aliasing be off. For \<open>domain\<close> 0 and 1 alike, \<open>makeFROG\<close> returns a
  pair \<open>(F, EF)\<close>, and \<open>guessPulse\<close> (power method) applied to \<open>EF\<close> returns the field
  \<open>(c/|c|) \<cdot> Pt / \<parallel>Pt\<parallel>\<close>: the field \<open>Pt\<close>, normalised, times the phase factor \<open>c/|c|\<close> of modulus 1.
  With \<open>lastPt = Pt\<close>, as in the solver's call, the factor is 1.
\<close>

theorem guessPulse_recovers_field:
  fixes Pt lastPt :: "complex list"
  defines "c \<equiv> \<Sum>j<length Pt. cnj (Pt ! j) * lastPt ! j"
  shows "np_norm Pt \<noteq> 0 \<and> length lastPt = length Pt \<and> c \<noteq> 0 \<and> (domain = 0 \<or> domain = 1) \<longrightarrow>
    cmod (sgn c) = 1 \<and> (lastPt = Pt \<longrightarrow> sgn c = 1) \<and>
    (\<exists>F EF. makeFROG Pt domain 0 = Inr (Some (F, EF)) \<and>
       guessPulse svd_u0 EF lastPt domain 0 0
         = Inr (Some (Field (map (\<lambda>z. sgn c * z / of_real (np_norm Pt)) Pt))))"
proof (intro impI)
  assume h: "np_norm Pt \<noteq> 0 \<and> length lastPt = length Pt \<and> c \<noteq> 0 \<and> (domain = 0 \<or> domain = 1)"
  then have nz: "np_norm Pt \<noteq> 0" and len: "length lastPt = length Pt" and c: "c \<noteq> 0"
    and d: "domain = 0 \<or> domain = 1" by simp_all
  have ne: "Pt \<noteq> []" using nz by (auto simp: np_norm_def)
  have 1: "cmod (sgn c) = 1" using c by (simp add: norm_sgn)
  have 2: "sgn c = 1" if "lastPt = Pt"
  proof -
    have "c = complex_of_real ((np_norm Pt)\<^sup>2)"
      unfolding c_def that by (rule norm_square_sum [symmetric])
    moreover have "0 < (np_norm Pt)\<^sup>2" using nz by simp
    ultimately show ?thesis using sgn_scale_pos [of "(np_norm Pt)\<^sup>2" 1] by simp
  qed
  have "\<exists>F EF. makeFROG Pt domain 0 = Inr (Some (F, EF))"
    using d
  proof
    assume "domain = 0"
    then show ?thesis using makeFROG_time_closed [OF ne, of 0] by blast
  next
    assume "domain = 1"
    then show ?thesis using makeFROG_freq_closed [OF ne, of 0] by blast
  qed
  then obtain F EF where mk: "makeFROG Pt domain 0 = Inr (Some (F, EF))" by blast
  have "guessPulse svd_u0 EF lastPt domain 0 0
         = Inr (Some (Field (map (\<lambda>z. sgn c * z / of_real (np_norm Pt)) Pt)))"
    using d
  proof
    assume "domain = 0"
    with mk show ?thesis
      using guessPulse_makeFROG_time [OF nz len c [unfolded c_def]] by (simp add: c_def)
  next
    assume "domain = 1"
    with mk show ?thesis
      using guessPulse_makeFROG_freq [OF nz len c [unfolded c_def]] by (simp add: c_def)
  qed
  with mk 1 2 show "cmod (sgn c) = 1 \<and> (lastPt = Pt \<longrightarrow> sgn c = 1) \<and>
    (\<exists>F EF. makeFROG Pt domain 0 = Inr (Some (F, EF)) \<and>
       guessPulse svd_u0 EF lastPt domain 0 0
         = Inr (Some (Field (map (\<lambda>z. sgn c * z / of_real (np_norm Pt)) Pt))))"
    by blast
qed

text \<open>The theorem at \<open>Pt = lastPt = [1, \<i>]\<close> in the frequency domain.\<close>

theorem guessPulse_recovers_field_witness:
  "np_norm [1, \<i>] \<noteq> 0 \<and>
   (\<exists>F EF. makeFROG [1, \<i>] 1 0 = Inr (Some (F, EF)) \<and>
       guessPulse (\<lambda>A. Inl LinAlgError) EF [1, \<i>] 1 0 0
         = Inr (Some (Field [1 / of_real (sqrt 2), \<i> / of_real (sqrt 2)])))"
proof -
  have n: "np_norm [1, \<i>] = sqrt 2" by (simp add: np_norm_def)
  show ?thesis
    using guessPulse_recovers_field [of "[1, \<i>]" "[1, \<i>]" 1 "\<lambda>A. Inl LinAlgError"]
    by (simp add: n lessThan_Suc sgn_eq)
qed

text \<open>
  Claim C1 as stated, with matching settings \<open>domain = 0\<close>, \<open>antialias = 1\<close>: for the field
  \<open>[1, 2]\<close> the mask leaves \<open>diag(1, 4)\<close> of the outer product, the power step from
  \<open>lastPt = [1, 2]\<close> gives \<open>[1, 32]\<close>, and the returned field \<open>[1, 32]/\<surd>1025\<close> is no multiple
  of \<open>[1, 2]\<close>.
\<close>

theorem guessPulse_antialias_counterexample:
  "makeFROG [1, 2] 0 1 = Inr (Some ([[25, 0], [9, 0]], [[5, 0], [- 3, 0]])) \<and>
   guessPulse (\<lambda>A. Inl LinAlgError) [[5, 0], [- 3, 0]] [1, 2] 0 1 0
     = Inr (Some (Field [1 / of_real (sqrt 1025), 32 / of_real (sqrt 1025)])) \<and>
   (\<forall>g. [1 / of_real (sqrt 1025), 32 / of_real (sqrt 1025)] \<noteq> map (\<lambda>z. g * z) [1, 2 :: complex])"
proof (intro conjI allI)
  show mk: "makeFROG [1, 2] 0 1 = Inr (Some ([[25, 0], [9, 0]], [[5, 0], [- 3, 0]]))"
    by (rule makeFROG_ex)
  have M: "antialias_time (Suc (Suc 0)) (outer [1, 2] [1, 2]) = [[1, 0], [0, 4]]"
    by (simp add: outer_def antialias_time_def tril_def triu_def mat_sub_def
      nrows_def ncols_def mk_mat_def upt_2)
  have M': "antialias_time (Suc (Suc 0)) [[1, 0], [0, 4]] = [[1, 0], [0, 4]]"
    by (simp add: antialias_time_def tril_def triu_def mat_sub_def
      nrows_def ncols_def mk_mat_def upt_2)
  have ps: "power_step [[1, 0], [0, 4]] [1, 2] = Inr [1, 32]"
    by (simp add: power_step_def matvec_def conj_transpose_def transpose_mat_def column_def
        ncols_def upt_2 lessThan_Suc)
  have n: "np_norm [1, 32] = sqrt 1025"
    by (simp add: np_norm_def)
  show "guessPulse (\<lambda>A. Inl LinAlgError) [[5, 0], [- 3, 0]] [1, 2] 0 1 0
     = Inr (Some (Field [1 / of_real (sqrt 1025), 32 / of_real (sqrt 1025)]))"
    using guessPulse_after_makeFROG_time [OF _ mk, of "\<lambda>A. Inl LinAlgError" "[1, 2]" 1 0]
    by (simp add: M M' ps normalize_field_def n)
  fix g :: complex
  show "[1 / of_real (sqrt 1025), 32 / of_real (sqrt 1025)] \<noteq> map (\<lambda>z. g * z) [1, 2 :: complex]"
  proof
    assume "[1 / of_real (sqrt 1025), 32 / of_real (sqrt 1025)] = map (\<lambda>z. g * z) [1, 2 :: complex]"
    then have "g = 1 / of_real (sqrt 1025)" "g * 2 = 32 / of_real (sqrt 1025)" by simp_all
    then show False by simp
  qed
qed

subsection \<open>The norm of the field returned by \<open>guessPulse\<close>\<close>

lemma guessPulse_result_normalized:
  assumes "guessPulse svd_u0 EF lastPt domain antialias meth = Inr (Some r)"
  shows "\<exists>Pt. r = normalize_field Pt"
  using assms unfolding guessPulse_def Let_def
  by (auto split: if_splits sum.splits)

lemma normalize_field_cases:
  "(np_norm Pt = 0 \<longrightarrow> normalize_field Pt = NaNField (length Pt) \<and> (\<forall>z\<in>set Pt. z = 0)) \<and>
   (np_norm Pt \<noteq> 0 \<longrightarrow> (\<exists>v. normalize_field Pt = Field v \<and> np_norm v = 1))"
  by (simp add: normalize_field_def np_norm_normalized np_norm_eq_0_iff)

text \<open>
  On the zero matrix \<open>[[0]]\<close> the power step gives the estimate \<open>[0]\<close>, whose norm is 0;
  the division \<open>Pt / np.linalg.norm(Pt)\<close> has no guard, and \<open>guessPulse\<close> returns
  \<open>[nan+nanj]\<close>. On \<open>[[2]]\<close> the estimate is \<open>[2]\<close> and the value returned is \<open>[1]\<close>.
\<close>

lemma guessPulse_zero_ex:
  "guessPulse (\<lambda>A. Inl LinAlgError) [[0]] [1] 0 0 0 = Inr (Some (NaNField 1))"
  by (simp add: guessPulse_def Let_def roll_axis0_def roll1_def ifft_axis0_def nrows_def ncols_def
      of_columns_def column_def idft_def fliplr_def ifftshift_axis1_def roll_axis1_def roll_row_def
      power_step_def matvec_def conj_transpose_def transpose_mat_def normalize_field_def np_norm_def)

lemma guessPulse_ex2:
  "guessPulse (\<lambda>A. Inl LinAlgError) [[2]] [1] 0 0 0 = Inr (Some (Field [1]))"
  by (simp add: guessPulse_def Let_def roll_axis0_def roll1_def ifft_axis0_def nrows_def ncols_def
      of_columns_def column_def idft_def fliplr_def ifftshift_axis1_def roll_axis1_def roll_row_def
      power_step_def matvec_def conj_transpose_def transpose_mat_def normalize_field_def np_norm_def)

subsection \<open>A run with \<open>max_iter = 0\<close>\<close>

lemma gp_loop_exit:
  "\<not> (np_gt (cur_G s) (Fin (GTol self)) \<and> iteration s < max_iter self) \<Longrightarrow>
     gp_loop svd_u0 self Fm N s = Returns s"
  by (subst gp_loop.simps) auto

lemma gp_init_state:
  assumes "gp_init self file_Fm rand Fm_arg dtperpx_arg units_arg = Inr (Fm, N, s0)"
  shows "iteration s0 = 0 \<and> cur_Pt s0 = initial_guess self N rand"
  using assms unfolding gp_init_def Let_def
  by (auto split: if_splits sum.splits option.splits prod.splits)

text \<open>
  Claim C6. When the steps before the loop have succeeded with an initial error
  \<open>G > GTol\<close> and \<open>max_iter = 0\<close>, \<open>retrievePhase\<close> ends with the very state it had at the
  loop head: the loop body, and with it the amplitude replacement, is not run
  (\<open>iteration\<close> stays 0), the field is the initial guess derived from the seed, and the
  run has ended on the iteration cap with the error above the tolerance
  (\<open>MAX_ITER_REACHED\<close>).
\<close>

theorem retrievePhase_max_iter_zero:
  "gp_init self file_Fm rand Fm_arg dtperpx_arg units_arg = Inr (Fm, N, s0) \<and>
   np_gt (cur_G s0) (Fin (GTol self)) \<and> max_iter self = 0 \<longrightarrow>
     retrievePhase svd_u0 self file_Fm rand Fm_arg dtperpx_arg units_arg = Returns s0 \<and>
     iteration s0 = 0 \<and> cur_Pt s0 = initial_guess self N rand \<and>
     terminal_status self s0 = Some MAX_ITER_REACHED"
proof
  assume h: "gp_init self file_Fm rand Fm_arg dtperpx_arg units_arg = Inr (Fm, N, s0) \<and>
   np_gt (cur_G s0) (Fin (GTol self)) \<and> max_iter self = 0"
  then have init: "gp_init self file_Fm rand Fm_arg dtperpx_arg units_arg = Inr (Fm, N, s0)"
    and G: "np_gt (cur_G s0) (Fin (GTol self))" and m: "max_iter self = 0" by simp_all
  have st: "iteration s0 = 0" "cur_Pt s0 = initial_guess self N rand"
    using gp_init_state [OF init] by simp_all
  have "gp_loop svd_u0 self Fm N s0 = Returns s0"
    by (rule gp_loop_exit) (simp add: st m)
  then have "retrievePhase svd_u0 self file_Fm rand Fm_arg dtperpx_arg units_arg = Returns s0"
    by (simp add: retrievePhase_def init)
  moreover have "terminal_status self s0 = Some MAX_ITER_REACHED"
    using G by (simp add: terminal_status_def st m)
  ultimately show "retrievePhase svd_u0 self file_Fm rand Fm_arg dtperpx_arg units_arg = Returns s0 \<and>
     iteration s0 = 0 \<and> cur_Pt s0 = initial_guess self N rand \<and>
     terminal_status self s0 = Some MAX_ITER_REACHED"
    using st by simp
qed

lemma makeFROG_ex10: "makeFROG [1, 0] 0 0 = Inr (Some ([[1, 0], [1, 0]], [[1, 0], [1, 0]]))"
  by (simp add: makeFROG_def Let_def outer_def
      nrows_def ncols_def mk_mat_def upt_2 roll_row_def roll1_def fliplr_def fftshift_axis1_def
      roll_axis1_def roll_axis0_def fft_axis0_def of_columns_def column_def dft_def
      abs_square_def twiddle_Suc_Suc_0 lessThan_Suc power2_eq_square)

lemma normalize_ex: "normalize_max_one [[1, 0], [0, 0]] = Inr [[Fin 1, Fin 0], [Fin 0, Fin 0]]"
  by (simp add: normalize_max_one_def amax_def)

lemma scale_and_error_ex:
  "scale_and_error [[Fin 1, Fin 0], [Fin 0, Fin 0]] [[1, 0], [1, 0]]
     = Inr ([[Fin (1/2), Fin 0], [Fin (1/2), Fin 0]], Fin (sqrt (1/8)))"
  by (simp add: scale_and_error_def calc_alpha_def rms_diff_def broadcast2_def broadcastable_def
      nrows_def ncols_def fin_mat_def mk_mat_def upt_2 bdim_def bidx_def np_sum_def np_square_def
      np_mean_def np_sub_def Let_def power2_eq_square)

lemma gp_init_ex:
  "gp_init \<lparr>max_iter = 0, GTol = 1/1000, seed = Some [1, 0], makeFROGdomain = 0,
     makeFROGantialias = 0, guesspulsedomain = 0, guesspulseantialias = 0,
     self_dtperpx = 1, self_Fm = []\<rparr> [] [] (Some [[1, 0], [0, 0]]) None None
   = Inr ([[Fin 1, Fin 0], [Fin 0, Fin 0]], 2,
          \<lparr>cur_Pt = [1, 0], cur_Fr = [[Fin (1/2), Fin 0], [Fin (1/2), Fin 0]],
           cur_EFr = [[1, 0], [1, 0]], cur_G = Fin (sqrt (1/8)), iteration = 0\<rparr>)"
  by (simp add: gp_init_def Let_def initial_guess_def normalize_ex make_trace_def makeFROG_ex10
      scale_and_error_ex)

lemma sqrt_eighth_gt: "1 / 1000 < sqrt (1 / 8)"
  by (rule real_less_rsqrt) (simp add: power2_eq_square)

text \<open>
  A run on the trace \<open>[[1, 0], [0, 0]]\<close> from the seed \<open>[1, 0]\<close> with \<open>max_iter = 0\<close>.
\<close>

theorem retrievePhase_max_iter_zero_witness:
  "retrievePhase (\<lambda>A. Inl LinAlgError)
     \<lparr>max_iter = 0, GTol = 1/1000, seed = Some [1, 0], makeFROGdomain = 0,
      makeFROGantialias = 0, guesspulsedomain = 0, guesspulseantialias = 0,
      self_dtperpx = 1, self_Fm = []\<rparr> [] [] (Some [[1, 0], [0, 0]]) None None
   = Returns \<lparr>cur_Pt = [1, 0], cur_Fr = [[Fin (1/2), Fin 0], [Fin (1/2), Fin 0]],
           cur_EFr = [[1, 0], [1, 0]], cur_G = Fin (sqrt (1/8)), iteration = 0\<rparr>
   \<and> terminal_status
     \<lparr>max_iter = 0, GTol = 1/1000, seed = Some [1, 0], makeFROGdomain = 0,
      makeFROGantialias = 0, guesspulsedomain = 0, guesspulseantialias = 0,
      self_dtperpx = 1, self_Fm = []\<rparr>
     \<lparr>cur_Pt = [1, 0], cur_Fr = [[Fin (1/2), Fin 0], [Fin (1/2), Fin 0]],
           cur_EFr = [[1, 0], [1, 0]], cur_G = Fin (sqrt (1/8)), iteration = 0\<rparr>
     = Some MAX_ITER_REACHED"
  using retrievePhase_max_iter_zero
      [of "\<lparr>max_iter = 0, GTol = 1/1000, seed = Some [1, 0], makeFROGdomain = 0,
            makeFROGantialias = 0, guesspulsedomain = 0, guesspulseantialias = 0,
            self_dtperpx = 1, self_Fm = []\<rparr>" "[]" "[]" "Some [[1, 0], [0, 0]]" None None
          "[[Fin 1, Fin 0], [Fin 0, Fin 0]]" 2
          "\<lparr>cur_Pt = [1, 0], cur_Fr = [[Fin (1/2), Fin 0], [Fin (1/2), Fin 0]],
            cur_EFr = [[1, 0], [1, 0]], cur_G = Fin (sqrt (1/8)), iteration = 0\<rparr>"
          "\<lambda>A. Inl LinAlgError"]
    gp_init_ex sqrt_eighth_gt
  by simp

subsection \<open>The data-consistency update\<close>

lemma makeFROG_Some_nonempty:
  assumes "makeFROG Pt d a = Inr (Some (F, EF))"
  shows "Pt \<noteq> [] \<and> (d = 0 \<or> d = 1)"
proof -
  have d: "d = 0 \<or> d = 1"
    using assms unfolding makeFROG_def Let_def by (auto split: if_splits)
  have "Pt \<noteq> []"
  proof
    assume "Pt = []"
    have 0: "makeFROG [] 0 a = Inl ValueError"
      by (simp add: makeFROG_def Let_def outer_def antialias_time_def mat_sub_def
          tril_def triu_def nrows_def ncols_def mk_mat_def fliplr_def fftshift_axis1_def
          roll_axis1_def fft_axis0_def)
    have 1: "makeFROG [] 1 a = Inl ValueError"
      by (simp add: makeFROG_def fft_def)
    from d \<open>Pt = []\<close> 0 1 have "makeFROG Pt d a = Inl ValueError" by auto
    with assms show False by simp
  qed
  with d show ?thesis by simp
qed

lemma makeFROG_Some_entries:
  assumes "makeFROG Pt d a = Inr (Some (F, EF))"
  shows "\<exists>e. EF = mk_mat (length Pt) (length Pt) e \<and>
             F = mk_mat (length Pt) (length Pt) (\<lambda>i j. (cmod (e i j))\<^sup>2) \<and> 0 < length Pt"
proof -
  from makeFROG_Some_nonempty [OF assms] have ne: "Pt \<noteq> []" and d: "d = 0 \<or> d = 1" by simp_all
  have "\<exists>e. makeFROG Pt d a
      = Inr (Some (abs_square (mk_mat (length Pt) (length Pt) e), mk_mat (length Pt) (length Pt) e))"
    using d
  proof
    assume "d = 0"
    then show ?thesis using makeFROG_time_closed [OF ne, of a] by blast
  next
    assume "d = 1"
    then show ?thesis using makeFROG_freq_closed [OF ne, of a] by blast
  qed
  then obtain e where "makeFROG Pt d a
      = Inr (Some (abs_square (mk_mat (length Pt) (length Pt) e), mk_mat (length Pt) (length Pt) e))"
    by blast
  with assms have "EF = mk_mat (length Pt) (length Pt) e" "F = abs_square (mk_mat (length Pt) (length Pt) e)"
    by auto
  then show ?thesis using ne by (auto simp: abs_square_mk_mat)
qed

lemma is_array_mk_mat [simp]: "is_array (mk_mat r c f)"
  by (cases "r = 0") (simp add: is_array_def mk_mat_def, simp add: is_array_def list_all_length)

lemma shape_mk_mat [simp]: "0 < r \<Longrightarrow> shape (mk_mat r c f) = (r, c)"
  by (simp add: shape_def)

lemma np_sum_NaN: "NaN \<in> set xs \<Longrightarrow> np_sum xs = NaN"
proof (induction xs)
  case (Cons x xs)
  show ?case
  proof (cases "x = NaN")
    case True then show ?thesis by (simp add: np_sum_def)
  next
    case False
    with Cons have "np_sum xs = NaN" by simp
    then show ?thesis by (cases x) (simp_all add: np_sum_def)
  qed
qed simp

lemma concat_mk_mat_const:
  "0 < r \<Longrightarrow> 0 < c \<Longrightarrow> set (concat (mk_mat r c (\<lambda>i j. x))) = {x}"
  by (auto simp: mk_mat_def)


lemma broadcast2_mk_mat:
  "0 < r \<Longrightarrow> broadcast2 f (mk_mat r c a) (mk_mat r c b) = Inr (mk_mat r c (\<lambda>i j. f (a i j) (b i j)))"
  by (simp add: broadcast2_same_shape) (rule mk_mat_cong, simp)

lemma fin_mat_array:
  assumes "is_array A" "shape A = (r, c)"
  shows "fin_mat A = mk_mat r c (\<lambda>i j. Fin (A ! i ! j))"
proof -
  from assms(2) have "nrows A = r" "ncols A = c" by (simp_all add: shape_def)
  then have "A = mk_mat r c (\<lambda>i j. A ! i ! j)" using mk_mat_self [OF assms(1)] by simp
  then have "fin_mat A = fin_mat (mk_mat r c (\<lambda>i j. A ! i ! j))" by simp
  then show ?thesis by (simp only: fin_mat_mk_mat)
qed

lemma map_map_mk_mat: "map (map h) (mk_mat r c g) = mk_mat r c (\<lambda>i j. h (g i j))"
  by (simp add: mk_mat_def)

lemma np_sum_const_NaN: "0 < r \<Longrightarrow> 0 < c \<Longrightarrow> np_sum (concat (mk_mat r c (\<lambda>i j. NaN))) = NaN"
  by (rule np_sum_NaN) (simp only: concat_mk_mat_const insertI1)

lemma rms_diff_NaN:
  assumes "0 < r" "0 < c"
  shows "rms_diff (mk_mat r c a) (mk_mat r c (\<lambda>i j. NaN)) = Inr NaN"
proof -
  have "map np_square (concat (mk_mat r c (\<lambda>i j. np_sub (a i j) NaN)))
      = concat (mk_mat r c (\<lambda>i j. NaN))"
  proof -
    have "np_square (np_sub x NaN) = NaN" for x
      by (cases x) (simp_all add: np_square_def np_sub_def)
    then show ?thesis by (simp add: concat_mk_mat_map)
  qed
  then show ?thesis
    using assms by (simp add: rms_diff_def broadcast2_mk_mat np_mean_def np_sum_const_NaN)
qed

lemma scale_and_error_finite:
  fixes Fm :: "real matrix"
  assumes A: "is_array Fm" and s: "shape Fm = (N, N)" and N: "0 < N"
    and Fm0: "\<forall>i<N. \<forall>j<N. 0 \<le> Fm ! i ! j" and f0: "\<forall>i<N. \<forall>j<N. 0 \<le> f i j"
    and sc: "scale_and_error (fin_mat Fm) (mk_mat N N f) = Inr (Fr, G)"
    and G: "np_gt G (Fin tol)"
  shows "\<exists>a. 0 \<le> a \<and> calc_alpha (fin_mat Fm) (fin_mat (mk_mat N N f)) = Inr (Fin a)
            \<and> Fr = mk_mat N N (\<lambda>i j. Fin (f i j * a))"
proof -
  let ?F = "mk_mat N N f"
  let ?Smf = "\<Sum>i<N. \<Sum>j<N. Fm ! i ! j * f i j"
  let ?Sff = "\<Sum>i<N. \<Sum>j<N. (f i j)\<^sup>2"
  from s have r: "nrows Fm = N" "ncols Fm = N" by (simp_all add: shape_def)
  have sF: "shape Fm = shape ?F" using s N by simp
  have ca: "calc_alpha (fin_mat Fm) (fin_mat ?F) = Inr (np_div (Fin ?Smf) (Fin ?Sff))"
    by (simp add: calc_alpha_fin [OF A is_array_mk_mat sF] r)
  have Fm: "fin_mat Fm = mk_mat N N (\<lambda>i j. Fin (Fm ! i ! j))"
    by (rule fin_mat_array [OF A s])
  show ?thesis
  proof (cases "?Sff = 0")
    case True
    then have z: "\<forall>i<N. \<forall>j<N. f i j = 0"
      by (auto simp: sum_nonneg_eq_0_iff sum_nonneg)
    then have "?Smf = 0" by simp
    with True have alpha: "calc_alpha (fin_mat Fm) (fin_mat ?F) = Inr NaN"
      by (simp add: ca inf_of_sign_def)
    have mm: "map (map (\<lambda>x. np_mul (Fin x) NaN)) ?F = mk_mat N N (\<lambda>i j. NaN)"
      by (simp add: map_map_mk_mat)
    have "scale_and_error (fin_mat Fm) ?F = Inr (mk_mat N N (\<lambda>i j. NaN), NaN)"
      by (simp only: scale_and_error_def alpha sum.case Let_def mm)
         (simp only: Fm rms_diff_NaN [OF N N] sum.case)
    with sc have "G = NaN" by simp
    with G show ?thesis by simp
  next
    case False
    let ?a = "?Smf / ?Sff"
    have alpha: "calc_alpha (fin_mat Fm) (fin_mat ?F) = Inr (Fin ?a)"
      using False by (simp add: ca)
    have "0 \<le> ?Smf" using Fm0 f0 by (intro sum_nonneg) simp
    moreover have "0 \<le> ?Sff" by (intro sum_nonneg) simp
    ultimately have a: "0 \<le> ?a" by simp
    have Fr': "map (map (\<lambda>x. np_mul (Fin x) (Fin ?a))) ?F = mk_mat N N (\<lambda>i j. Fin (f i j * ?a))"
      by (simp add: map_map_mk_mat)
    have "scale_and_error (fin_mat Fm) ?F
        = (case rms_diff (fin_mat Fm) (mk_mat N N (\<lambda>i j. Fin (f i j * ?a))) of
             Inl e \<Rightarrow> Inl e | Inr G \<Rightarrow> Inr (mk_mat N N (\<lambda>i j. Fin (f i j * ?a)), G))"
      by (simp only: scale_and_error_def alpha sum.case Let_def Fr')
    with sc have "Fr = mk_mat N N (\<lambda>i j. Fin (f i j * ?a))"
      by (auto split: sum.splits)
    with a alpha show ?thesis by blast
  qed
qed

lemma scale_entry_guarded:
  fixes e :: complex and m a :: real
  assumes "0 \<le> m" "0 \<le> a"
  defines "fr \<equiv> (cmod e)\<^sup>2 * a"
  shows "\<exists>z. scale_entry e (guarded_quotient (Fin m) (Fin fr)) = Some z \<and>
     (fr = 0 \<longrightarrow> z = 0) \<and> (fr \<noteq> 0 \<longrightarrow> cmod z = sqrt (m / a)) \<and>
     (z \<noteq> 0 \<longrightarrow> sgn z = sgn e)"
proof (cases "fr = 0")
  case True
  then show ?thesis by (simp add: scale_entry_def guarded_quotient_def)
next
  case False
  then have e: "e \<noteq> 0" and a: "0 < a" using assms(2) by (auto simp: fr_def less_le)
  have fr: "0 < fr" using e a by (simp add: fr_def)
  have q: "0 \<le> m / fr" using assms(1) fr by simp
  let ?z = "e * of_real (sqrt (m / fr))"
  have 1: "scale_entry e (guarded_quotient (Fin m) (Fin fr)) = Some ?z"
    using False q by (simp add: scale_entry_def guarded_quotient_def)
  have "cmod ?z = cmod e * sqrt (m / fr)"
    using q by (simp add: norm_mult)
  also have "\<dots> = sqrt ((cmod e)\<^sup>2 * (m / fr))"
    by (simp only: real_sqrt_mult real_sqrt_abs abs_norm_cancel)
  also have "(cmod e)\<^sup>2 * (m / fr) = m / a"
    using e a by (simp add: fr_def)
  finally have 2: "cmod ?z = sqrt (m / a)" .
  have 3: "sgn ?z = sgn e" if "?z \<noteq> 0"
  proof -
    from that have "sqrt (m / fr) \<noteq> 0" by auto
    with q have "0 < sqrt (m / fr)" by (simp add: less_le)
    then show ?thesis
      using sgn_scale_pos [of "sqrt (m / fr)" e] by (simp add: mult.commute)
  qed
  from 1 2 3 False show ?thesis by blast
qed


lemma gp_project_mk_mat:
  assumes A: "is_array Fm" and s: "shape Fm = (N, N)" and N: "0 < N"
  shows "gp_project (mk_mat N N e) (fin_mat Fm) (mk_mat N N fr)
     = Inr (mk_mat N N (\<lambda>i j. scale_entry (e i j) (guarded_quotient (Fin (Fm ! i ! j)) (fr i j))))"
proof -
  have Fm: "fin_mat Fm = mk_mat N N (\<lambda>i j. Fin (Fm ! i ! j))"
    by (rule fin_mat_array [OF A s])
  show ?thesis
    unfolding gp_project_def Fm
    using N by (simp add: broadcast2_mk_mat)
qed

text \<open>
  Claim C3, as amended. Take a finite, nonnegative \<open>N\<times>N\<close> trace \<open>Fm\<close> and the values
  \<open>(Fr, EFr, G)\<close> that the solver holds at the loop head, \<open>G > GTol\<close>. Then \<open>Fr\<close> is the
  trace \<open>|EFr|\<^sup>2\<close> scaled by the finite factor \<open>alpha \<ge> 0\<close> of \<open>calc_alpha\<close>, the update
  \<open>EFr * sqrt(Fm/Fr)\<close> yields a finite matrix, and at every entry: where \<open>Fr\<close> is nonzero
  the new amplitude is \<open>\<surd>(Fm[i,j] / alpha)\<close>, so \<open>\<surd>Fm[i,j]\<close> up to the factor \<open>1/\<surd>alpha\<close>
  common to all entries; where \<open>Fr\<close> is zero the new entry is zero; and a nonzero new
  entry has the phase of the old one.
\<close>

theorem gp_project_amplitude:
  "is_array Fm \<and> shape Fm = (length Pt, length Pt) \<and>
   (\<forall>i<length Pt. \<forall>j<length Pt. 0 \<le> Fm ! i ! j) \<and>
   make_trace self (fin_mat Fm) Pt = Inr (Fr, EFr, G) \<and> np_gt G (Fin (GTol self)) \<longrightarrow>
   (\<exists>alpha Q. 0 \<le> alpha \<and>
      calc_alpha (fin_mat Fm) (fin_mat (abs_square EFr)) = Inr (Fin alpha) \<and>
      gp_project EFr (fin_mat Fm) Fr = Inr Q \<and>
      (\<forall>i<length Pt. \<forall>j<length Pt.
         Fr ! i ! j = Fin ((cmod (EFr ! i ! j))\<^sup>2 * alpha) \<and>
         (\<exists>z. Q ! i ! j = Some z \<and>
              (Fr ! i ! j = Fin 0 \<longrightarrow> z = 0) \<and>
              (Fr ! i ! j \<noteq> Fin 0 \<longrightarrow> cmod z = sqrt (Fm ! i ! j / alpha)) \<and>
              (z \<noteq> 0 \<longrightarrow> sgn z = sgn (EFr ! i ! j)))))"
proof
  let ?N = "length Pt"
  assume h: "is_array Fm \<and> shape Fm = (?N, ?N) \<and>
   (\<forall>i<?N. \<forall>j<?N. 0 \<le> Fm ! i ! j) \<and>
   make_trace self (fin_mat Fm) Pt = Inr (Fr, EFr, G) \<and> np_gt G (Fin (GTol self))"
  then have A: "is_array Fm" and s: "shape Fm = (?N, ?N)"
    and Fm0: "\<forall>i<?N. \<forall>j<?N. 0 \<le> Fm ! i ! j"
    and mt: "make_trace self (fin_mat Fm) Pt = Inr (Fr, EFr, G)"
    and G: "np_gt G (Fin (GTol self))" by simp_all
  from mt obtain F where mk: "makeFROG Pt (makeFROGdomain self) (makeFROGantialias self) = Inr (Some (F, EFr))"
    and sc: "scale_and_error (fin_mat Fm) F = Inr (Fr, G)"
    unfolding make_trace_def by (auto split: sum.splits option.splits prod.splits)
  from makeFROG_Some_entries [OF mk] obtain e where EFr: "EFr = mk_mat ?N ?N e"
    and F: "F = mk_mat ?N ?N (\<lambda>i j. (cmod (e i j))\<^sup>2)" and N: "0 < ?N" by blast
  have F': "abs_square EFr = F" by (simp add: EFr F abs_square_mk_mat)
  obtain a where a: "0 \<le> a"
    and ca: "calc_alpha (fin_mat Fm) (fin_mat F) = Inr (Fin a)"
    and Fr: "Fr = mk_mat ?N ?N (\<lambda>i j. Fin ((cmod (e i j))\<^sup>2 * a))"
    using scale_and_error_finite [OF A s N Fm0 _ sc [unfolded F] G] unfolding F by auto
  let ?Q = "mk_mat ?N ?N (\<lambda>i j. scale_entry (e i j)
              (guarded_quotient (Fin (Fm ! i ! j)) (Fin ((cmod (e i j))\<^sup>2 * a))))"
  have gp: "gp_project EFr (fin_mat Fm) Fr = Inr ?Q"
    unfolding EFr Fr by (rule gp_project_mk_mat [OF A s N])
  have "Fr ! i ! j = Fin ((cmod (EFr ! i ! j))\<^sup>2 * a) \<and>
         (\<exists>z. ?Q ! i ! j = Some z \<and>
              (Fr ! i ! j = Fin 0 \<longrightarrow> z = 0) \<and>
              (Fr ! i ! j \<noteq> Fin 0 \<longrightarrow> cmod z = sqrt (Fm ! i ! j / a)) \<and>
              (z \<noteq> 0 \<longrightarrow> sgn z = sgn (EFr ! i ! j)))" if "i < ?N" "j < ?N" for i j
    using that Fm0 scale_entry_guarded [of "Fm ! i ! j" a "e i j"] a
    by (simp add: EFr Fr)
  with a ca gp show "\<exists>alpha Q. 0 \<le> alpha \<and>
      calc_alpha (fin_mat Fm) (fin_mat (abs_square EFr)) = Inr (Fin alpha) \<and>
      gp_project EFr (fin_mat Fm) Fr = Inr Q \<and>
      (\<forall>i<length Pt. \<forall>j<length Pt.
         Fr ! i ! j = Fin ((cmod (EFr ! i ! j))\<^sup>2 * alpha) \<and>
         (\<exists>z. Q ! i ! j = Some z \<and>
              (Fr ! i ! j = Fin 0 \<longrightarrow> z = 0) \<and>
              (Fr ! i ! j \<noteq> Fin 0 \<longrightarrow> cmod z = sqrt (Fm ! i ! j / alpha)) \<and>
              (z \<noteq> 0 \<longrightarrow> sgn z = sgn (EFr ! i ! j))))"
    unfolding F' by blast
qed

lemma make_trace_ex:
  "make_trace \<lparr>max_iter = 1, GTol = 1/1000, seed = Some [1, 0], makeFROGdomain = 0,
      makeFROGantialias = 0, guesspulsedomain = 0, guesspulseantialias = 0,
      self_dtperpx = 1, self_Fm = []\<rparr> (fin_mat [[1, 0], [0, 0]]) [1, 0]
   = Inr ([[Fin (1/2), Fin 0], [Fin (1/2), Fin 0]], [[1, 0], [1, 0]], Fin (sqrt (1/8)))"
  using scale_and_error_ex by (simp add: make_trace_def makeFROG_ex10 fin_mat_def)

lemma gp_project_ex:
  "gp_project [[1, 0], [1, 0]] (fin_mat [[1, 0], [0, 0]]) [[Fin (1/2), Fin 0], [Fin (1/2), Fin 0]]
   = Inr [[Some (complex_of_real (sqrt 2)), Some 0], [Some 0, Some 0]]"
  by (simp add: gp_project_def broadcast2_def broadcastable_def nrows_def ncols_def fin_mat_def
      mk_mat_def upt_2 bdim_def bidx_def shape_def guarded_quotient_def scale_entry_def)

text \<open>
  Claim C3 as stated. From the seed \<open>[1, 0]\<close> and the trace \<open>[[1, 0], [0, 0]]\<close> the solver
  reaches the loop with \<open>EFr = [[1, 0], [1, 0]]\<close>, \<open>alpha = 1/2\<close>, \<open>Fr = [[1/2, 0], [1/2, 0]]\<close>,
  \<open>G = \<surd>(1/8) > GTol\<close>. The update gives the entry \<open>\<surd>2\<close> at \<open>(0, 0)\<close>, where \<open>Fr\<close> is nonzero
  and \<open>\<surd>Fm[0,0] = 1\<close>.
\<close>

theorem gp_project_amplitude_counterexample:
  "make_trace \<lparr>max_iter = 1, GTol = 1/1000, seed = Some [1, 0], makeFROGdomain = 0,
      makeFROGantialias = 0, guesspulsedomain = 0, guesspulseantialias = 0,
      self_dtperpx = 1, self_Fm = []\<rparr> (fin_mat [[1, 0], [0, 0]]) [1, 0]
     = Inr ([[Fin (1/2), Fin 0], [Fin (1/2), Fin 0]], [[1, 0], [1, 0]], Fin (sqrt (1/8))) \<and>
   np_gt (Fin (sqrt (1/8))) (Fin (1/1000)) \<and>
   gp_project [[1, 0], [1, 0]] (fin_mat [[1, 0], [0, 0]]) [[Fin (1/2), Fin 0], [Fin (1/2), Fin 0]]
     = Inr [[Some (complex_of_real (sqrt 2)), Some 0], [Some 0, Some 0]] \<and>
   [[Fin (1/2), Fin 0], [Fin (1/2), Fin 0]] ! 0 ! 0 \<noteq> Fin 0 \<and>
   cmod (complex_of_real (sqrt 2)) \<noteq> sqrt ([[1, 0], [0, 0 :: real]] ! 0 ! 0)"
  using make_trace_ex gp_project_ex sqrt_eighth_gt by simp


text \<open>The theorem at the same state.\<close>

theorem gp_project_amplitude_witness:
  "\<exists>alpha Q. 0 \<le> alpha \<and>
      calc_alpha (fin_mat [[1, 0], [0, 0]]) (fin_mat (abs_square [[1, 0], [1, 0]])) = Inr (Fin alpha) \<and>
      gp_project [[1, 0], [1, 0]] (fin_mat [[1, 0], [0, 0]]) [[Fin (1/2), Fin 0], [Fin (1/2), Fin 0]]
        = Inr Q \<and>
      (\<forall>i<length [1, 0 :: complex]. \<forall>j<length [1, 0 :: complex].
         [[Fin (1/2), Fin 0], [Fin (1/2), Fin 0]] ! i ! j
           = Fin ((cmod ([[1, 0], [1, 0]] ! i ! j))\<^sup>2 * alpha) \<and>
         (\<exists>z. Q ! i ! j = Some z \<and>
              ([[Fin (1/2), Fin 0], [Fin (1/2), Fin 0]] ! i ! j = Fin 0 \<longrightarrow> z = 0) \<and>
              ([[Fin (1/2), Fin 0], [Fin (1/2), Fin 0]] ! i ! j \<noteq> Fin 0
                 \<longrightarrow> cmod z = sqrt ([[1, 0], [0, 0]] ! i ! j / alpha)) \<and>
              (z \<noteq> 0 \<longrightarrow> sgn z = sgn ([[1, 0], [1, 0]] ! i ! j))))"
proof -
  let ?self = "\<lparr>max_iter = 1, GTol = 1/1000, seed = Some [1, 0], makeFROGdomain = 0,
      makeFROGantialias = 0, guesspulsedomain = 0, guesspulseantialias = 0,
      self_dtperpx = 1, self_Fm = []\<rparr>"
  have "is_array [[1, 0], [0, 0 :: real]] \<and>
     shape [[1, 0], [0, 0 :: real]] = (length [1, 0 :: complex], length [1, 0 :: complex]) \<and>
     (\<forall>i<length [1, 0 :: complex]. \<forall>j<length [1, 0 :: complex]. 0 \<le> [[1, 0], [0, 0 :: real]] ! i ! j) \<and>
     make_trace ?self (fin_mat [[1, 0], [0, 0]]) [1, 0]
       = Inr ([[Fin (1/2), Fin 0], [Fin (1/2), Fin 0]], [[1, 0], [1, 0]], Fin (sqrt (1/8))) \<and>
     np_gt (Fin (sqrt (1/8))) (Fin (GTol ?self))"
    using make_trace_ex sqrt_eighth_gt
    by (auto simp: is_array_def shape_def nrows_def ncols_def less_Suc_eq)
  then show ?thesis
    by (rule gp_project_amplitude [THEN mp])
qed

subsection \<open>Normalising an all-zero trace\<close>

lemma fold_max_zero: "(\<forall>x\<in>set xs. x = (0::real)) \<Longrightarrow> fold max xs 0 = 0"
  by (induction xs) simp_all

lemma amax_zero:
  assumes "0 < N"
  shows "amax (mk_mat N N (\<lambda>i j. 0)) = Inr 0"
proof -
  have s: "set (concat (mk_mat N N (\<lambda>i j. 0::real))) = {0}"
    by (rule concat_mk_mat_const [OF assms assms])
  then obtain y ys where c: "concat (mk_mat N N (\<lambda>i j. 0::real)) = y # ys"
    by (cases "concat (mk_mat N N (\<lambda>i j. 0::real))") auto
  with s have "y = 0" "\<forall>x\<in>set ys. x = 0" by auto
  then show ?thesis by (simp add: amax_def c fold_max_zero)
qed

lemma normalize_zero:
  assumes "0 < N"
  shows "normalize_max_one (mk_mat N N (\<lambda>i j. 0)) = Inr (mk_mat N N (\<lambda>i j. NaN))"
  by (simp add: normalize_max_one_def amax_zero [OF assms] map_map_mk_mat inf_of_sign_def)

lemma scale_and_error_NaN:
  assumes N: "0 < N"
  shows "scale_and_error (mk_mat N N (\<lambda>i j. NaN)) (mk_mat N N f) = Inr (mk_mat N N (\<lambda>i j. NaN), NaN)"
proof -
  have "calc_alpha (mk_mat N N (\<lambda>i j. NaN)) (fin_mat (mk_mat N N f)) = Inr NaN"
    using N by (simp add: calc_alpha_def fin_mat_mk_mat broadcast2_mk_mat np_sum_const_NaN)
  then show ?thesis
    by (simp add: scale_and_error_def map_map_mk_mat rms_diff_NaN [OF N N])
qed

lemma array_const:
  assumes "is_array A" "shape A = (r, c)" "\<forall>i<r. \<forall>j<c. A ! i ! j = x"
  shows "A = mk_mat r c (\<lambda>i j. x)"
proof -
  from assms(2) have "nrows A = r" "ncols A = c" by (simp_all add: shape_def)
  then have "A = mk_mat r c (\<lambda>i j. A ! i ! j)" using mk_mat_self [OF assms(1)] by simp
  also have "\<dots> = mk_mat r c (\<lambda>i j. x)"
    by (rule mk_mat_cong) (simp add: assms(3))
  finally show ?thesis .
qed

text \<open>
  On an \<open>N\<times>N\<close> trace whose entries are all zero, \<open>normalize_max_one\<close> returns the array
  whose entries are all \<open>nan\<close> (\<open>0/0\<close>), and a call of \<open>retrievePhase\<close> with such a trace, a
  usable initial guess, a known domain and a nonzero time step ends after no iteration:
  \<open>alpha\<close> and \<open>G\<close> are \<open>nan\<close> and the loop test \<open>G > GTol\<close> is false.
\<close>

lemma normalize_all_zero_propagates_nan:
  "is_array Fm \<and> shape Fm = (N, N) \<and> 0 < N \<and> (\<forall>i<N. \<forall>j<N. Fm ! i ! j = 0) \<and>
   length (initial_guess self N rand) = N \<and>
   (makeFROGdomain self = 0 \<or> makeFROGdomain self = 1) \<and> self_dtperpx self \<noteq> 0 \<longrightarrow>
     normalize_max_one Fm = Inr (mk_mat N N (\<lambda>i j. NaN)) \<and>
     (\<exists>s. retrievePhase svd_u0 self file_Fm rand (Some Fm) None None = Returns s \<and>
          cur_Fr s = mk_mat N N (\<lambda>i j. NaN) \<and> cur_G s = NaN \<and> iteration s = 0)"
proof
  assume h: "is_array Fm \<and> shape Fm = (N, N) \<and> 0 < N \<and> (\<forall>i<N. \<forall>j<N. Fm ! i ! j = 0) \<and>
   length (initial_guess self N rand) = N \<and>
   (makeFROGdomain self = 0 \<or> makeFROGdomain self = 1) \<and> self_dtperpx self \<noteq> 0"
  then have N: "0 < N" and len: "length (initial_guess self N rand) = N"
    and d: "makeFROGdomain self = 0 \<or> makeFROGdomain self = 1" and dt: "self_dtperpx self \<noteq> 0"
    by simp_all
  from h have Fm: "Fm = mk_mat N N (\<lambda>i j. 0)"
    by (intro array_const) simp_all
  have norm: "normalize_max_one Fm = Inr (mk_mat N N (\<lambda>i j. NaN))"
    unfolding Fm by (rule normalize_zero [OF N])
  let ?Pt = "initial_guess self N rand"
  have ne: "?Pt \<noteq> []" using len N by auto
  have "\<exists>F EF. makeFROG ?Pt (makeFROGdomain self) (makeFROGantialias self) = Inr (Some (F, EF))"
    using d
  proof
    assume "makeFROGdomain self = 0"
    then show ?thesis using makeFROG_time_closed [OF ne, of "makeFROGantialias self"] by simp
  next
    assume "makeFROGdomain self = 1"
    then show ?thesis using makeFROG_freq_closed [OF ne, of "makeFROGantialias self"] by simp
  qed
  then obtain F EF where
    mk: "makeFROG ?Pt (makeFROGdomain self) (makeFROGantialias self) = Inr (Some (F, EF))"
    by blast
  from makeFROG_Some_entries [OF mk] obtain e where
    F: "F = mk_mat N N (\<lambda>i j. (cmod (e i j))\<^sup>2)" by (auto simp: len)
  have mt: "make_trace self (mk_mat N N (\<lambda>i j. NaN)) ?Pt = Inr (mk_mat N N (\<lambda>i j. NaN), EF, NaN)"
    by (simp add: make_trace_def mk F scale_and_error_NaN [OF N])
  have ne': "Fm \<noteq> []" "length (Fm ! 0) = N"
    using N unfolding Fm by (simp_all add: mk_mat_def)
  let ?s = "\<lparr>cur_Pt = ?Pt, cur_Fr = mk_mat N N (\<lambda>i j. NaN), cur_EFr = EF, cur_G = NaN, iteration = 0\<rparr>"
  have init: "gp_init self file_Fm rand (Some Fm) None None = Inr (mk_mat N N (\<lambda>i j. NaN), N, ?s)"
    using N dt by (simp add: gp_init_def Let_def ne' norm mt)
  have "gp_loop svd_u0 self (mk_mat N N (\<lambda>i j. NaN)) N ?s = Returns ?s"
    by (rule gp_loop_exit) simp
  then have "retrievePhase svd_u0 self file_Fm rand (Some Fm) None None = Returns ?s"
    by (simp add: retrievePhase_def init)
  then have "\<exists>s. retrievePhase svd_u0 self file_Fm rand (Some Fm) None None = Returns s \<and>
          cur_Fr s = mk_mat N N (\<lambda>i j. NaN) \<and> cur_G s = NaN \<and> iteration s = 0"
    by auto
  with norm show "normalize_max_one Fm = Inr (mk_mat N N (\<lambda>i j. NaN)) \<and>
     (\<exists>s. retrievePhase svd_u0 self file_Fm rand (Some Fm) None None = Returns s \<and>
          cur_Fr s = mk_mat N N (\<lambda>i j. NaN) \<and> cur_G s = NaN \<and> iteration s = 0)"
    by simp
qed


lemma makeFROG_ex1: "makeFROG [1] 0 0 = Inr (Some ([[1]], [[1]]))"
  by (simp add: makeFROG_def Let_def outer_def
      nrows_def ncols_def mk_mat_def roll_row_def roll1_def fliplr_def fftshift_axis1_def
      roll_axis1_def roll_axis0_def fft_axis0_def of_columns_def column_def dft_def
      abs_square_def)

text \<open>
  Claim C7 at the all-zero trace \<open>[[0]]\<close>. The docstring of \<open>normalize_max_one\<close> promises an
  array whose maximum is 1, and the claim a distinct error with no \<open>nan\<close> downstream. The
  code detects nothing: \<open>normalize_max_one\<close> returns \<open>[[nan]]\<close>, and \<open>retrievePhase\<close>, run
  from the seed \<open>[1]\<close>, raises no error and ends after no iteration with the reconstructed
  trace \<open>[[nan]]\<close> and the error \<open>nan\<close>.
\<close>

theorem retrievePhase_all_zero_trace_nan:
  "normalize_max_one [[0]] = Inr [[NaN]] \<and>
   retrievePhase (\<lambda>A. Inl LinAlgError)
      \<lparr>max_iter = 200, GTol = 1/1000, seed = Some [1], makeFROGdomain = 0,
       makeFROGantialias = 0, guesspulsedomain = 0, guesspulseantialias = 0,
       self_dtperpx = 1, self_Fm = []\<rparr> [] [] (Some [[0]]) None None
     = Returns \<lparr>cur_Pt = [1], cur_Fr = [[NaN]], cur_EFr = [[1]], cur_G = NaN, iteration = 0\<rparr>"
proof -
  have n: "normalize_max_one [[0]] = Inr [[NaN]]"
    by (simp add: normalize_max_one_def amax_def inf_of_sign_def)
  have sc: "scale_and_error [[NaN]] [[1]] = Inr ([[NaN]], NaN)"
    by (simp add: scale_and_error_def calc_alpha_def rms_diff_def broadcast2_def broadcastable_def
      nrows_def ncols_def fin_mat_def mk_mat_def bdim_def bidx_def np_sum_def np_square_def
      np_mean_def np_sub_def Let_def)
  have "gp_init \<lparr>max_iter = 200, GTol = 1/1000, seed = Some [1], makeFROGdomain = 0,
       makeFROGantialias = 0, guesspulsedomain = 0, guesspulseantialias = 0,
       self_dtperpx = 1, self_Fm = []\<rparr> [] [] (Some [[0]]) None None
     = Inr ([[NaN]], 1, \<lparr>cur_Pt = [1], cur_Fr = [[NaN]], cur_EFr = [[1]], cur_G = NaN, iteration = 0\<rparr>)"
    by (simp add: gp_init_def Let_def initial_guess_def n make_trace_def makeFROG_ex1 sc)
  then show ?thesis
    by (simp add: n retrievePhase_def gp_loop_exit)
qed

subsection \<open>A run in which the estimate of \<open>guessPulse\<close> vanishes\<close>

lemma normalize_ex01: "normalize_max_one [[0, 1], [0, 1]] = Inr [[Fin 0, Fin 1], [Fin 0, Fin 1]]"
  by (simp add: normalize_max_one_def amax_def)

lemma scale_and_error_ex01:
  "scale_and_error [[Fin 0, Fin 1], [Fin 0, Fin 1]] [[1, 0], [1, 0]]
     = Inr ([[Fin 0, Fin 0], [Fin 0, Fin 0]], Fin (sqrt (1/2)))"
  by (simp add: scale_and_error_def calc_alpha_def rms_diff_def broadcast2_def broadcastable_def
      nrows_def ncols_def fin_mat_def mk_mat_def upt_2 bdim_def bidx_def np_sum_def np_square_def
      np_mean_def np_sub_def Let_def power2_eq_square)

lemma gp_init_ex01:
  "gp_init \<lparr>max_iter = 200, GTol = 1/1000, seed = Some [1, 0], makeFROGdomain = 0,
     makeFROGantialias = 0, guesspulsedomain = 0, guesspulseantialias = 0,
     self_dtperpx = 1, self_Fm = []\<rparr> [] [] (Some [[0, 1], [0, 1]]) None None
   = Inr ([[Fin 0, Fin 1], [Fin 0, Fin 1]], 2,
          \<lparr>cur_Pt = [1, 0], cur_Fr = [[Fin 0, Fin 0], [Fin 0, Fin 0]],
           cur_EFr = [[1, 0], [1, 0]], cur_G = Fin (sqrt (1/2)), iteration = 0\<rparr>)"
  by (simp add: gp_init_def Let_def initial_guess_def normalize_ex01 make_trace_def makeFROG_ex10
      scale_and_error_ex01)

lemma gp_project_ex01:
  "gp_project [[1, 0], [1, 0]] [[Fin 0, Fin 1], [Fin 0, Fin 1]] [[Fin 0, Fin 0], [Fin 0, Fin 0]]
   = Inr [[Some 0, Some 0], [Some 0, Some 0]]"
  by (simp add: gp_project_def broadcast2_def broadcastable_def nrows_def ncols_def
      mk_mat_def upt_2 bdim_def bidx_def shape_def guarded_quotient_def scale_entry_def)

lemma guessPulse_zero_ex2:
  "guessPulse (\<lambda>A. Inl LinAlgError) [[0, 0], [0, 0]] [1, 0] 0 0 0 = Inr (Some (NaNField 2))"
  by (simp add: guessPulse_def Let_def roll_axis0_def roll1_def ifft_axis0_def nrows_def ncols_def
      of_columns_def column_def idft_def fliplr_def ifftshift_axis1_def roll_axis1_def roll_row_def
      power_step_def matvec_def conj_transpose_def transpose_mat_def normalize_field_def np_norm_def
      upt_2 mk_mat_def lessThan_Suc twiddle_Suc_Suc_0)

lemma sqrt_half_gt: "1 / 1000 < sqrt (1 / 2)"
  by (rule real_less_rsqrt) (simp add: power2_eq_square)

text \<open>
  Claim C9 at the trace \<open>[[0, 1], [0, 1]]\<close> with the seed \<open>[1, 0]\<close>. The comments at the two
  normalisations of \<open>guessPulse\<close> read ``Normalize to Euclidean norm 1'', and the claim is that
  every returned value has norm 1. The trace of the seed is \<open>[[1, 0], [1, 0]]\<close>, so
  \<open>alpha = 0\<close>, \<open>Fr = 0\<close> and \<open>G = \<surd>(1/2) > GTol\<close>; the update replaces \<open>EFr\<close> by the zero
  matrix, the power step gives the estimate \<open>[0, 0]\<close> of norm 0, and \<open>guessPulse\<close> returns
  \<open>[nan+nanj, nan+nanj]\<close>, whose norm is \<open>nan\<close>, not 1. The recentring then converts \<open>nan\<close> to
  an integer and the run ends in a \<open>ValueError\<close>.
\<close>

theorem retrievePhase_zero_estimate_raises:
  "guessPulse (\<lambda>A. Inl LinAlgError) [[0, 0], [0, 0]] [1, 0] 0 0 0 = Inr (Some (NaNField 2)) \<and>
   field_norm (NaNField 2) \<noteq> Fin 1 \<and>
   retrievePhase (\<lambda>A. Inl LinAlgError)
      \<lparr>max_iter = 200, GTol = 1/1000, seed = Some [1, 0], makeFROGdomain = 0,
       makeFROGantialias = 0, guesspulsedomain = 0, guesspulseantialias = 0,
       self_dtperpx = 1, self_Fm = []\<rparr> [] [] (Some [[0, 1], [0, 1]]) None None
     = Raises ValueError"
proof -
  let ?self = "\<lparr>max_iter = 200, GTol = 1/1000, seed = Some [1, 0], makeFROGdomain = 0,
       makeFROGantialias = 0, guesspulsedomain = 0, guesspulseantialias = 0,
       self_dtperpx = 1, self_Fm = []\<rparr>"
  have step: "gp_step (\<lambda>A. Inl LinAlgError) ?self [[Fin 0, Fin 1], [Fin 0, Fin 1]] 2 [1, 0]
                [[Fin 0, Fin 0], [Fin 0, Fin 0]] [[1, 0], [1, 0]] = Raises ValueError"
    by (simp add: gp_step_def gp_project_ex01 guessPulse_zero_ex2 recentre_def)
  let ?s = "\<lparr>cur_Pt = [1, 0], cur_Fr = [[Fin 0, Fin 0], [Fin 0, Fin 0]],
           cur_EFr = [[1, 0], [1, 0]], cur_G = Fin (sqrt (1/2)), iteration = 0\<rparr>"
  have c: "np_gt (cur_G ?s) (Fin (GTol ?self)) \<and> iteration ?s < max_iter ?self"
    using sqrt_half_gt by simp
  have "gp_loop (\<lambda>A. Inl LinAlgError) ?self [[Fin 0, Fin 1], [Fin 0, Fin 1]] 2 ?s
          = Raises ValueError"
    by (subst gp_loop.simps) (simp only: c if_True, simp add: step)
  then show ?thesis
    by (simp add: retrievePhase_def gp_init_ex01 guessPulse_zero_ex2 field_norm_def)
qed

subsection \<open>Cyclic shifts of the field\<close>

text \<open>
  \<open>np.roll(Pt, m)\<close> multiplies the \<open>k\<close>-th Fourier coefficient by a unimodular factor, and
  it multiplies each column-wise transform of the rotated outer product by one as well.
\<close>

lemma twiddle_cong:
  assumes "0 < N" "int N dvd (a - b)"
  shows "twiddle N a = twiddle N b"
proof -
  from assms(2) obtain q where "a - b = int N * q" by (auto elim: dvdE)
  then have "a = b + int N * q" by simp
  then have "twiddle N a = twiddle N b * twiddle N (int N * q)"
    by (simp only: twiddle_add)
  then show ?thesis by (simp add: twiddle_period [OF assms(1)])
qed

lemma roll_index_int:
  "0 < n \<Longrightarrow> int (nat ((int i - k) mod int n)) = (int i - k) mod int n"
  by simp

lemma twiddle_roll_index:
  assumes "0 < N"
  shows "twiddle N (- (int r * int n))
     = twiddle N (- (int r * m)) * twiddle N (- (int r * int (nat ((int n - m) mod int N))))"
proof -
  let ?p = "(int n - m) mod int N"
  have "int N dvd (int n - m - ?p)"
    by (simp add: mod_eq_dvd_iff [symmetric])
  then have "int N dvd (- (int r * int n) - (- (int r * m) + - (int r * ?p)))"
  proof -
    have "- (int r * int n) - (- (int r * m) + - (int r * ?p)) = - int r * (int n - m - ?p)"
      by (simp add: algebra_simps)
    with \<open>int N dvd (int n - m - ?p)\<close> show ?thesis by simp
  qed
  then have "twiddle N (- (int r * int n)) = twiddle N (- (int r * m) + - (int r * ?p))"
    by (rule twiddle_cong [OF assms])
  also have "\<dots> = twiddle N (- (int r * m)) * twiddle N (- (int r * ?p))"
    by (rule twiddle_add)
  also have "?p = int (nat ?p)"
    using assms by simp
  finally show ?thesis .
qed

lemma dft_shift:
  assumes k: "k < length x"
  shows "dft (roll1 m x) ! k = twiddle (length x) (- (int k * m)) * dft x ! k"
proof -
  let ?N = "length x"
  let ?p = "\<lambda>n. nat ((int n - m) mod int ?N)"
  have N: "0 < ?N" using k by (cases x) simp_all
  have "dft (roll1 m x) ! k = (\<Sum>n<?N. roll1 m x ! n * twiddle ?N (- int (k * n)))"
    using k by (simp add: dft_nth)
  also have "\<dots> = (\<Sum>n<?N. twiddle ?N (- (int k * m)) * (x ! ?p n * twiddle ?N (- int (k * ?p n))))"
  proof (rule sum.cong)
    fix n assume "n \<in> {..<?N}"
    then have n: "n < ?N" by simp
    have "twiddle ?N (- int (k * n)) = twiddle ?N (- (int k * m)) * twiddle ?N (- int (k * ?p n))"
      using twiddle_roll_index [OF N, of k n m] by simp
    then show "roll1 m x ! n * twiddle ?N (- int (k * n))
        = twiddle ?N (- (int k * m)) * (x ! ?p n * twiddle ?N (- int (k * ?p n)))"
      using n by (simp add: roll1_nth)
  qed simp
  also have "\<dots> = (\<Sum>n<?N. twiddle ?N (- (int k * m)) * (x ! n * twiddle ?N (- int (k * n))))"
    by (rule sum_roll_index [where h = "\<lambda>n. twiddle ?N (- (int k * m)) * (x ! n * twiddle ?N (- int (k * n)))"])
  also have "\<dots> = twiddle ?N (- (int k * m)) * dft x ! k"
    using k by (simp add: dft_nth sum_distrib_left)
  finally show ?thesis .
qed

lemma shifted_partner_index:
  assumes "0 < N"
  shows "nat ((int (nat ((int s + int n) mod int N)) - m) mod int N)
       = nat ((int s + int (nat ((int n - m) mod int N))) mod int N)"
proof -
  have "(int (nat ((int s + int n) mod int N)) - m) mod int N = ((int s + int n) mod int N - m) mod int N"
    using assms by simp
  also have "\<dots> = (int s + int n - m) mod int N"
    by (simp only: mod_diff_left_eq)
  also have "\<dots> = (int s + (int n - m)) mod int N"
    by (simp add: algebra_simps)
  also have "\<dots> = (int s + (int n - m) mod int N) mod int N"
    by (simp only: mod_add_right_eq)
  also have "\<dots> = (int s + int (nat ((int n - m) mod int N))) mod int N"
    using assms by simp
  finally show ?thesis by simp
qed

lemma correlation_shift:
  assumes N: "0 < length P"
  shows "(\<Sum>n<length P. roll1 m P ! n * roll1 m P ! nat ((int s + int n) mod int (length P))
             * twiddle (length P) (- int (r * n)))
     = twiddle (length P) (- (int r * m))
       * (\<Sum>n<length P. P ! n * P ! nat ((int s + int n) mod int (length P))
             * twiddle (length P) (- int (r * n)))"
proof -
  let ?N = "length P"
  let ?p = "\<lambda>n. nat ((int n - m) mod int ?N)"
  let ?g = "\<lambda>n. twiddle ?N (- (int r * m))
            * (P ! n * P ! nat ((int s + int n) mod int ?N) * twiddle ?N (- int (r * n)))"
  have "(\<Sum>n<?N. roll1 m P ! n * roll1 m P ! nat ((int s + int n) mod int ?N)
             * twiddle ?N (- int (r * n)))
      = (\<Sum>n<?N. ?g (?p n))"
  proof (rule sum.cong)
    fix n assume "n \<in> {..<?N}"
    then have n: "n < ?N" by simp
    have j: "nat ((int s + int n) mod int ?N) < ?N" by (rule mod_index_less [OF N])
    have t: "twiddle ?N (- int (r * n)) = twiddle ?N (- (int r * m)) * twiddle ?N (- int (r * ?p n))"
      using twiddle_roll_index [OF N, of r n m] by simp
    have a: "roll1 m P ! n = P ! ?p n" using n by (simp only: roll1_nth)
    have b: "roll1 m P ! nat ((int s + int n) mod int ?N) = P ! nat ((int s + int (?p n)) mod int ?N)"
      using j by (simp only: roll1_nth shifted_partner_index [OF N])
    show "roll1 m P ! n * roll1 m P ! nat ((int s + int n) mod int ?N) * twiddle ?N (- int (r * n))
        = ?g (?p n)"
      unfolding a b t by (simp add: mult_ac)
  qed simp
  also have "\<dots> = (\<Sum>n<?N. ?g n)"
    by (rule sum_roll_index)
  also have "\<dots> = twiddle ?N (- (int r * m))
       * (\<Sum>n<?N. P ! n * P ! nat ((int s + int n) mod int ?N) * twiddle ?N (- int (r * n)))"
    by (simp only: sum_distrib_left)
  finally show ?thesis .
qed


lemma cmod_twiddle_mult [simp]: "cmod (twiddle N a * z) = cmod z"
  by (simp add: norm_mult)

lemma makeFROG_time_shift:
  assumes ne: "Pt \<noteq> []"
  shows "\<exists>F EF EF'. makeFROG Pt 0 0 = Inr (Some (F, EF)) \<and>
                    makeFROG (roll1 m Pt) 0 0 = Inr (Some (F, EF'))"
proof -
  let ?N = "length Pt"
  let ?s = "\<lambda>j. nat ((int (?N - 1 - j) - int (?N div 2)) mod int ?N)"
  let ?r = "\<lambda>k. nat ((int k - (\<lceil>real ?N / 2\<rceil> - 1)) mod int ?N)"
  let ?E = "\<lambda>P. mk_mat ?N ?N (\<lambda>k j. \<Sum>n<?N. P ! n * P ! nat ((int (?s j) + int n) mod int ?N)
                 * twiddle ?N (- int (?r k * n)))"
  have N: "0 < ?N" using ne by simp
  have ne': "roll1 m Pt \<noteq> []" using ne by (simp add: roll1_def)
  have 1: "makeFROG Pt 0 0 = Inr (Some (abs_square (?E Pt), ?E Pt))"
    using makeFROG_time_closed [OF ne, of 0] by simp
  have 2: "makeFROG (roll1 m Pt) 0 0 = Inr (Some (abs_square (?E (roll1 m Pt)), ?E (roll1 m Pt)))"
    using makeFROG_time_closed [OF ne', of 0] by simp
  have "abs_square (?E (roll1 m Pt)) = abs_square (?E Pt)"
    unfolding abs_square_mk_mat
  proof (rule mk_mat_cong)
    fix k j assume "k < ?N" "j < ?N"
    show "(cmod (\<Sum>n<?N. roll1 m Pt ! n * roll1 m Pt ! nat ((int (?s j) + int n) mod int ?N)
                 * twiddle ?N (- int (?r k * n))))\<^sup>2
        = (cmod (\<Sum>n<?N. Pt ! n * Pt ! nat ((int (?s j) + int n) mod int ?N)
                 * twiddle ?N (- int (?r k * n))))\<^sup>2"
      by (simp only: correlation_shift [OF N] cmod_twiddle_mult)
  qed
  with 2 have "makeFROG (roll1 m Pt) 0 0 = Inr (Some (abs_square (?E Pt), ?E (roll1 m Pt)))"
    by (simp only:)
  with 1 show ?thesis by blast
qed

lemma mirrored_partner:
  fixes n :: nat
  assumes N: "0 < N" and r: "r < N"
  defines "c \<equiv> N - 1 - nat ((int (N - 1 - r) + int (n::nat)) mod int N)"
  shows "c < N" and "int N dvd (int n + int c - int r)"
proof -
  let ?q = "(int (N - 1 - r) + int n) mod int N"
  have q: "0 \<le> ?q" "?q < int N" using N by simp_all
  show "c < N" using N by (simp add: c_def)
  have c: "int c = int N - 1 - ?q" using q by (simp add: c_def nat_diff_distrib' of_nat_diff)
  have e: "int n + int c - int r = (int (N - 1 - r) + int n) - ?q"
    using r by (simp add: c of_nat_diff)
  show "int N dvd (int n + int c - int r)"
    unfolding e by (rule dvd_minus_mod)
qed

lemma spectrum_product_shift:
  assumes n: "n < length P" and r: "r < length P"
  shows "dft (roll1 m P) ! n
       * dft (roll1 m P) ! (length P - 1 - nat ((int (length P - 1 - r) + int n) mod int (length P)))
     = twiddle (length P) (- (int r * m))
       * (dft P ! n * dft P ! (length P - 1 - nat ((int (length P - 1 - r) + int n) mod int (length P))))"
proof -
  let ?N = "length P"
  let ?c = "?N - 1 - nat ((int (?N - 1 - r) + int n) mod int ?N)"
  have N: "0 < ?N" using n by (cases P) simp_all
  have c: "?c < ?N" by (rule mirrored_partner(1) [OF N r])
  have d: "int ?N dvd (int n + int ?c - int r)" by (rule mirrored_partner(2) [OF N r])
  have "- (int n * m) + - (int ?c * m) - (- (int r * m)) = (int n + int ?c - int r) * (- m)"
    by (simp add: algebra_simps)
  with d have "int ?N dvd (- (int n * m) + - (int ?c * m) - (- (int r * m)))"
    by (simp only: dvd_mult2)
  then have t: "twiddle ?N (- (int n * m) + - (int ?c * m)) = twiddle ?N (- (int r * m))"
    by (rule twiddle_cong [OF N])
  have "dft (roll1 m P) ! n * dft (roll1 m P) ! ?c
      = (twiddle ?N (- (int n * m)) * twiddle ?N (- (int ?c * m))) * (dft P ! n * dft P ! ?c)"
    by (simp only: dft_shift [OF n] dft_shift [OF c] mult_ac)
  also have "twiddle ?N (- (int n * m)) * twiddle ?N (- (int ?c * m)) = twiddle ?N (- (int r * m))"
    by (simp only: twiddle_add [symmetric] t)
  finally show ?thesis .
qed

lemma makeFROG_freq_shift:
  assumes ne: "Pt \<noteq> []"
  shows "\<exists>F EF EF'. makeFROG Pt 1 antialias = Inr (Some (F, EF)) \<and>
                    makeFROG (roll1 m Pt) 1 antialias = Inr (Some (F, EF'))"
proof -
  let ?N = "length Pt"
  let ?v = "\<lfloor>real ?N / 2\<rfloor>"
  let ?K = "\<lambda>i j. antialias \<noteq> 0 \<and>
            ((\<exists>n\<in>set [?v + 1..int ?N - 1]. i = nat n \<and> slice_bound ?N (?v + 1) \<le> j
                \<and> j < slice_bound ?N (?v + 1 + (int ?N - n)))
            \<or> (\<exists>n\<in>set [1..?v]. i = nat n \<and> slice_bound ?N (?v - (n - 1)) \<le> j
                \<and> j < slice_bound ?N (?v + 1)))"
  let ?r = "\<lambda>i. nat ((int i - (\<lceil>real ?N / 2\<rceil> - 1)) mod int ?N)"
  let ?c = "\<lambda>n i. ?N - 1 - nat ((int (?N - 1 - ?r i) + int n) mod int ?N)"
  let ?g = "\<lambda>j. ?N - 1 - nat ((int j - \<lceil>real ?N / 2\<rceil>) mod int ?N)"
  let ?S = "\<lambda>P i j. \<Sum>n<?N. (if ?K n (?c n i) then 0 else dft P ! n * dft P ! ?c n i)
                 * twiddle ?N (int (?g j * n))"
  let ?E = "\<lambda>P. mk_mat ?N ?N (\<lambda>i j. ?S P i j / of_nat ?N)"
  have N: "0 < ?N" using ne by simp
  have ne': "roll1 m Pt \<noteq> []" using ne by (simp add: roll1_def)
  have 1: "makeFROG Pt 1 antialias = Inr (Some (abs_square (?E Pt), ?E Pt))"
    by (rule makeFROG_freq_closed [OF ne])
  have 2: "makeFROG (roll1 m Pt) 1 antialias
             = Inr (Some (abs_square (?E (roll1 m Pt)), ?E (roll1 m Pt)))"
    using makeFROG_freq_closed [OF ne', of antialias] by (simp only: length_roll1)
  have eq: "abs_square (?E (roll1 m Pt)) = abs_square (?E Pt)"
    unfolding abs_square_mk_mat
  proof (rule mk_mat_cong)
    fix i j assume "i < ?N" "j < ?N"
    have r: "?r i < ?N" by (rule mod_index_less [OF N])
    have "?S (roll1 m Pt) i j
        = (\<Sum>n<?N. twiddle ?N (- (int (?r i) * m))
             * ((if ?K n (?c n i) then 0 else dft Pt ! n * dft Pt ! ?c n i)
                 * twiddle ?N (int (?g j * n))))"
    proof (rule sum.cong)
      fix n assume "n \<in> {..<?N}"
      then have n: "n < ?N" by simp
      show "(if ?K n (?c n i) then 0 else dft (roll1 m Pt) ! n * dft (roll1 m Pt) ! ?c n i)
                 * twiddle ?N (int (?g j * n))
          = twiddle ?N (- (int (?r i) * m))
             * ((if ?K n (?c n i) then 0 else dft Pt ! n * dft Pt ! ?c n i)
                 * twiddle ?N (int (?g j * n)))"
        by (simp only: spectrum_product_shift [OF n r] mult.assoc mult_zero_left mult_zero_right
              if_distrib [where f = "\<lambda>z. z * _"] if_distrib [where f = "\<lambda>z. _ * z"])
    qed simp
    also have "\<dots> = twiddle ?N (- (int (?r i) * m)) * ?S Pt i j"
      by (simp only: sum_distrib_left)
    finally have "?S (roll1 m Pt) i j / of_nat ?N
                = twiddle ?N (- (int (?r i) * m)) * (?S Pt i j / of_nat ?N)"
      by simp
    then show "(cmod (?S (roll1 m Pt) i j / of_nat ?N))\<^sup>2 = (cmod (?S Pt i j / of_nat ?N))\<^sup>2"
      by (simp only: cmod_twiddle_mult)
  qed
  from 2 have "makeFROG (roll1 m Pt) 1 antialias
             = Inr (Some (abs_square (?E Pt), ?E (roll1 m Pt)))"
    by (simp only: eq)
  with 1 show ?thesis by blast
qed

lemma roll1_Nil [simp]: "roll1 m [] = []"
  by (simp add: roll1_def)

lemma recentre_is_roll:
  assumes "recentre N (Field Pt) = Inr Pt'"
  shows "\<exists>k. Pt' = roll1 k Pt"
  using assms unfolding recentre_def Let_def
  by (auto split: sum.splits)

lemma makeFROG_roll:
  assumes "domain = 0 \<longrightarrow> antialias = 0"
  shows "(\<exists>F EF EF'. makeFROG Pt domain antialias = Inr (Some (F, EF)) \<and>
            makeFROG (roll1 m Pt) domain antialias = Inr (Some (F, EF'))) \<or>
         makeFROG (roll1 m Pt) domain antialias = makeFROG Pt domain antialias \<and>
         (Pt = [] \<or> domain \<noteq> 0 \<and> domain \<noteq> 1)"
proof (cases "Pt = []")
  case True
  then show ?thesis by simp
next
  case ne: False
  consider "domain = 0" | "domain = 1" | "domain \<noteq> 0 \<and> domain \<noteq> 1" by blast
  then show ?thesis
  proof cases
    case 1
    with assms have "antialias = 0" by simp
    with 1 makeFROG_time_shift [OF ne, of m] show ?thesis by simp
  next
    case 2
    with makeFROG_freq_shift [OF ne, of antialias m] show ?thesis by simp
  next
    case 3
    then show ?thesis by (simp add: makeFROG_def)
  qed
qed

lemma make_trace_roll:
  assumes "makeFROGdomain self = 0 \<longrightarrow> makeFROGantialias self = 0"
  shows "map_sum id (\<lambda>(Fr, EFr, G). (Fr, G)) (make_trace self Fm (roll1 m Pt))
       = map_sum id (\<lambda>(Fr, EFr, G). (Fr, G)) (make_trace self Fm Pt)"
  using makeFROG_roll [OF assms, of Pt m]
proof
  assume "\<exists>F EF EF'. makeFROG Pt (makeFROGdomain self) (makeFROGantialias self) = Inr (Some (F, EF)) \<and>
            makeFROG (roll1 m Pt) (makeFROGdomain self) (makeFROGantialias self) = Inr (Some (F, EF'))"
  then obtain F EF EF' where
    "makeFROG Pt (makeFROGdomain self) (makeFROGantialias self) = Inr (Some (F, EF))"
    "makeFROG (roll1 m Pt) (makeFROGdomain self) (makeFROGantialias self) = Inr (Some (F, EF'))"
    by blast
  then show ?thesis
    by (simp add: make_trace_def split: sum.splits prod.splits)
next
  assume "makeFROG (roll1 m Pt) (makeFROGdomain self) (makeFROGantialias self)
            = makeFROG Pt (makeFROGdomain self) (makeFROGantialias self) \<and>
         (Pt = [] \<or> makeFROGdomain self \<noteq> 0 \<and> makeFROGdomain self \<noteq> 1)"
  then show ?thesis by (simp add: make_trace_def)
qed

text \<open>
  Claim C8, as amended. Let the trace be made in the frequency domain, or in the time
  domain with anti-aliasing off. Then for every field \<open>Pt\<close>, every shift \<open>m\<close> and every measured
  trace \<open>Fm\<close>, the reconstructed trace \<open>Fr\<close> and the error \<open>G = rms_diff(Fm, alpha\<cdot>Fr)\<close> computed
  from \<open>makeFROG(np.roll(Pt, m))\<close> are those computed from \<open>makeFROG(Pt)\<close> (and the one
  computation raises exactly when the other does). The field \<open>Pt'\<close> that the recentring
  step makes of \<open>Pt\<close> is such a shift of \<open>Pt\<close>, so recentring changes neither \<open>Fr\<close> nor \<open>G\<close>.
  For a field with at least one sample and \<open>domain\<close> 0 or 1, \<open>makeFROG\<close> does return a trace
  for \<open>Pt\<close> and the same trace for the shifted field.
\<close>

theorem recentring_preserves_trace_and_error:
  "(makeFROGdomain self = 0 \<longrightarrow> makeFROGantialias self = 0) \<longrightarrow>
     map_sum id (\<lambda>(Fr, EFr, G). (Fr, G)) (make_trace self Fm (roll1 m Pt))
       = map_sum id (\<lambda>(Fr, EFr, G). (Fr, G)) (make_trace self Fm Pt) \<and>
     (recentre N (Field Pt) = Inr Pt' \<longrightarrow>
        (\<exists>k. Pt' = roll1 k Pt) \<and>
        map_sum id (\<lambda>(Fr, EFr, G). (Fr, G)) (make_trace self Fm Pt')
          = map_sum id (\<lambda>(Fr, EFr, G). (Fr, G)) (make_trace self Fm Pt)) \<and>
     (Pt \<noteq> [] \<and> (makeFROGdomain self = 0 \<or> makeFROGdomain self = 1) \<longrightarrow>
        (\<exists>F EF EF'. makeFROG Pt (makeFROGdomain self) (makeFROGantialias self) = Inr (Some (F, EF)) \<and>
           makeFROG (roll1 m Pt) (makeFROGdomain self) (makeFROGantialias self)
             = Inr (Some (F, EF'))))"
proof
  assume h: "makeFROGdomain self = 0 \<longrightarrow> makeFROGantialias self = 0"
  have a: "map_sum id (\<lambda>(Fr, EFr, G). (Fr, G)) (make_trace self Fm (roll1 m Pt))
       = map_sum id (\<lambda>(Fr, EFr, G). (Fr, G)) (make_trace self Fm Pt)"
    by (rule make_trace_roll [OF h])
  have b: "recentre N (Field Pt) = Inr Pt' \<longrightarrow>
        (\<exists>k. Pt' = roll1 k Pt) \<and>
        map_sum id (\<lambda>(Fr, EFr, G). (Fr, G)) (make_trace self Fm Pt')
          = map_sum id (\<lambda>(Fr, EFr, G). (Fr, G)) (make_trace self Fm Pt)"
  proof
    assume "recentre N (Field Pt) = Inr Pt'"
    then obtain k where k: "Pt' = roll1 k Pt" using recentre_is_roll by blast
    show "(\<exists>k. Pt' = roll1 k Pt) \<and>
        map_sum id (\<lambda>(Fr, EFr, G). (Fr, G)) (make_trace self Fm Pt')
          = map_sum id (\<lambda>(Fr, EFr, G). (Fr, G)) (make_trace self Fm Pt)"
      unfolding k using make_trace_roll [OF h, of Fm k Pt] by blast
  qed
  have c: "Pt \<noteq> [] \<and> (makeFROGdomain self = 0 \<or> makeFROGdomain self = 1) \<longrightarrow>
        (\<exists>F EF EF'. makeFROG Pt (makeFROGdomain self) (makeFROGantialias self) = Inr (Some (F, EF)) \<and>
           makeFROG (roll1 m Pt) (makeFROGdomain self) (makeFROGantialias self)
             = Inr (Some (F, EF')))"
    using makeFROG_roll [OF h, of Pt m] by blast
  from a b c show "map_sum id (\<lambda>(Fr, EFr, G). (Fr, G)) (make_trace self Fm (roll1 m Pt))
       = map_sum id (\<lambda>(Fr, EFr, G). (Fr, G)) (make_trace self Fm Pt) \<and>
     (recentre N (Field Pt) = Inr Pt' \<longrightarrow>
        (\<exists>k. Pt' = roll1 k Pt) \<and>
        map_sum id (\<lambda>(Fr, EFr, G). (Fr, G)) (make_trace self Fm Pt')
          = map_sum id (\<lambda>(Fr, EFr, G). (Fr, G)) (make_trace self Fm Pt)) \<and>
     (Pt \<noteq> [] \<and> (makeFROGdomain self = 0 \<or> makeFROGdomain self = 1) \<longrightarrow>
        (\<exists>F EF EF'. makeFROG Pt (makeFROGdomain self) (makeFROGantialias self) = Inr (Some (F, EF)) \<and>
           makeFROG (roll1 m Pt) (makeFROGdomain self) (makeFROGantialias self)
             = Inr (Some (F, EF'))))"
    by (simp only: simp_thms)
qed

lemma recentre_ex2: "recentre 2 (Field [0, 1]) = Inr [1, 0]"
  by (simp add: recentre_def Let_def broadcast2_def broadcastable_def nrows_def ncols_def
      mk_mat_def upt_2 bdim_def bidx_def shape_def trunc_def round_half_even_def
      np_sub_def roll1_def norm_power)

lemma roll1_ex2: "roll1 1 [0, 1] = [1, 0 :: complex]"
  by (simp add: roll1_def upt_2)

text \<open>
  The theorem at \<open>Pt = [0, 1]\<close>, which the recentring step shifts to \<open>[1, 0]\<close>, with the
  trace \<open>[[1, 0], [0, 0]]\<close> in the time domain, anti-aliasing off.
\<close>

theorem recentring_preserves_trace_and_error_witness:
  "recentre 2 (Field [0, 1]) = Inr [1, 0] \<and> roll1 1 [0, 1] = [1, 0 :: complex] \<and>
   map_sum id (\<lambda>(Fr, EFr, G). (Fr, G))
     (make_trace \<lparr>max_iter = 1, GTol = 1/1000, seed = Some [1, 0], makeFROGdomain = 0,
        makeFROGantialias = 0, guesspulsedomain = 0, guesspulseantialias = 0,
        self_dtperpx = 1, self_Fm = []\<rparr> (fin_mat [[1, 0], [0, 0]]) [0, 1])
     = Inr ([[Fin (1/2), Fin 0], [Fin (1/2), Fin 0]], Fin (sqrt (1/8))) \<and>
   (\<exists>F EF EF'. makeFROG [0, 1] 0 0 = Inr (Some (F, EF)) \<and>
                 makeFROG [1, 0] 0 0 = Inr (Some (F, EF')))"
proof -
  let ?self = "\<lparr>max_iter = 1, GTol = 1/1000, seed = Some [1, 0], makeFROGdomain = 0,
        makeFROGantialias = 0, guesspulsedomain = 0, guesspulseantialias = 0,
        self_dtperpx = 1, self_Fm = []\<rparr>"
  have h: "makeFROGdomain ?self = 0 \<longrightarrow> makeFROGantialias ?self = 0" by simp
  note t = recentring_preserves_trace_and_error
      [of ?self "fin_mat [[1, 0], [0, 0]]" 1 "[0, 1]" 2 "[1, 0]", THEN mp, OF h]
  from t have "map_sum id (\<lambda>(Fr, EFr, G). (Fr, G)) (make_trace ?self (fin_mat [[1, 0], [0, 0]]) [1, 0])
          = map_sum id (\<lambda>(Fr, EFr, G). (Fr, G)) (make_trace ?self (fin_mat [[1, 0], [0, 0]]) [0, 1])"
    by (simp add: recentre_ex2)
  then have 1: "map_sum id (\<lambda>(Fr, EFr, G). (Fr, G)) (make_trace ?self (fin_mat [[1, 0], [0, 0]]) [0, 1])
     = Inr ([[Fin (1/2), Fin 0], [Fin (1/2), Fin 0]], Fin (sqrt (1/8)))"
    by (simp add: make_trace_ex)
  from t have 2: "\<exists>F EF EF'. makeFROG [0, 1] 0 0 = Inr (Some (F, EF)) \<and>
                 makeFROG [1, 0] 0 0 = Inr (Some (F, EF'))"
    by (simp add: roll1_ex2)
  from 1 2 show ?thesis by (simp add: recentre_ex2 roll1_ex2)
qed

text \<open>The fourth roots of unity, for fields of four samples.\<close>



lemma twiddle_4_1: "twiddle 4 1 = \<i>"
  by (simp add: twiddle_def cis_pi_half)

lemma twiddle_4_nat: "twiddle 4 (int k) = \<i> ^ k"
  using twiddle_power [of 4 k 1] by (simp only: twiddle_4_1 mult_1_right)

lemma twiddle_4: "twiddle (Suc (Suc (Suc (Suc 0)))) m = \<i> ^ nat (m mod 4)"
proof -
  have 4: "Suc (Suc (Suc (Suc 0))) = 4" by simp
  have "twiddle 4 m = twiddle 4 (m mod int 4)"
    by (rule twiddle_mod [symmetric]) simp
  also have "m mod int 4 = int (nat (m mod 4))" by simp
  finally show ?thesis by (simp only: twiddle_4_nat 4)
qed

lemma i_powers: "\<i> ^ 3 = - \<i>" "\<i> ^ Suc (Suc (Suc 0)) = - \<i>" "\<i> ^ Suc (Suc 0) = - 1"
  by (simp_all add: power3_eq_cube)

lemma tw_vals:
  "twiddle (Suc (Suc (Suc (Suc 0)))) 0 = 1"
  "twiddle (Suc (Suc (Suc (Suc 0)))) (- 1) = - \<i>"
  "twiddle (Suc (Suc (Suc (Suc 0)))) (- 2) = - 1"
  "twiddle (Suc (Suc (Suc (Suc 0)))) (- 3) = \<i>"
  "twiddle (Suc (Suc (Suc (Suc 0)))) (- 4) = 1"
  "twiddle (Suc (Suc (Suc (Suc 0)))) (- 6) = - 1"
  "twiddle (Suc (Suc (Suc (Suc 0)))) (- 9) = - \<i>"
  by (simp_all add: twiddle_4 i_powers)


lemma upt_4: "[0..<4] = [0, 1, 2, 3]"
  by (simp add: upt_rec)


lemma ceiling_minus_1_real: "\<lceil>- 1 :: real\<rceil> = - 1"
  using ceiling_of_int [of "- 1", where ?'a = real] by simp

lemma cmod_sq_ex:
  "cmod (4 * \<i> + 1) * cmod (4 * \<i> + 1) = 17" "cmod (1 - 4 * \<i>) * cmod (1 - 4 * \<i>) = 17"
  "cmod (\<i> + 4) * cmod (\<i> + 4) = 17" "cmod (4 - \<i>) * cmod (4 - \<i>) = 17"
  by (simp_all add: power2_eq_square [symmetric] cmod_power2)

lemma makeFROG_ex4:
  "makeFROG [1, 2, 0, 0] 0 1
     = Inr (Some ([[4, 17, 4, 0], [4, 25, 4, 0], [4, 17, 4, 0], [4, 9, 4, 0]],
                  [[2, 4 * \<i> + 1, 2 * \<i>, 0], [2, 5, 2, 0], [2, 1 - 4 * \<i>, - (2 * \<i>), 0],
                   [2, - 3, - 2, 0]]))"
  by (simp add: makeFROG_def Let_def outer_def antialias_time_def tril_def triu_def mat_sub_def
      nrows_def ncols_def mk_mat_def upt_4 roll_row_def roll1_def fliplr_def fftshift_axis1_def
      roll_axis1_def roll_axis0_def fft_axis0_def of_columns_def column_def dft_def
      abs_square_def tw_vals lessThan_Suc power2_eq_square cmod_sq_ex)

lemma makeFROG_ex4_wrapped:
  "makeFROG [2, 0, 0, 1] 0 1
     = Inr (Some ([[0, 17, 0, 0], [0, 25, 0, 0], [0, 17, 0, 0], [0, 9, 0, 0]],
                  [[0, 4 - \<i>, 0, 0], [0, 5, 0, 0], [0, \<i> + 4, 0, 0], [0, 3, 0, 0]]))"
  by (simp add: makeFROG_def Let_def outer_def antialias_time_def tril_def triu_def mat_sub_def
      nrows_def ncols_def mk_mat_def upt_4 roll_row_def roll1_def fliplr_def fftshift_axis1_def
      roll_axis1_def roll_axis0_def fft_axis0_def of_columns_def column_def dft_def
      abs_square_def tw_vals lessThan_Suc power2_eq_square cmod_sq_ex)

lemma recentre_ex4: "recentre 4 (Field [2, 0, 0, 1]) = Inr [1, 2, 0, 0]"
  by (simp add: recentre_def Let_def broadcast2_def broadcastable_def nrows_def ncols_def
      mk_mat_def upt_4 bdim_def bidx_def shape_def trunc_def round_half_even_def
      np_sub_def roll1_def norm_power ceiling_minus_1_real)

lemma roll1_ex4: "roll1 1 [2, 0, 0, 1] = [1, 2, 0, 0 :: complex]"
  by (simp add: roll1_def upt_4)

lemma scale_and_error_ex4_wrapped:
  "scale_and_error (fin_mat [[4, 17, 4, 0], [4, 25, 4, 0], [4, 17, 4, 0], [4, 9, 4, 0]])
     [[0, 17, 0, 0], [0, 25, 0, 0], [0, 17, 0, 0], [0, 9, 0, 0]]
   = Inr ([[Fin 0, Fin 17, Fin 0, Fin 0], [Fin 0, Fin 25, Fin 0, Fin 0],
           [Fin 0, Fin 17, Fin 0, Fin 0], [Fin 0, Fin 9, Fin 0, Fin 0]], Fin (sqrt 8))"
  by (simp add: scale_and_error_def calc_alpha_def rms_diff_def broadcast2_def broadcastable_def
      nrows_def ncols_def fin_mat_def mk_mat_def upt_4 bdim_def bidx_def np_sum_def np_square_def
      np_mean_def np_sub_def Let_def power2_eq_square)

lemma scale_and_error_ex4:
  "scale_and_error (fin_mat [[4, 17, 4, 0], [4, 25, 4, 0], [4, 17, 4, 0], [4, 9, 4, 0]])
     [[4, 17, 4, 0], [4, 25, 4, 0], [4, 17, 4, 0], [4, 9, 4, 0]]
   = Inr ([[Fin 4, Fin 17, Fin 4, Fin 0], [Fin 4, Fin 25, Fin 4, Fin 0],
           [Fin 4, Fin 17, Fin 4, Fin 0], [Fin 4, Fin 9, Fin 4, Fin 0]], Fin 0)"
  by (simp add: scale_and_error_def calc_alpha_def rms_diff_def broadcast2_def broadcastable_def
      nrows_def ncols_def fin_mat_def mk_mat_def upt_4 bdim_def bidx_def np_sum_def np_square_def
      np_mean_def np_sub_def Let_def power2_eq_square)

text \<open>
  Claim C8 as stated, in the time domain with anti-aliasing on. The recentring step shifts
  \<open>Pt = [2, 0, 0, 1]\<close> by one sample to \<open>[1, 2, 0, 0]\<close>. In \<open>Pt\<close> the two nonzero samples are
  neighbours across the wrap-around, so the mask deletes their products; after the shift
  they are neighbours inside the array and the products stay. With the measured trace
  \<open>Fm = [[4, 17, 4, 0], [4, 25, 4, 0], [4, 17, 4, 0], [4, 9, 4, 0]]\<close> the field \<open>Pt\<close> gives
  \<open>Fr\<close> with the columns 0 and 2 zero and \<open>G = \<surd>8\<close>, the shifted field gives \<open>Fr = Fm\<close> and
  \<open>G = 0\<close>.
\<close>

theorem recentre_antialias_counterexample:
  "recentre 4 (Field [2, 0, 0, 1]) = Inr [1, 2, 0, 0] \<and>
   roll1 1 [2, 0, 0, 1] = [1, 2, 0, 0 :: complex] \<and>
   make_trace \<lparr>max_iter = 200, GTol = 1/1000, seed = None, makeFROGdomain = 0,
       makeFROGantialias = 1, guesspulsedomain = 0, guesspulseantialias = 0,
       self_dtperpx = 1, self_Fm = []\<rparr>
     (fin_mat [[4, 17, 4, 0], [4, 25, 4, 0], [4, 17, 4, 0], [4, 9, 4, 0]]) [2, 0, 0, 1]
     = Inr ([[Fin 0, Fin 17, Fin 0, Fin 0], [Fin 0, Fin 25, Fin 0, Fin 0],
             [Fin 0, Fin 17, Fin 0, Fin 0], [Fin 0, Fin 9, Fin 0, Fin 0]],
            [[0, 4 - \<i>, 0, 0], [0, 5, 0, 0], [0, \<i> + 4, 0, 0], [0, 3, 0, 0]], Fin (sqrt 8)) \<and>
   make_trace \<lparr>max_iter = 200, GTol = 1/1000, seed = None, makeFROGdomain = 0,
       makeFROGantialias = 1, guesspulsedomain = 0, guesspulseantialias = 0,
       self_dtperpx = 1, self_Fm = []\<rparr>
     (fin_mat [[4, 17, 4, 0], [4, 25, 4, 0], [4, 17, 4, 0], [4, 9, 4, 0]]) [1, 2, 0, 0]
     = Inr ([[Fin 4, Fin 17, Fin 4, Fin 0], [Fin 4, Fin 25, Fin 4, Fin 0],
             [Fin 4, Fin 17, Fin 4, Fin 0], [Fin 4, Fin 9, Fin 4, Fin 0]],
            [[2, 4 * \<i> + 1, 2 * \<i>, 0], [2, 5, 2, 0], [2, 1 - 4 * \<i>, - (2 * \<i>), 0],
             [2, - 3, - 2, 0]], Fin 0) \<and>
   Fin (sqrt 8) \<noteq> Fin 0"
  by (simp add: recentre_ex4 roll1_ex4 make_trace_def makeFROG_ex4 makeFROG_ex4_wrapped
      scale_and_error_ex4 scale_and_error_ex4_wrapped)

subsection \<open>\<open>prepFROG\<close> on an image that is already sampled as required\<close>

text \<open>
  The orientation, the low-pass filter and the background subtraction keep the shape of
  the image and raise nothing on an image with at least one row and one column.
\<close>

lemma map2_map_same: "map2 h (map f xs) (map g xs) = map (\<lambda>j. h (f j) (g j)) xs"
  by (induction xs) simp_all

lemma map2_mk_mat:
  "map2 (map2 h) (mk_mat r c f) (mk_mat r c g) = mk_mat r c (\<lambda>i j. h (f i j) (g i j))"
  unfolding mk_mat_def by (simp only: map2_map_same)

lemma map_dft_mk_mat:
  "map dft (mk_mat r c f) = mk_mat r c (\<lambda>i k. \<Sum>n<c. f i n * twiddle c (- int (k * n)))"
  unfolding mk_mat_def dft_def by simp

lemma map_idft_mk_mat:
  "map idft (mk_mat r c f)
     = mk_mat r c (\<lambda>i k. (\<Sum>n<c. f i n * twiddle c (int (k * n))) / of_nat c)"
  unfolding mk_mat_def idft_def by simp

lemma fft2_mk_mat:
  assumes "0 < r" "0 < c"
  shows "fft2 (mk_mat r c f)
     = Inr (mk_mat r c (\<lambda>k j. \<Sum>n<r. (\<Sum>m<c. f n m * twiddle c (- int (j * m)))
                                        * twiddle r (- int (k * n))))"
  using assms by (simp add: fft2_def map_dft_mk_mat fft_axis0_mk_mat)

lemma ifft2_mk_mat:
  assumes "0 < r" "0 < c"
  shows "ifft2 (mk_mat r c f)
     = Inr (mk_mat r c (\<lambda>k j. (\<Sum>n<r. (\<Sum>m<c. f n m * twiddle c (int (j * m))) / of_nat c
                                        * twiddle r (int (k * n))) / of_nat r))"
  using assms by (simp add: ifft2_def map_idft_mk_mat ifft_axis0_mk_mat)

lemma low_pass_mk_mat:
  assumes r: "0 < r" and c: "0 < c"
  shows "\<exists>g. low_pass (mk_mat r c f) = Inr (mk_mat r c g)"
proof -
  obtain x where x: "fft2 (mk_mat r c (\<lambda>i j. complex_of_real (f i j))) = Inr (mk_mat r c x)"
    by (simp only: fft2_mk_mat [OF r c])
  let ?y = "\<lambda>i j. x (nat ((int i - int (r div 2)) mod int r)) (nat ((int j - int (c div 2)) mod int c))"
  have s: "fftshift2 (mk_mat r c x) = mk_mat r c ?y"
    using r by (simp add: fftshift2_def roll_axis0_mk_mat roll_axis1_mk_mat)
  obtain t where t: "tophatfilter r c = mk_mat r c t"
    by (simp add: tophatfilter_def)
  let ?z = "\<lambda>i j. complex_of_real (t i j) * ?y i j"
  let ?w = "\<lambda>i j. ?z (nat ((int i + int (r div 2)) mod int r)) (nat ((int j + int (c div 2)) mod int c))"
  have u: "ifftshift2 (mk_mat r c ?z) = mk_mat r c ?w"
    using r by (simp add: ifftshift2_def roll_axis0_mk_mat roll_axis1_mk_mat)
  obtain v where v: "ifft2 (mk_mat r c ?w) = Inr (mk_mat r c v)"
    by (simp only: ifft2_mk_mat [OF r c])
  have "low_pass (mk_mat r c f) = Inr (mk_mat r c (\<lambda>i j. cmod (v i j)))"
    by (simp only: low_pass_def map_map_mk_mat x Let_def nrows_mk_mat ncols_mk_mat [OF r]
          s t map2_mk_mat u v sum.case)
  then show ?thesis by blast
qed


lemma orient_mk_mat:
  assumes "0 < n"
  shows "\<exists>g. orient flip (mk_mat n n f) = mk_mat n n g"
  using assms by (auto simp: orient_def Let_def transpose_mk_mat flipud_mk_mat)

lemma imgblocks_fold:
  fixes g :: "nat \<Rightarrow> nat \<Rightarrow> real" and r c :: nat
  defines "step \<equiv> (\<lambda>blocks (ii, jj). map2 (map2 (+)) blocks
                  (roll_axis1 (int jj + 1) (roll_axis0 (int ii + 1) (mk_mat r c g))))"
  shows "\<exists>b. foldl step (mk_mat r c a) ps = mk_mat r c b"
proof (induction ps arbitrary: a)
  case Nil
  show ?case by auto
next
  case (Cons p ps)
  obtain ii jj where p: "p = (ii, jj)" by (cases p)
  have "step (mk_mat r c a) p
          = mk_mat r c (\<lambda>i j. a i j + g (nat ((int i - (int ii + 1)) mod int r))
                                         (nat ((int j - (int jj + 1)) mod int c)))"
    by (simp add: step_def p roll_axis0_mk_mat roll_axis1_mk_mat map2_mk_mat)
  then obtain a' where "step (mk_mat r c a) p = mk_mat r c a'" ..
  then show ?case using Cons.IH [of a'] by simp
qed

lemma imgblocks_mk_mat:
  assumes r: "0 < r"
  shows "\<exists>b. imgblocks (mk_mat r c g) = mk_mat r c b"
  unfolding imgblocks_def nrows_mk_mat ncols_mk_mat [OF r]
  by (rule imgblocks_fold)

lemma amin_mk_mat:
  assumes "0 < r" "0 < c"
  shows "\<exists>m. amin (mk_mat r c b) = Inr m"
proof -
  have "concat (mk_mat r c b) \<noteq> []"
    using assms by (cases r; cases c) (simp_all add: mk_mat_def upt_conv_Cons del: upt_Suc)
  then obtain y ys where "concat (mk_mat r c b) = y # ys"
    by (cases "concat (mk_mat r c b)") auto
  then show ?thesis by (simp add: amin_def)
qed

lemma subtract_background_mk_mat:
  assumes r: "0 < r" and c: "0 < c"
  shows "\<exists>h. subtract_background (mk_mat r c g) = Inr (mk_mat r c h) \<and> (\<forall>i j. 0 \<le> h i j)"
proof -
  obtain b where b: "imgblocks (mk_mat r c g) = mk_mat r c b"
    using imgblocks_mk_mat [OF r] by blast
  obtain m where m: "amin (mk_mat r c b) = Inr m"
    using amin_mk_mat [OF r c] by blast
  let ?h = "\<lambda>i j. if g i j - m / 64 < 0 then 0 else g i j - m / 64"
  have "subtract_background (mk_mat r c g) = Inr (mk_mat r c ?h)"
    by (simp only: subtract_background_def b m sum.case map_map_mk_mat)
  moreover have "\<forall>i j. 0 \<le> ?h i j" by simp
  ultimately show ?thesis by blast
qed

text \<open>
  Claim C4, as amended. Let the input image have the shape \<open>N\<times>N\<close> with \<open>N = prep_size \<ge> 1\<close>,
  and let the calibration steps satisfy \<open>ccddt * ccddv = 1/N\<close> exactly. Then \<open>prepFROG\<close> raises
  nothing and skips the downsampling only: \<open>Fm\<close> is the image after the orientation given by
  \<open>flip\<close>, the low-pass filter and the background subtraction, an \<open>N\<times>N\<close> array without
  negative entries, and the effective time step \<open>dtperpx\<close> is the input delay step \<open>ccddt\<close>.
\<close>

theorem prepFROG_already_sampled:
  "is_array ccdimg \<and> shape ccdimg = (n, n) \<and> 0 < n \<and> prep_size = int n \<and>
   ccddt * ccddv = 1 / real n \<longrightarrow>
     (\<exists>filtered Fm.
        low_pass (orient flip ccdimg) = Inr filtered \<and>
        subtract_background filtered = Inr Fm \<and>
        prepFROG prep_size ccddt ccddv ccdimg flip = Inr (Fin ccddt, Fm) \<and>
        is_array Fm \<and> shape Fm = (n, n) \<and> (\<forall>i<n. \<forall>j<n. 0 \<le> Fm ! i ! j))"
proof
  assume h: "is_array ccdimg \<and> shape ccdimg = (n, n) \<and> 0 < n \<and> prep_size = int n \<and>
   ccddt * ccddv = 1 / real n"
  then have n: "0 < n" and N: "prep_size = int n" and dtdv: "ccddt * ccddv = 1 / real n"
    by simp_all
  from h have "nrows ccdimg = n" "ncols ccdimg = n" by (simp_all add: shape_def)
  with h have "ccdimg = mk_mat n n (\<lambda>i j. ccdimg ! i ! j)"
    using mk_mat_self [of ccdimg] by simp
  then obtain a where a: "ccdimg = mk_mat n n a" ..
  obtain b where b: "orient flip ccdimg = mk_mat n n b"
    unfolding a using orient_mk_mat [OF n] by blast
  obtain f where f: "low_pass (mk_mat n n b) = Inr (mk_mat n n f)"
    using low_pass_mk_mat [OF n n] by blast
  obtain g where g: "subtract_background (mk_mat n n f) = Inr (mk_mat n n g)"
    and pos: "\<forall>i j. 0 \<le> g i j"
    using subtract_background_mk_mat [OF n n] by blast
  have area: "sample_area prep_size (ccddt * ccddv) = Inr 1"
    using n by (simp add: sample_area_def N dtdv)
  have sampled: "already_sampled prep_size ccddt ccddv (mk_mat n n g) = Inr True"
    using n by (simp add: already_sampled_def N dtdv)
  have "prepFROG prep_size ccddt ccddv ccdimg flip = Inr (Fin ccddt, mk_mat n n g)"
    by (simp only: prepFROG_def Let_def b area f g sampled sum.case bool.case)
  with b f g pos n show "\<exists>filtered Fm.
        low_pass (orient flip ccdimg) = Inr filtered \<and>
        subtract_background filtered = Inr Fm \<and>
        prepFROG prep_size ccddt ccddv ccdimg flip = Inr (Fin ccddt, Fm) \<and>
        is_array Fm \<and> shape Fm = (n, n) \<and> (\<forall>i<n. \<forall>j<n. 0 \<le> Fm ! i ! j)"
    by simp
qed

text \<open>The steps of \<open>prepFROG\<close> on a \<open>2\<times>2\<close> image.\<close>

lemma tophatfilter_ex2: "tophatfilter 2 2 = [[1, 0], [0, 0]]"
proof -
  have "1 \<le> sqrt 2" by simp
  then have "\<not> 5 * sqrt 2 < 3" by linarith
  then show ?thesis
    by (simp add: tophatfilter_def mk_mat_def upt_2)
qed

lemma fft2_ex2: "fft2 [[0, 0], [1, 0]] = Inr [[1, 1], [- 1, - 1]]"
  by (simp add: fft2_def fft_axis0_def dft_def of_columns_def column_def nrows_def ncols_def
      upt_2 lessThan_Suc twiddle_Suc_Suc_0)

lemma fftshift2_ex2: "fftshift2 [[1, 1], [- 1, - 1 :: complex]] = [[- 1, - 1], [1, 1]]"
  by (simp add: fftshift2_def roll_axis0_def roll_axis1_def roll1_def nrows_def ncols_def upt_2)

lemma ifftshift2_ex2: "ifftshift2 [[- 1, 0], [0, 0 :: complex]] = [[0, 0], [0, - 1]]"
  by (simp add: ifftshift2_def roll_axis0_def roll_axis1_def roll1_def nrows_def ncols_def upt_2)

lemma ifft2_ex2: "ifft2 [[0, 0], [0, - 1]] = Inr [[- (1 / 4), 1 / 4], [1 / 4, - (1 / 4)]]"
  by (simp add: ifft2_def ifft_axis0_def idft_def of_columns_def column_def nrows_def ncols_def
      upt_2 lessThan_Suc twiddle_Suc_Suc_0)

lemma low_pass_ex2: "low_pass [[0, 0], [1, 0]] = Inr [[1 / 4, 1 / 4], [1 / 4, 1 / 4]]"
proof -
  have s: "nrows [[0, 0], [1, 0 :: real]] = 2" "ncols [[0, 0], [1, 0 :: real]] = 2"
    by (simp_all add: nrows_def ncols_def)
  have c: "map (map complex_of_real) [[0, 0], [1, 0]] = [[0, 0], [1, 0]]" by simp
  have m: "map2 (map2 (\<lambda>t z. complex_of_real t * z)) [[1, 0], [0, 0]] [[- 1, - 1], [1, 1]]
             = [[- 1, 0], [0, 0]]" by simp
  have a: "map (map cmod) [[- (1 / 4), 1 / 4], [1 / 4, - (1 / 4)]]
             = [[1 / 4, 1 / 4], [1 / 4, 1 / 4]]" by simp
  show ?thesis
    by (simp only: low_pass_def c fft2_ex2 sum.case Let_def s tophatfilter_ex2 fftshift2_ex2 m
          ifftshift2_ex2 ifft2_ex2 a)
qed

lemma subtract_background_ex2:
  "subtract_background [[1 / 4, 1 / 4], [1 / 4, 1 / 4]] = Inr [[0, 0], [0, 0]]"
  by (simp add: subtract_background_def imgblocks_def amin_def roll_axis0_def
      roll_axis1_def roll1_def nrows_def ncols_def upt_2 mk_mat_def List.product_def upt_rec)

text \<open>
  The theorem at the \<open>2\<times>2\<close> image \<open>[[0, 0], [1, 0]]\<close> with \<open>ccddt = 1\<close>, \<open>ccddv = 1/2\<close> and
  \<open>flip = 0\<close>: the filter leaves the constant image \<open>1/4\<close>, which is all background.
\<close>

theorem prepFROG_already_sampled_witness:
  "is_array [[0, 0], [1, 0 :: real]] \<and> shape [[0, 0], [1, 0 :: real]] = (2, 2) \<and> 0 < (2 :: nat) \<and>
   (2 :: int) = int 2 \<and> (1 :: real) * (1 / 2) = 1 / real 2 \<and>
   low_pass (orient 0 [[0, 0], [1, 0]]) = Inr [[1 / 4, 1 / 4], [1 / 4, 1 / 4]] \<and>
   subtract_background [[1 / 4, 1 / 4], [1 / 4, 1 / 4]] = Inr [[0, 0], [0, 0]] \<and>
   prepFROG 2 1 (1 / 2) [[0, 0], [1, 0]] 0 = Inr (Fin 1, [[0, 0], [0, 0]])"
proof -
  have h: "is_array [[0, 0], [1, 0 :: real]] \<and> shape [[0, 0], [1, 0 :: real]] = (2, 2) \<and>
      0 < (2 :: nat) \<and> (2 :: int) = int 2 \<and> (1 :: real) * (1 / 2) = 1 / real 2"
    by (simp add: is_array_def shape_def nrows_def ncols_def)
  have o: "orient 0 [[0, 0], [1, 0 :: real]] = [[0, 0], [1, 0]]"
    by (simp add: orient_def)
  from prepFROG_already_sampled [of "[[0, 0], [1, 0]]" 2 2 1 "1 / 2" 0, THEN mp, OF h]
  have "prepFROG 2 1 (1 / 2) [[0, 0], [1, 0]] 0 = Inr (Fin 1, [[0, 0], [0, 0]])"
    by (auto simp: o low_pass_ex2 subtract_background_ex2)
  with h show ?thesis by (simp only: o low_pass_ex2 subtract_background_ex2 simp_thms)
qed

text \<open>
  Claim C4 as stated. The \<open>2\<times>2\<close> image \<open>[[1, 0], [0, 0]]\<close> with \<open>prep_size = 2\<close>, \<open>ccddt = 1\<close>,
  \<open>ccddv = 1/2\<close> and the default \<open>flip = 2\<close> has the required shape and satisfies the sampling
  identity, yet it is flipped, filtered and freed of its background before the test that
  skips the downsampling: \<open>Fm\<close> is the zero array, not the input image.
\<close>

theorem prepFROG_shortcut_counterexample:
  "shape [[1, 0], [0, 0 :: real]] = (2, 2) \<and> (1 :: real) * (1 / 2) = 1 / 2 \<and>
   prepFROG 2 1 (1 / 2) [[1, 0], [0, 0]] 2 = Inr (Fin 1, [[0, 0], [0, 0]]) \<and>
   [[0, 0], [0, 0]] \<noteq> [[1, 0], [0, 0 :: real]]"
proof -
  have o: "orient 2 [[1, 0], [0, 0 :: real]] = [[0, 0], [1, 0]]"
    by (simp add: orient_def flipud_def)
  have a: "sample_area 2 (1 * (1 / 2)) = Inr 1"
    by (simp add: sample_area_def)
  have s: "already_sampled 2 1 (1 / 2) [[0, 0], [0, 0]] = Inr True"
    by (simp add: already_sampled_def nrows_def ncols_def)
  have "prepFROG 2 1 (1 / 2) [[1, 0], [0, 0]] 2 = Inr (Fin 1, [[0, 0], [0, 0]])"
    by (simp only: prepFROG_def Let_def o a low_pass_ex2 subtract_background_ex2 s sum.case
          bool.case)
  then show ?thesis by (simp add: shape_def nrows_def ncols_def)
qed

end
